theory Spec2Isabelle
  imports Complex_Main "HOL-Library.AList" "HOL-Library.Multiset"
begin

section \<open>JavaScript values\<close>

text \<open>
  The handlers of \<^verbatim>\<open>src/api/index.js\<close> work on the JSON data that the request body
  parser and the table store hand them. A value is one of the JavaScript values such
  data can hold, plus \<open>undefined\<close> (the result of reading an absent property) and
  \<open>NaN\<close> (the result of a failed numeric conversion). A number is an IEEE double: a
  finite one is the rational it denotes (\<open>JNum\<close>, with the two zeros taken as one),
  and there are the two infinities. A string is the sequence of the bytes of its UTF-8
  encoding. An object is the list of its own properties in insertion order.
\<close>

datatype jv =
    JUndef
  | JNull
  | JBool bool
  | JNum rat
  | JNaN
  | JInf
  | JNegInf
  | JStr string
  | JArr "jv list"
  | JObj "(string \<times> jv) list"

datatype js_error = TypeError

text \<open>The result of a numeric conversion or of an arithmetic operation.\<close>

datatype double = Finite rat | PosInf | NegInf | NotANumber

fun number_value :: "double \<Rightarrow> jv" where
  "number_value (Finite q) = JNum q"
| "number_value PosInf = JInf"
| "number_value NegInf = JNegInf"
| "number_value NotANumber = JNaN"

text \<open>
  What the platform decides is taken as a parameter: the conversions between strings
  and numbers of the language runtime, the double that an arithmetic result of a given
  exact value is rounded to, the order in which the engine leaves an array that it
  sorts with a comparator that is not consistent, the upper case of a string, the
  message of an exception, the bytes \<^verbatim>\<open>Buffer.from\<close> makes of a value that is not a
  string, and, for the table store, the order of the rows of an ordered query and the
  values that the text of an \<open>in\<close> filter lists.
\<close>

record runtime =
  number_to_string :: "rat \<Rightarrow> string"
  string_to_number :: "string \<Rightarrow> double"
  parse_float :: "string \<Rightarrow> double"
  round_double :: "rat \<Rightarrow> double"
  engine_sort :: "(jv \<Rightarrow> jv \<Rightarrow> js_error + int) \<Rightarrow> jv list \<Rightarrow> js_error + jv list"
  to_upper_case :: "string \<Rightarrow> string"
  error_text :: "js_error \<Rightarrow> string"
  buffer_from :: "jv \<Rightarrow> js_error + string"
  order_rows :: "string \<Rightarrow> jv list \<Rightarrow> jv list"
  in_list :: "string \<Rightarrow> jv \<Rightarrow> bool"

fun truthy :: "jv \<Rightarrow> bool" where
  "truthy JUndef = False"
| "truthy JNull = False"
| "truthy (JBool b) = b"
| "truthy (JNum n) = (n \<noteq> 0)"
| "truthy JNaN = False"
| "truthy JInf = True"
| "truthy JNegInf = True"
| "truthy (JStr s) = (s \<noteq> [])"
| "truthy (JArr xs) = True"
| "truthy (JObj kvs) = True"

text \<open>\<^verbatim>\<open>a || b\<close>\<close>

definition js_or :: "jv \<Rightarrow> jv \<Rightarrow> jv" where
  "js_or a b = (if truthy a then a else b)"

text \<open>\<^verbatim>\<open>Array.isArray(v)\<close>\<close>

fun isArray :: "jv \<Rightarrow> bool" where
  "isArray (JArr xs) = True"
| "isArray v = False"

text \<open>Reading a property of \<open>null\<close> or \<open>undefined\<close> throws a TypeError.\<close>

definition nullish :: "jv \<Rightarrow> bool" where
  "nullish v = (v = JNull \<or> v = JUndef)"

text \<open>
  \<^verbatim>\<open>v.k\<close> on a value that is not nullish: an own property of an object, and
  \<open>undefined\<close> otherwise. None of the property names that the program reads from
  its data is a built-in property of an object, a string, a number, a boolean or an
  array, but for \<open>length\<close>, which the handlers read for their log only.
\<close>

fun field :: "jv \<Rightarrow> string \<Rightarrow> jv" where
  "field (JObj kvs) k = (case map_of kvs k of None \<Rightarrow> JUndef | Some v \<Rightarrow> v)"
| "field v k = JUndef"

text \<open>The own properties copied by the object spread \<^verbatim>\<open>{...v}\<close>.\<close>

fun own_props :: "jv \<Rightarrow> (string \<times> jv) list" where
  "own_props (JObj kvs) = kvs"
| "own_props v = []"

text \<open>\<^verbatim>\<open>{...v, k: x}\<close>: a property that exists keeps its place, a new one goes last.\<close>

definition spread_with :: "jv \<Rightarrow> string \<Rightarrow> jv \<Rightarrow> jv" where
  "spread_with v k x = JObj (AList.update k x (own_props v))"

fun join_comma :: "string list \<Rightarrow> string" where
  "join_comma [] = []"
| "join_comma [s] = s"
| "join_comma (s # t # ss) = s @ '','' @ join_comma (t # ss)"

text \<open>
  ToPrimitive, which every conversion of a value to a string or to a number starts
  with, throws a TypeError for some values. For an object it calls \<open>valueOf\<close> and
  \<open>toString\<close>: the inherited \<open>valueOf\<close> returns the object itself, which is no
  primitive, and the inherited \<open>toString\<close> returns a string; an own property
  \<open>toString\<close>, which in data from JSON is never a function, leaves no method that
  returns a primitive. For an array it is the join of the elements, which converts
  every element that is not \<open>null\<close> or \<open>undefined\<close>.
\<close>

fun to_primitive_throws :: "jv \<Rightarrow> bool" where
  "to_primitive_throws (JObj kvs) = (map_of kvs ''toString'' \<noteq> None)"
| "to_primitive_throws (JArr xs) = list_ex to_primitive_throws xs"
| "to_primitive_throws v = False"

text \<open>
  ToString, after ToPrimitive for arrays and objects: the text of a value whose
  conversion does not throw. Where the source converts a value, the model tests
  \<open>to_primitive_throws\<close> first.
\<close>

fun js_to_string :: "runtime \<Rightarrow> jv \<Rightarrow> string" where
  "js_to_string rt JUndef = ''undefined''"
| "js_to_string rt JNull = ''null''"
| "js_to_string rt (JBool b) = (if b then ''true'' else ''false'')"
| "js_to_string rt (JNum n) = number_to_string rt n"
| "js_to_string rt JNaN = ''NaN''"
| "js_to_string rt JInf = ''Infinity''"
| "js_to_string rt JNegInf = ''-Infinity''"
| "js_to_string rt (JStr s) = s"
| "js_to_string rt (JArr xs) =
     join_comma (map (\<lambda>x. if x = JNull \<or> x = JUndef then [] else js_to_string rt x) xs)"
| "js_to_string rt (JObj kvs) = ''[object Object]''"

text \<open>ToNumber, after ToPrimitive for arrays and objects, of such a value.\<close>

fun js_to_number :: "runtime \<Rightarrow> jv \<Rightarrow> double" where
  "js_to_number rt JUndef = NotANumber"
| "js_to_number rt JNull = Finite 0"
| "js_to_number rt (JBool b) = Finite (if b then 1 else 0)"
| "js_to_number rt (JNum n) = Finite n"
| "js_to_number rt JNaN = NotANumber"
| "js_to_number rt JInf = PosInf"
| "js_to_number rt JNegInf = NegInf"
| "js_to_number rt (JStr s) = string_to_number rt s"
| "js_to_number rt (JArr xs) = string_to_number rt (js_to_string rt (JArr xs))"
| "js_to_number rt (JObj kvs) = string_to_number rt (js_to_string rt (JObj kvs))"

text \<open>\<^verbatim>\<open>v > 0\<close> returns true: the conversion of \<open>v\<close> does not throw and gives a number above 0.\<close>

definition js_gt0 :: "runtime \<Rightarrow> jv \<Rightarrow> bool" where
  "js_gt0 rt v =
     (\<not> to_primitive_throws v \<and>
      (case js_to_number rt v of Finite n \<Rightarrow> 0 < n | PosInf \<Rightarrow> True | _ \<Rightarrow> False))"

text \<open>
  The sum of two numbers: the exact sum of two finite ones, rounded to a double by the
  platform, and what IEEE 754 says of the infinities and NaN.
\<close>

fun add_double :: "runtime \<Rightarrow> double \<Rightarrow> double \<Rightarrow> double" where
  "add_double rt (Finite x) (Finite y) = round_double rt (x + y)"
| "add_double rt NotANumber y = NotANumber"
| "add_double rt x NotANumber = NotANumber"
| "add_double rt PosInf NegInf = NotANumber"
| "add_double rt NegInf PosInf = NotANumber"
| "add_double rt PosInf y = PosInf"
| "add_double rt NegInf y = NegInf"
| "add_double rt (Finite x) y = y"

text \<open>
  \<^verbatim>\<open>a + b\<close>: both operands are made primitive, the left one first; the result is the
  concatenation when either of them is then a string, and the sum otherwise.
\<close>

fun to_primitive_is_string :: "jv \<Rightarrow> bool" where
  "to_primitive_is_string (JStr s) = True"
| "to_primitive_is_string (JArr xs) = True"
| "to_primitive_is_string (JObj kvs) = True"
| "to_primitive_is_string v = False"

definition js_plus :: "runtime \<Rightarrow> jv \<Rightarrow> jv \<Rightarrow> js_error + jv" where
  "js_plus rt a b =
     (if to_primitive_throws a \<or> to_primitive_throws b then Inl TypeError
      else if to_primitive_is_string a \<or> to_primitive_is_string b
      then Inr (JStr (js_to_string rt a @ js_to_string rt b))
      else Inr (number_value (add_double rt (js_to_number rt a) (js_to_number rt b))))"

text \<open>
  \<^verbatim>\<open>xs.map(f)\<close> with a callback that may throw: the elements are visited in order and
  the first exception ends the call.
\<close>

fun mapM :: "('a \<Rightarrow> js_error + 'b) \<Rightarrow> 'a list \<Rightarrow> js_error + 'b list" where
  "mapM f [] = Inr []"
| "mapM f (x # xs) =
     (case f x of
        Inl e \<Rightarrow> Inl e
      | Inr y \<Rightarrow> (case mapM f xs of Inl e \<Rightarrow> Inl e | Inr ys \<Rightarrow> Inr (y # ys)))"

text \<open>
  \<^verbatim>\<open>xs.sort(cmp)\<close>. The language defines the result for a comparator that is
  consistent on the elements of the array: it returns a number for every pair of them,
  and the relations \<open>cmp(a, b) < 0\<close>, \<open>= 0\<close> and \<open>> 0\<close> that it induces are
  those of a total preorder (\<open>= 0\<close> is reflexive, symmetric and transitive, \<open>< 0\<close> and
  \<open>> 0\<close> are transitive). The result is then the stable sort: the elements in the
  order of the comparator, those that compare equal in the order of the input. For any
  other comparator the order of the result, and the calls of the comparator that may
  throw, are the engine's.
\<close>

definition comes_after :: "('a \<Rightarrow> 'a \<Rightarrow> js_error + int) \<Rightarrow> 'a \<Rightarrow> 'a \<Rightarrow> bool" where
  "comes_after cmp a b = (case cmp a b of Inl e \<Rightarrow> False | Inr n \<Rightarrow> 0 < n)"

definition comes_before :: "('a \<Rightarrow> 'a \<Rightarrow> js_error + int) \<Rightarrow> 'a \<Rightarrow> 'a \<Rightarrow> bool" where
  "comes_before cmp a b = (case cmp a b of Inl e \<Rightarrow> False | Inr n \<Rightarrow> n < 0)"

definition compares_equal :: "('a \<Rightarrow> 'a \<Rightarrow> js_error + int) \<Rightarrow> 'a \<Rightarrow> 'a \<Rightarrow> bool" where
  "compares_equal cmp a b = (case cmp a b of Inl e \<Rightarrow> False | Inr n \<Rightarrow> n = 0)"

definition consistent_comparator :: "('a \<Rightarrow> 'a \<Rightarrow> js_error + int) \<Rightarrow> 'a list \<Rightarrow> bool" where
  "consistent_comparator cmp xs =
     list_all (\<lambda>a. compares_equal cmp a a \<and>
       list_all (\<lambda>b. (case cmp a b of Inl e \<Rightarrow> False | Inr n \<Rightarrow> True) \<and>
         (compares_equal cmp a b \<longrightarrow> compares_equal cmp b a) \<and>
         list_all (\<lambda>c.
           (compares_equal cmp a b \<and> compares_equal cmp b c \<longrightarrow> compares_equal cmp a c) \<and>
           (comes_before cmp a b \<and> comes_before cmp b c \<longrightarrow> comes_before cmp a c) \<and>
           (comes_after cmp a b \<and> comes_after cmp b c \<longrightarrow> comes_after cmp a c)) xs) xs) xs"

text \<open>
  The stable sort, by insertion from the right: an element goes behind the elements
  that it comes after, and stays before the first one that it does not come after.
\<close>

fun insert_by :: "('a \<Rightarrow> 'a \<Rightarrow> js_error + int) \<Rightarrow> 'a \<Rightarrow> 'a list \<Rightarrow> 'a list" where
  "insert_by cmp x [] = [x]"
| "insert_by cmp x (y # ys) =
     (if comes_after cmp x y then y # insert_by cmp x ys else x # y # ys)"

definition stable_sort :: "('a \<Rightarrow> 'a \<Rightarrow> js_error + int) \<Rightarrow> 'a list \<Rightarrow> 'a list" where
  "stable_sort cmp xs = foldr (insert_by cmp) xs []"

definition js_sort ::
  "runtime \<Rightarrow> (jv \<Rightarrow> jv \<Rightarrow> js_error + int) \<Rightarrow> jv list \<Rightarrow> js_error + jv list" where
  "js_sort rt cmp xs =
     (if consistent_comparator cmp xs then Inr (stable_sort cmp xs) else engine_sort rt cmp xs)"

section \<open>normalizeProducts\<close>

text \<open>
  The reducer of \<^verbatim>\<open>color.sizes.reduce((total, size) => total + (size.stock || 0), 0)\<close>,
  run from the left over the sizes.
\<close>

fun sum_stock :: "runtime \<Rightarrow> jv \<Rightarrow> jv list \<Rightarrow> js_error + jv" where
  "sum_stock rt tot [] = Inr tot"
| "sum_stock rt tot (sz # sizes) =
     (if nullish sz then Inl TypeError
      else (case js_plus rt tot (js_or (field sz ''stock'') (JNum 0)) of
              Inl e \<Rightarrow> Inl e
            | Inr t \<Rightarrow> sum_stock rt t sizes))"

text \<open>
  \<^verbatim>\<open>color.sizes ? color.sizes.reduce(...) : (color.quantity || 0)\<close>: a truthy
  \<open>sizes\<close> that is not an array has no \<open>reduce\<close> method, and the call throws.
\<close>

definition color_quantity :: "runtime \<Rightarrow> jv \<Rightarrow> js_error + jv" where
  "color_quantity rt color =
     (if truthy (field color ''sizes'')
      then (case field color ''sizes'' of
              JArr sizes \<Rightarrow> sum_stock rt (JNum 0) sizes
            | _ \<Rightarrow> Inl TypeError)
      else Inr (js_or (field color ''quantity'') (JNum 0)))"

text \<open>The callback of \<^verbatim>\<open>product.colors.map\<close> (lines 79 to 84).\<close>

definition color_to_sabor :: "runtime \<Rightarrow> jv \<Rightarrow> js_error + jv" where
  "color_to_sabor rt color =
     (if nullish color then Inl TypeError
      else (case color_quantity rt color of
              Inl e \<Rightarrow> Inl e
            | Inr q \<Rightarrow> Inr (JObj
                [(''name'', js_or (field color ''name'') (JStr ''Sem nome'')),
                 (''image'', js_or (field color ''image'') (JStr ''https://via.placeholder.com/400x300'')),
                 (''quantity'', q),
                 (''description'', js_or (field color ''description'') (JStr []))])))"

text \<open>
  The comparator of the sort of the sabores (lines 91 to 101). It reads \<open>quantity\<close>
  from both entries, which throws for an entry that is \<open>null\<close> or \<open>undefined\<close>; it
  evaluates \<open>aStock > 0\<close> always and \<open>bStock > 0\<close> when \<open>aStock === 0\<close>, and either
  throws when the conversion of the stock throws.
\<close>

definition stock_of :: "jv \<Rightarrow> jv" where
  "stock_of a = js_or (field a ''quantity'') (JNum 0)"

definition compare_sabores :: "runtime \<Rightarrow> jv \<Rightarrow> jv \<Rightarrow> js_error + int" where
  "compare_sabores rt a b =
     (if nullish a \<or> nullish b then Inl TypeError
      else
        (let aStock = stock_of a; bStock = stock_of b in
         if to_primitive_throws aStock then Inl TypeError
         else if js_gt0 rt aStock \<and> bStock = JNum 0 then Inr (- 1)
         else if aStock = JNum 0 \<and> to_primitive_throws bStock then Inl TypeError
         else if aStock = JNum 0 \<and> js_gt0 rt bStock then Inr 1
         else Inr 0))"

text \<open>The callback of \<^verbatim>\<open>sortedSabores.map\<close> (lines 105 to 110).\<close>

definition fill_sabor :: "jv \<Rightarrow> js_error + jv" where
  "fill_sabor sabor =
     (if nullish sabor then Inl TypeError
      else Inr (JObj
        [(''name'', js_or (field sabor ''name'') (JStr ''Sem nome'')),
         (''image'', js_or (field sabor ''image'') (JStr ''https://via.placeholder.com/400x300'')),
         (''quantity'', js_or (field sabor ''quantity'') (JNum 0)),
         (''description'', js_or (field sabor ''description'') (JStr []))]))"

text \<open>The callback of \<^verbatim>\<open>products.map\<close> (lines 74 to 115).\<close>

definition normalizeProduct :: "runtime \<Rightarrow> jv \<Rightarrow> js_error + jv" where
  "normalizeProduct rt product =
     (if nullish product then Inl TypeError
      else if truthy (field product ''colors'') \<and> isArray (field product ''colors'')
      then (case field product ''colors'' of
              JArr colors \<Rightarrow>
                (case mapM (color_to_sabor rt) colors of
                   Inl e \<Rightarrow> Inl e
                 | Inr sabores \<Rightarrow> Inr (spread_with product ''sabores'' (JArr sabores)))
            | _ \<Rightarrow> Inr product)
      else if truthy (field product ''sabores'') \<and> isArray (field product ''sabores'')
      then (case field product ''sabores'' of
              JArr sabores \<Rightarrow>
                (case js_sort rt (compare_sabores rt) sabores of
                   Inl e \<Rightarrow> Inl e
                 | Inr sortedSabores \<Rightarrow>
                     (case mapM fill_sabor sortedSabores of
                        Inl e \<Rightarrow> Inl e
                      | Inr filled \<Rightarrow> Inr (spread_with product ''sabores'' (JArr filled))))
            | _ \<Rightarrow> Inr product)
      else Inr product)"

definition normalizeProducts :: "runtime \<Rightarrow> jv \<Rightarrow> js_error + jv list" where
  "normalizeProducts rt products =
     (case products of
        JArr ps \<Rightarrow> mapM (normalizeProduct rt) ps
      | _ \<Rightarrow> Inr [])"

subsection \<open>The data model of the specification\<close>

text \<open>
  A size of the legacy shape carries a \<open>stock\<close> that is a whole number, or none; its
  value is the number, and 0 when there is none.
\<close>

definition size_ok :: "jv \<Rightarrow> bool" where
  "size_ok sz =
     (\<not> nullish sz \<and>
      (case field sz ''stock'' of
         JNum n \<Rightarrow> of_int \<lfloor>n\<rfloor> = n | JUndef \<Rightarrow> True | JNull \<Rightarrow> True | _ \<Rightarrow> False))"

definition stock_number :: "jv \<Rightarrow> rat" where
  "stock_number sz = (case field sz ''stock'' of JNum n \<Rightarrow> n | _ \<Rightarrow> 0)"

text \<open>
  A color of the legacy shape: its \<open>sizes\<close>, when it has any, is an array of sizes
  whose stocks stay, summed in magnitude, within the integers that a double counts
  without a gap (up to \<open>2\<^sup>5\<^sup>3\<close>).
\<close>

definition color_ok :: "jv \<Rightarrow> bool" where
  "color_ok color =
     (\<not> nullish color \<and>
      (case field color ''sizes'' of
         JArr sizes \<Rightarrow>
           list_all size_ok sizes \<and> sum_list (map (\<lambda>sz. \<bar>stock_number sz\<bar>) sizes) \<le> 9007199254740992
       | v \<Rightarrow> \<not> truthy v))"

text \<open>
  What IEEE 754 gives every platform: a whole number up to \<open>2\<^sup>5\<^sup>3\<close> in magnitude is a
  double, so an arithmetic result of that exact value is not rounded.
\<close>

definition safe_integer :: "rat \<Rightarrow> bool" where
  "safe_integer q = (of_int \<lfloor>q\<rfloor> = q \<and> \<bar>q\<bar> \<le> 9007199254740992)"

definition exact_integers :: "runtime \<Rightarrow> bool" where
  "exact_integers rt = (\<forall>q. safe_integer q \<longrightarrow> round_double rt q = Finite q)"

text \<open>
  The quantity the specification gives a color: the sum of the stock of its sizes, or
  its own quantity (0 when it has none) when it has no sizes.
\<close>

definition spec_color_quantity :: "jv \<Rightarrow> jv" where
  "spec_color_quantity color =
     (case field color ''sizes'' of
        JArr sizes \<Rightarrow> JNum (sum_list (map stock_number sizes))
      | _ \<Rightarrow> (if truthy (field color ''quantity'') then field color ''quantity'' else JNum 0))"

text \<open>
  Availability of a sabor, as the comparator of the sort reads it: an entry is
  available when its stock is above 0, and sold out when its stock is 0 (which it is
  when the entry has no quantity, or one that is \<open>null\<close>, \<open>false\<close>, empty or NaN).
\<close>

definition available :: "runtime \<Rightarrow> jv \<Rightarrow> bool" where
  "available rt sabor = (\<not> nullish sabor \<and> js_gt0 rt (stock_of sabor))"

definition sold_out :: "jv \<Rightarrow> bool" where
  "sold_out sabor = (\<not> nullish sabor \<and> stock_of sabor = JNum 0)"

subsection \<open>A runtime and data for the examples\<close>

text \<open>
  A small platform for evaluating examples: decimal naturals, the exact arithmetic of
  the whole numbers up to \<open>2\<^sup>5\<^sup>3\<close>, upper case for the ASCII letters, rows in the
  order of the table, and an \<open>in\<close> filter that lists none of the stored values.
\<close>

definition ascii_upper :: "char \<Rightarrow> char" where
  "ascii_upper c =
     (let n = (of_char c :: nat) in
      if 97 \<le> n \<and> n \<le> 122 then ''ABCDEFGHIJKLMNOPQRSTUVWXYZ'' ! (n - 97) else c)"

fun digit_value :: "char \<Rightarrow> nat option" where
  "digit_value c =
     (let n = (of_char c :: nat) in if 48 \<le> n \<and> n \<le> 57 then Some (n - 48) else None)"

fun parse_digits :: "nat \<Rightarrow> string \<Rightarrow> nat option" where
  "parse_digits acc [] = Some acc"
| "parse_digits acc (c # cs) =
     (case digit_value c of None \<Rightarrow> None | Some d \<Rightarrow> parse_digits (10 * acc + d) cs)"

fun decimal :: "nat \<Rightarrow> string" where
  "decimal n =
     (if n < 10 then [''0123456789'' ! n] else decimal (n div 10) @ [''0123456789'' ! (n mod 10)])"

definition parse_natural :: "string \<Rightarrow> double" where
  "parse_natural s =
     (case parse_digits 0 s of None \<Rightarrow> NotANumber | Some n \<Rightarrow> Finite (of_nat n))"

definition example_runtime :: runtime where
  "example_runtime =
     \<lparr> number_to_string = (\<lambda>q. decimal (nat \<lfloor>q\<rfloor>)),
       string_to_number = parse_natural,
       parse_float = (\<lambda>s. if s = [] then NotANumber else parse_natural s),
       round_double = (\<lambda>q. if safe_integer q then Finite q else NotANumber),
       engine_sort = (\<lambda>cmp xs. Inr xs),
       to_upper_case = map ascii_upper,
       error_text = (\<lambda>e. ''TypeError''),
       buffer_from = (\<lambda>v. Inl TypeError),
       order_rows = (\<lambda>ord rs. rs),
       in_list = (\<lambda>txt v. False) \<rparr>"

definition sabor_entry :: "string \<Rightarrow> rat \<Rightarrow> jv" where
  "sabor_entry n q =
     JObj [(''name'', JStr n),
           (''image'', JStr ''https://via.placeholder.com/400x300''),
           (''quantity'', JNum q),
           (''description'', JStr [])]"

definition red_colors :: "jv list" where
  "red_colors =
     [JObj [(''name'', JStr ''Red''),
            (''sizes'', JArr [JObj [(''stock'', JNum 3)], JObj [(''stock'', JNum 2)]])]]"

definition red_product :: jv where
  "red_product = JObj [(''colors'', JArr red_colors)]"

definition legacy_colors :: "jv list" where
  "legacy_colors =
     [JObj [(''name'', JStr ''Limao''), (''quantity'', JNum 0)],
      JObj [(''name'', JStr ''Uva''), (''quantity'', JNum 5)]]"

definition legacy_product :: jv where
  "legacy_product = JObj [(''title'', JStr ''Suco''), (''colors'', JArr legacy_colors)]"

definition upgraded_product :: jv where
  "upgraded_product =
     JObj [(''title'', JStr ''Suco''), (''colors'', JArr legacy_colors),
           (''sabores'', JArr [sabor_entry ''Limao'' 0, sabor_entry ''Uva'' 5])]"

definition sabores_list :: "jv list" where
  "sabores_list =
     [JObj [(''name'', JStr ''Limao''), (''quantity'', JNum 0)],
      JObj [(''quantity'', JNum 5)],
      JObj [(''name'', JStr ''Caju'')],
      JObj [(''name'', JStr ''Uva''), (''quantity'', JNum 2)]]"

definition sabores_product :: jv where
  "sabores_product = JObj [(''title'', JStr ''Suco''), (''sabores'', JArr sabores_list)]"

section \<open>normalizeCategories\<close>

text \<open>
  \<^verbatim>\<open>s.charAt(0).toUpperCase() + s.slice(1)\<close>. The first UTF-16 unit of a string is
  its first character when that one takes up to three bytes in UTF-8, and half of the
  first character when it takes four; the upper case of such a half is the half itself,
  and the string is put together again as it was.
\<close>

definition utf8_width :: "char \<Rightarrow> nat" where
  "utf8_width c =
     (let n = (of_char c :: nat) in if n < 128 then 1 else if n < 224 then 2 else if n < 240 then 3 else 4)"

definition capitalize :: "runtime \<Rightarrow> string \<Rightarrow> string" where
  "capitalize rt s =
     (case s of
        [] \<Rightarrow> to_upper_case rt []
      | c # cs \<Rightarrow>
          if utf8_width c = 4 then s
          else to_upper_case rt (take (utf8_width c) s) @ drop (utf8_width c) s)"

text \<open>\<^verbatim>\<open>typeof v === 'object'\<close>\<close>

fun typeof_object :: "jv \<Rightarrow> bool" where
  "typeof_object JNull = True"
| "typeof_object (JArr xs) = True"
| "typeof_object (JObj kvs) = True"
| "typeof_object v = False"

text \<open>
  \<^verbatim>\<open>cat.name || cat.id.charAt(0).toUpperCase() + cat.id.slice(1)\<close>, where \<open>cat.id\<close>
  is truthy: only a string has the method \<open>charAt\<close>.
\<close>

definition category_name :: "runtime \<Rightarrow> jv \<Rightarrow> js_error + jv" where
  "category_name rt cat =
     (if truthy (field cat ''name'') then Inr (field cat ''name'')
      else (case field cat ''id'' of
              JStr s \<Rightarrow> Inr (JStr (capitalize rt s))
            | _ \<Rightarrow> Inl TypeError))"

text \<open>
  \<^verbatim>\<open>cat.description || `Categoria de ${cat.name || cat.id}`\<close>: the template is
  evaluated when the description is not truthy.
\<close>

definition category_description :: "runtime \<Rightarrow> jv \<Rightarrow> js_error + jv" where
  "category_description rt cat =
     (if truthy (field cat ''description'') then Inr (field cat ''description'')
      else if to_primitive_throws (js_or (field cat ''name'') (field cat ''id'')) then Inl TypeError
      else Inr (JStr (''Categoria de '' @
                   js_to_string rt (js_or (field cat ''name'') (field cat ''id'')))))"

text \<open>The callback of \<^verbatim>\<open>categories.map\<close> (lines 51 to 67).\<close>

definition normalizeCategory :: "runtime \<Rightarrow> jv \<Rightarrow> js_error + jv" where
  "normalizeCategory rt cat =
     (case cat of
        JStr s \<Rightarrow> Inr (JObj
          [(''id'', JStr s),
           (''name'', JStr (capitalize rt s)),
           (''description'', JStr (''Categoria de '' @ s))])
      | _ \<Rightarrow>
          if truthy cat \<and> typeof_object cat \<and> truthy (field cat ''id'')
          then (case category_name rt cat of
                  Inl e \<Rightarrow> Inl e
                | Inr n \<Rightarrow>
                    (case category_description rt cat of
                       Inl e \<Rightarrow> Inl e
                     | Inr d \<Rightarrow> Inr (JObj
                         [(''id'', field cat ''id''),
                          (''name'', n),
                          (''description'', d)])))
          else Inr JNull)"

definition normalizeCategories :: "runtime \<Rightarrow> jv \<Rightarrow> js_error + jv list" where
  "normalizeCategories rt categories =
     (case categories of
        JArr cs \<Rightarrow>
          (case mapM (normalizeCategory rt) cs of
             Inl e \<Rightarrow> Inl e
           | Inr xs \<Rightarrow> Inr (filter (\<lambda>cat. cat \<noteq> JNull) xs))
      | _ \<Rightarrow> Inr [])"

section \<open>normalizeOrders\<close>

text \<open>
  \<^verbatim>\<open>parseFloat(v)\<close> converts \<open>v\<close> to a string, which may throw, and parses the
  longest numeric prefix of it; the string form of a number parses back to that number.
\<close>

definition js_parseFloat :: "runtime \<Rightarrow> jv \<Rightarrow> js_error + jv" where
  "js_parseFloat rt v =
     (if to_primitive_throws v then Inl TypeError
      else Inr (case v of
                  JNum n \<Rightarrow> JNum n
                | JNaN \<Rightarrow> JNaN
                | JInf \<Rightarrow> JInf
                | JNegInf \<Rightarrow> JNegInf
                | _ \<Rightarrow> number_value (parse_float rt (js_to_string rt v))))"

text \<open>The callback of \<^verbatim>\<open>orders.map\<close> (lines 122 to 133).\<close>

definition normalizeOrder :: "runtime \<Rightarrow> jv \<Rightarrow> js_error + jv" where
  "normalizeOrder rt order =
     (if nullish order then Inl TypeError
      else (case js_parseFloat rt (field order ''total'') of
              Inl e \<Rightarrow> Inl e
            | Inr parsed \<Rightarrow> Inr (JObj
                [(''id'', field order ''id''),
                 (''date'', field order ''date''),
                 (''time'', field order ''time''),
                 (''customerName'', js_or (field order ''customer_name'') (field order ''customerName'')),
                 (''customerPhone'', js_or (field order ''customer_phone'') (field order ''customerPhone'')),
                 (''items'', if isArray (field order ''items'') then field order ''items'' else JArr []),
                 (''total'', js_or parsed (JNum 0)),
                 (''paymentMethod'', js_or (field order ''payment_method'') (field order ''paymentMethod'')),
                 (''status'', js_or (field order ''status'') (JStr ''pending'')),
                 (''createdAt'', js_or (field order ''created_at'') (field order ''createdAt''))])))"

definition normalizeOrders :: "runtime \<Rightarrow> jv \<Rightarrow> js_error + jv list" where
  "normalizeOrders rt orders =
     (case orders of
        JArr os \<Rightarrow> mapM (normalizeOrder rt) os
      | _ \<Rightarrow> Inr [])"

subsection \<open>The total of the specification, and orders for the examples\<close>

text \<open>
  The total the specification gives an order: the number that the total of the input
  is, or that its text parses to, and 0 when there is no such number.
\<close>

definition spec_total :: "runtime \<Rightarrow> jv \<Rightarrow> jv" where
  "spec_total rt v =
     (case v of
        JNum n \<Rightarrow> JNum n
      | JInf \<Rightarrow> JInf
      | JNegInf \<Rightarrow> JNegInf
      | JNaN \<Rightarrow> JNum 0
      | _ \<Rightarrow> (case parse_float rt (js_to_string rt v) of
                Finite q \<Rightarrow> JNum q
              | PosInf \<Rightarrow> JInf
              | NegInf \<Rightarrow> JNegInf
              | NotANumber \<Rightarrow> JNum 0))"

fun is_number :: "jv \<Rightarrow> bool" where
  "is_number (JNum n) = True"
| "is_number JInf = True"
| "is_number JNegInf = True"
| "is_number v = False"

definition stored_order :: jv where
  "stored_order =
     JObj [(''id'', JNum 7), (''date'', JStr ''2024-05-01''), (''time'', JStr ''20:15''),
           (''customer_name'', JStr ''Ana''), (''customerName'', JStr ''Bia''),
           (''customer_phone'', JStr ''5511''), (''items'', JNull),
           (''total'', JStr ''abc''), (''payment_method'', JStr ''pix''),
           (''created_at'', JStr ''2024-05-01T20:15:00Z'')]"

definition counter_order :: jv where
  "counter_order =
     JObj [(''id'', JNum 8), (''customerName'', JStr ''Caio''),
           (''items'', JArr [JStr ''suco'']), (''total'', JNum 12), (''status'', JStr ''paid'')]"

definition phone_order :: jv where
  "phone_order = JObj [(''id'', JNum 9), (''customer_name'', JStr ''Davi''), (''total'', JStr ''42'')]"

definition external_shape :: "jv \<Rightarrow> jv \<Rightarrow> jv \<Rightarrow> jv \<Rightarrow> jv \<Rightarrow> jv \<Rightarrow> jv \<Rightarrow> jv \<Rightarrow> jv \<Rightarrow> jv \<Rightarrow> jv" where
  "external_shape i d t name phone items tot payment st created =
     JObj [(''id'', i), (''date'', d), (''time'', t), (''customerName'', name),
           (''customerPhone'', phone), (''items'', items), (''total'', tot),
           (''paymentMethod'', payment), (''status'', st), (''createdAt'', created)]"

text \<open>An order whose snake_case name is present and empty.\<close>

definition renamed_order :: jv where
  "renamed_order =
     JObj [(''id'', JNum 10), (''customer_name'', JStr []), (''customerName'', JStr ''Bia''),
           (''total'', JNum 30)]"

section \<open>Authentication helpers\<close>

text \<open>\<^verbatim>\<open>s.includes(sub)\<close>\<close>

fun js_includes :: "string \<Rightarrow> string \<Rightarrow> bool" where
  "js_includes [] sub = (sub = [])"
| "js_includes (c # cs) sub = (take (length sub) (c # cs) = sub \<or> js_includes cs sub)"

text \<open>\<^verbatim>\<open>s.replace(pat, "")\<close> with a string pattern: the first occurrence goes.\<close>

fun remove_first :: "string \<Rightarrow> string \<Rightarrow> string" where
  "remove_first pat [] = []"
| "remove_first pat (c # cs) =
     (if take (length pat) (c # cs) = pat then drop (length pat) (c # cs)
      else c # remove_first pat cs)"

definition checkAuth :: "string \<Rightarrow> bool" where
  "checkAuth token = (token = ''authenticated_admin_token'')"

text \<open>
  \<^verbatim>\<open>a === b\<close> for values of different origin (one from the request, one from the
  store): two objects or arrays are never the same object, and NaN equals nothing.
\<close>

fun is_primitive :: "jv \<Rightarrow> bool" where
  "is_primitive (JArr xs) = False"
| "is_primitive (JObj kvs) = False"
| "is_primitive JNaN = False"
| "is_primitive v = True"

definition js_strict_eq :: "jv \<Rightarrow> jv \<Rightarrow> bool" where
  "js_strict_eq a b = (a = b \<and> is_primitive a)"

definition base64_alphabet :: string where
  "base64_alphabet = ''ABCDEFGHIJKLMNOPQRSTUVWXYZabcdefghijklmnopqrstuvwxyz0123456789+/''"

definition base64_digit :: "nat \<Rightarrow> char" where
  "base64_digit n = base64_alphabet ! (n mod 64)"

text \<open>\<^verbatim>\<open>buffer.toString('base64')\<close> of the bytes of a buffer.\<close>

fun base64 :: "string \<Rightarrow> string" where
  "base64 [] = []"
| "base64 [a] =
     (let x = (of_char a :: nat) in
      [base64_digit (x div 4), base64_digit ((x mod 4) * 16), CHR ''='', CHR ''=''])"
| "base64 [a, b] =
     (let x = (of_char a :: nat); y = (of_char b :: nat) in
      [base64_digit (x div 4), base64_digit ((x mod 4) * 16 + y div 16),
       base64_digit ((y mod 16) * 4), CHR ''=''])"
| "base64 (a # b # c # rest) =
     (let x = (of_char a :: nat); y = (of_char b :: nat); z = (of_char c :: nat) in
      [base64_digit (x div 4), base64_digit ((x mod 4) * 16 + y div 16),
       base64_digit ((y mod 16) * 4 + z div 64), base64_digit (z mod 64)] @ base64 rest)"

text \<open>
  \<^verbatim>\<open>Buffer.from(text).toString('base64').split('').reverse().join('')\<close>. The bytes
  of a string are those of its UTF-8 encoding; what \<open>Buffer.from\<close> does with another
  value, throwing included, is the platform's.
\<close>

definition simpleEncrypt :: "runtime \<Rightarrow> jv \<Rightarrow> js_error + string" where
  "simpleEncrypt rt text =
     (case text of
        JStr s \<Rightarrow> Inr (rev (base64 s))
      | v \<Rightarrow> (case buffer_from rt v of Inl e \<Rightarrow> Inl e | Inr bytes \<Rightarrow> Inr (rev (base64 bytes))))"

section \<open>The table store\<close>

text \<open>
  The store is the external collaborator of the handlers. A world is the rows of each
  table, the number of identifiers the store has assigned, the clock, and the outcome
  the store will give the coming calls: a call either fails with an error and changes
  nothing, or takes effect on the rows.
\<close>

record store_error =
  err_message :: string
  err_code :: string

record world =
  rows :: "string \<Rightarrow> jv list"
  assigned :: nat
  faults :: "store_error option list"
  clock :: string

definition next_fault :: "world \<Rightarrow> store_error option \<times> world" where
  "next_fault w = (case faults w of [] \<Rightarrow> (None, w) | f # fs \<Rightarrow> (f, w\<lparr>faults := fs\<rparr>))"

text \<open>What a value is after the trip through JSON to the store.\<close>

fun to_json :: "jv \<Rightarrow> jv"
  and to_json_list :: "jv list \<Rightarrow> jv list"
  and to_json_props :: "(string \<times> jv) list \<Rightarrow> (string \<times> jv) list" where
  "to_json (JArr xs) = JArr (to_json_list xs)"
| "to_json (JObj kvs) = JObj (to_json_props kvs)"
| "to_json JNaN = JNull"
| "to_json JInf = JNull"
| "to_json JNegInf = JNull"
| "to_json JUndef = JUndef"
| "to_json JNull = JNull"
| "to_json (JBool b) = JBool b"
| "to_json (JNum n) = JNum n"
| "to_json (JStr s) = JStr s"
| "to_json_list [] = []"
| "to_json_list (x # xs) = (if x = JUndef then JNull else to_json x) # to_json_list xs"
| "to_json_props [] = []"
| "to_json_props (kv # kvs) =
     (if snd kv = JUndef then to_json_props kvs else (fst kv, to_json (snd kv)) # to_json_props kvs)"

text \<open>
  The client of the store, which is not part of this source, sends the value of a
  filter as text, so a column matches \<open>eq\<close> when it is not null and reads as the same
  text, and \<open>neq\<close> when it is not null and reads as another text.
\<close>

definition filter_eq :: "runtime \<Rightarrow> jv \<Rightarrow> jv \<Rightarrow> bool" where
  "filter_eq rt v x = (\<not> nullish x \<and> js_to_string rt x = js_to_string rt v)"

definition filter_neq :: "runtime \<Rightarrow> jv \<Rightarrow> jv \<Rightarrow> bool" where
  "filter_neq rt v x = (\<not> nullish x \<and> js_to_string rt x \<noteq> js_to_string rt v)"

definition store_select ::
  "string \<Rightarrow> (jv \<Rightarrow> bool) \<Rightarrow> world \<Rightarrow> (store_error + jv list) \<times> world" where
  "store_select tbl p w =
     (case next_fault w of
        (Some e, w') \<Rightarrow> (Inl e, w')
      | (None, w') \<Rightarrow> (Inr (filter p (rows w' tbl)), w'))"

definition store_select_ordered ::
  "runtime \<Rightarrow> string \<Rightarrow> string \<Rightarrow> world \<Rightarrow> (store_error + jv list) \<times> world" where
  "store_select_ordered rt tbl ord w =
     (case next_fault w of
        (Some e, w') \<Rightarrow> (Inl e, w')
      | (None, w') \<Rightarrow> (Inr (order_rows rt ord (rows w' tbl)), w'))"

text \<open>\<^verbatim>\<open>.single()\<close>: an error of code PGRST116 unless exactly one row matches.\<close>

definition store_single ::
  "string \<Rightarrow> (jv \<Rightarrow> bool) \<Rightarrow> world \<Rightarrow> (store_error + jv) \<times> world" where
  "store_single tbl p w =
     (case next_fault w of
        (Some e, w') \<Rightarrow> (Inl e, w')
      | (None, w') \<Rightarrow>
          (case filter p (rows w' tbl) of
             [r] \<Rightarrow> (Inr r, w')
           | _ \<Rightarrow> (Inl \<lparr>err_message = ''JSON object requested, multiple (or no) rows returned'',
                        err_code = ''PGRST116''\<rparr>, w')))"

fun assign_ids :: "nat \<Rightarrow> jv list \<Rightarrow> jv list" where
  "assign_ids n [] = []"
| "assign_ids n (r # rs) =
     JObj (AList.update ''id'' (JNum (of_nat (Suc n))) (own_props r)) # assign_ids (Suc n) rs"

definition store_insert ::
  "string \<Rightarrow> jv list \<Rightarrow> world \<Rightarrow> (store_error + jv list) \<times> world" where
  "store_insert tbl new w =
     (case next_fault w of
        (Some e, w') \<Rightarrow> (Inl e, w')
      | (None, w') \<Rightarrow>
          (let stored = assign_ids (assigned w') (map to_json new) in
           (Inr stored,
            w'\<lparr>rows := (rows w')(tbl := rows w' tbl @ stored),
               assigned := assigned w' + length new\<rparr>)))"

text \<open>The row \<open>r\<close> with the columns of \<open>changes\<close> set.\<close>

definition set_props :: "jv \<Rightarrow> jv \<Rightarrow> jv" where
  "set_props changes r =
     JObj (foldl (\<lambda>al kv. AList.update (fst kv) (snd kv) al) (own_props r) (own_props changes))"

definition store_update ::
  "string \<Rightarrow> (jv \<Rightarrow> bool) \<Rightarrow> jv \<Rightarrow> world \<Rightarrow> store_error option \<times> world" where
  "store_update tbl p changes w =
     (case next_fault w of
        (Some e, w') \<Rightarrow> (Some e, w')
      | (None, w') \<Rightarrow>
          (None, w'\<lparr>rows := (rows w')(tbl :=
                     map (\<lambda>r. if p r then set_props (to_json changes) r else r) (rows w' tbl))\<rparr>))"

definition store_delete ::
  "string \<Rightarrow> (jv \<Rightarrow> bool) \<Rightarrow> world \<Rightarrow> store_error option \<times> world" where
  "store_delete tbl p w =
     (case next_fault w of
        (Some e, w') \<Rightarrow> (Some e, w')
      | (None, w') \<Rightarrow>
          (None, w'\<lparr>rows := (rows w')(tbl := filter (\<lambda>r. \<not> p r) (rows w' tbl))\<rparr>))"

text \<open>\<^verbatim>\<open>upsert(rows, { onConflict: 'id' })\<close>: a row whose id is stored is updated, another is added.\<close>

definition upsert_row :: "runtime \<Rightarrow> jv list \<Rightarrow> jv \<Rightarrow> jv list" where
  "upsert_row rt rs n =
     (if list_ex (\<lambda>r. filter_eq rt (field n ''id'') (field r ''id'')) rs
      then map (\<lambda>r. if filter_eq rt (field n ''id'') (field r ''id'') then set_props n r else r) rs
      else rs @ [n])"

definition store_upsert ::
  "runtime \<Rightarrow> string \<Rightarrow> jv list \<Rightarrow> world \<Rightarrow> store_error option \<times> world" where
  "store_upsert rt tbl new w =
     (case next_fault w of
        (Some e, w') \<Rightarrow> (Some e, w')
      | (None, w') \<Rightarrow>
          (None, w'\<lparr>rows := (rows w')(tbl := foldl (upsert_row rt) (rows w' tbl) (map to_json new))\<rparr>))"

section \<open>The handlers\<close>

record request =
  authorization :: "string option"
  req_body :: jv

record response =
  http_status :: nat
  payload :: jv

definition respond :: "nat \<Rightarrow> jv \<Rightarrow> response" where
  "respond st b = \<lparr>http_status = st, payload = b\<rparr>"

definition error_body :: "string \<Rightarrow> jv" where
  "error_body msg = JObj [(''error'', JStr msg)]"

definition success_body :: "string \<Rightarrow> jv" where
  "success_body msg = JObj [(''success'', JBool True), (''message'', JStr msg)]"

text \<open>
  \<^verbatim>\<open>!authHeader || !checkAuth(authHeader.replace("Bearer ", ""))\<close> is the refusal.
\<close>

definition authorized :: "request \<Rightarrow> bool" where
  "authorized req =
     (case authorization req of
        None \<Rightarrow> False
      | Some h \<Rightarrow> h \<noteq> [] \<and> checkAuth (remove_first ''Bearer '' h))"

text \<open>The letters of the messages that are not ASCII, in UTF-8.\<close>

definition a_acute :: string where "a_acute = [CHR 0xC3, CHR 0xA1]"
definition a_tilde :: string where "a_tilde = [CHR 0xC3, CHR 0xA3]"
definition c_cedilla :: string where "c_cedilla = [CHR 0xC3, CHR 0xA7]"
definition e_acute :: string where "e_acute = [CHR 0xC3, CHR 0xA9]"
definition i_acute :: string where "i_acute = [CHR 0xC3, CHR 0xAD]"
definition o_acute :: string where "o_acute = [CHR 0xC3, CHR 0xB3]"
definition beer_emoji :: string where "beer_emoji = [CHR 0xF0, CHR 0x9F, CHR 0x8D, CHR 0xBA]"
definition fries_emoji :: string where "fries_emoji = [CHR 0xF0, CHR 0x9F, CHR 0x8D, CHR 0x9F]"

text \<open>
  The answer of the \<open>catch\<close> of a handler to an exception of the language: status 500
  and the message of the exception after the prefix of the handler.
\<close>

definition thrown :: "runtime \<Rightarrow> string \<Rightarrow> js_error \<Rightarrow> response" where
  "thrown rt prefix e = respond 500 (error_body (prefix @ error_text rt e))"

text \<open>
  \<^verbatim>\<open>`${v?.length || 0}`\<close> in a message for the log: the length of an array or of a
  string is a number; an object has the length that it carries as a property, and the
  template throws when that one is truthy and its conversion throws.
\<close>

definition length_text_throws :: "jv \<Rightarrow> bool" where
  "length_text_throws v =
     (case v of
        JObj kvs \<Rightarrow> truthy (field v ''length'') \<and> to_primitive_throws (field v ''length'')
      | _ \<Rightarrow> False)"

definition nao_autorizado :: response where
  "nao_autorizado = respond 401 (error_body (''N'' @ a_tilde @ ''o autorizado''))"

definition credenciais_invalidas :: response where
  "credenciais_invalidas = respond 401 (error_body (''Credenciais inv'' @ a_acute @ ''lidas''))"

subsection \<open>GET /api/products, /api/categories, /api/orders\<close>

definition placeholder_beer :: string where
  "placeholder_beer = ''https://via.placeholder.com/400x300/8B4513/FFFFFF?text='' @ beer_emoji"

definition placeholder_fries :: string where
  "placeholder_fries = ''https://via.placeholder.com/400x300/8B4513/FFFFFF?text='' @ fries_emoji"

definition porcao :: string where
  "porcao = ''Por'' @ c_cedilla @ a_tilde @ ''o''"

text \<open>The example products returned when the table does not exist (lines 215 to 250).\<close>

definition produtosExemplo_missing :: "jv list" where
  "produtosExemplo_missing =
     [JObj [(''id'', JNum 1), (''title'', JStr ''Cerveja Heineken''),
            (''category'', JStr ''cerveja''), (''price'', JNum 12),
            (''description'', JStr ''Cerveja premium importada''),
            (''sabores'', JArr [JObj [(''name'', JStr ''Long Neck''),
                                     (''image'', JStr placeholder_beer),
                                     (''quantity'', JNum 50),
                                     (''description'', JStr ''Garrafa 330ml'')]]),
            (''status'', JStr ''active''), (''display_order'', JNum 1)],
      JObj [(''id'', JNum 2), (''title'', JStr (porcao @ '' de Batata Frita'')),
            (''category'', JStr ''petisco''), (''price'', JNum 25),
            (''description'', JStr (porcao @ '' de batata frita crocante'')),
            (''sabores'', JArr [JObj [(''name'', JStr (''M'' @ e_acute @ ''dia'')),
                                     (''image'', JStr placeholder_fries),
                                     (''quantity'', JNum 20),
                                     (''description'', JStr (porcao @ '' para 2 pessoas''))]]),
            (''status'', JStr ''active''), (''display_order'', JNum 2)]]"

text \<open>The example product returned when the table is empty (lines 262 to 280).\<close>

definition produtosExemplo_empty :: "jv list" where
  "produtosExemplo_empty =
     [JObj [(''id'', JNum 1), (''title'', JStr ''Cerveja de Teste''),
            (''category'', JStr ''cerveja''), (''price'', JNum 10),
            (''description'', JStr ''Cerveja de exemplo para teste''),
            (''sabores'', JArr [JObj [(''name'', JStr ''Long Neck''),
                                     (''image'', JStr placeholder_beer),
                                     (''quantity'', JNum 10),
                                     (''description'', JStr ''Garrafa de teste'')]]),
            (''status'', JStr ''active''), (''display_order'', JNum 1)]]"

definition categoriasExemplo_missing :: "jv list" where
  "categoriasExemplo_missing =
     [JObj [(''id'', JStr ''cerveja''), (''name'', JStr ''Cervejas''),
            (''description'', JStr ''Cervejas de diversos tipos e marcas'')],
      JObj [(''id'', JStr ''refrigerante''), (''name'', JStr ''Refrigerantes''),
            (''description'', JStr (''Refrigerantes e bebidas n'' @ a_tilde @ ''o alco'' @ o_acute @ ''licas''))],
      JObj [(''id'', JStr ''petisco''), (''name'', JStr ''Petiscos''),
            (''description'', JStr ''Petiscos e acompanhamentos'')]]"

definition categoriasExemplo_empty :: "jv list" where
  "categoriasExemplo_empty =
     [JObj [(''id'', JStr ''cerveja''), (''name'', JStr ''Cervejas''),
            (''description'', JStr ''Cervejas diversas'')]]"

text \<open>GET /api/products (lines 199 to 291).\<close>

definition get_products :: "runtime \<Rightarrow> world \<Rightarrow> response \<times> world" where
  "get_products rt w =
     (case store_select_ordered rt ''products'' ''display_order.asc.nullslast,id.asc'' w of
        (Inl e, w1) \<Rightarrow>
          if js_includes (err_message e) ''does not exist''
          then (respond 200 (JObj [(''products'', JArr produtosExemplo_missing)]), w1)
          else (respond 200 (JObj [(''products'', JArr [])]), w1)
      | (Inr products, w1) \<Rightarrow>
          if products = []
          then (respond 200 (JObj [(''products'', JArr produtosExemplo_empty)]), w1)
          else (case normalizeProducts rt (JArr products) of
                  Inl e \<Rightarrow> (respond 200 (JObj [(''products'', JArr [])]), w1)
                | Inr normalizedProducts \<Rightarrow>
                    (respond 200 (JObj [(''products'', JArr normalizedProducts)]), w1)))"

text \<open>GET /api/categories (lines 294 to 354).\<close>

definition get_categories :: "runtime \<Rightarrow> world \<Rightarrow> response \<times> world" where
  "get_categories rt w =
     (case store_select_ordered rt ''categories'' ''name.asc'' w of
        (Inl e, w1) \<Rightarrow>
          if js_includes (err_message e) ''does not exist''
          then (respond 200 (JObj [(''categories'', JArr categoriasExemplo_missing)]), w1)
          else (respond 200 (JObj [(''categories'', JArr [])]), w1)
      | (Inr categories, w1) \<Rightarrow>
          if categories = []
          then (respond 200 (JObj [(''categories'', JArr categoriasExemplo_empty)]), w1)
          else (case normalizeCategories rt (JArr categories) of
                  Inl e \<Rightarrow> (respond 200 (JObj [(''categories'', JArr [])]), w1)
                | Inr normalizedCategories \<Rightarrow>
                    (respond 200 (JObj [(''categories'', JArr normalizedCategories)]), w1)))"

text \<open>GET /api/orders (lines 357 to 387).\<close>

definition get_orders :: "runtime \<Rightarrow> world \<Rightarrow> response \<times> world" where
  "get_orders rt w =
     (case store_select_ordered rt ''orders'' ''created_at.desc'' w of
        (Inl e, w1) \<Rightarrow>
          if js_includes (err_message e) ''does not exist''
          then (respond 200 (JObj [(''orders'', JArr [])]), w1)
          else (respond 200 (JObj [(''orders'', JArr [])]), w1)
      | (Inr orders, w1) \<Rightarrow>
          (case normalizeOrders rt (JArr orders) of
             Inl e \<Rightarrow> (respond 200 (JObj [(''orders'', JArr [])]), w1)
           | Inr normalizedOrders \<Rightarrow>
               (respond 200 (JObj [(''orders'', JArr normalizedOrders)]), w1)))"

subsection \<open>POST /api/orders and /api/orders/update-status\<close>

text \<open>POST /api/orders (lines 390 to 430).\<close>

definition post_orders :: "runtime \<Rightarrow> request \<Rightarrow> world \<Rightarrow> response \<times> world" where
  "post_orders rt req w =
     (let orderData = field (req_body req) ''orderData'' in
      if \<not> truthy orderData \<or> \<not> truthy (field orderData ''customerName'')
      then (respond 400 (error_body (''Dados do pedido inv'' @ a_acute @ ''lidos'')), w)
      else
        (let orderToSave = JObj
               [(''date'', field orderData ''date''),
                (''time'', field orderData ''time''),
                (''customer_name'', field orderData ''customerName''),
                (''customer_phone'', field orderData ''customerPhone''),
                (''items'', if isArray (field orderData ''items'') then field orderData ''items''
                            else JArr []),
                (''total'', js_or (field orderData ''total'') (JNum 0)),
                (''payment_method'', field orderData ''paymentMethod''),
                (''status'', js_or (field orderData ''status'') (JStr ''pending''))]
         in case store_insert ''orders'' [orderToSave] w of
              (Inl e, w1) \<Rightarrow>
                (respond 500 (error_body (''Erro ao salvar pedido: '' @ err_message e)), w1)
            | (Inr stored, w1) \<Rightarrow>
                (case stored of
                   [] \<Rightarrow> (thrown rt ''Erro ao salvar pedido: '' TypeError, w1)
                 | r # rs \<Rightarrow>
                     (respond 200 (JObj [(''success'', JBool True),
                                         (''message'', JStr ''Pedido registrado''),
                                         (''orderId'', field r ''id'')]), w1))))"

text \<open>
  POST /api/orders/update-status (lines 433 to 463). The message for the log of line
  437 converts the order id and the status to text before anything else.
\<close>

definition post_orders_update_status :: "runtime \<Rightarrow> request \<Rightarrow> world \<Rightarrow> response \<times> world" where
  "post_orders_update_status rt req w =
     (let orderId = field (req_body req) ''orderId''; st = field (req_body req) ''status'' in
      if to_primitive_throws orderId \<or> to_primitive_throws st
      then (thrown rt ''Erro ao atualizar status do pedido: '' TypeError, w)
      else if \<not> truthy orderId \<or> \<not> truthy st
      then (respond 400 (error_body (''ID do pedido e status s'' @ a_tilde @ ''o obrigat'' @ o_acute @ ''rios'')), w)
      else
        (case store_update ''orders'' (\<lambda>r. filter_eq rt orderId (field r ''id''))
                (JObj [(''status'', st), (''updated_at'', JStr (clock w))]) w of
           (Some e, w1) \<Rightarrow>
             (respond 500 (error_body (''Erro ao atualizar status do pedido: '' @ err_message e)), w1)
         | (None, w1) \<Rightarrow>
             (respond 200 (success_body (''Status do pedido atualizado para '' @ js_to_string rt st)), w1)))"

subsection \<open>POST /api/auth/login\<close>

definition login_success :: "jv \<Rightarrow> response" where
  "login_success username =
     respond 200 (JObj [(''success'', JBool True),
                        (''token'', JStr ''authenticated_admin_token''),
                        (''user'', JObj [(''username'', username)])])"

text \<open>POST /api/auth/login (lines 466 to 534).\<close>

definition post_auth_login :: "runtime \<Rightarrow> request \<Rightarrow> world \<Rightarrow> response \<times> world" where
  "post_auth_login rt req w =
     (let username = field (req_body req) ''username'';
          password = field (req_body req) ''password'' in
      if \<not> truthy username \<or> \<not> truthy password
      then (respond 400 (error_body (''Usu'' @ a_acute @ ''rio e senha s'' @ a_tilde @ ''o obrigat'' @ o_acute @ ''rios'')), w)
      else
        (case store_single ''admin_credentials'' (\<lambda>r. filter_eq rt username (field r ''username'')) w of
           (Inl e, w1) \<Rightarrow>
             if js_includes (err_message e) ''does not exist'' \<or> err_code e = ''PGRST116''
             then (if username = JStr ''admin'' \<and> password = JStr ''admin123''
                   then (login_success (JStr ''admin''), w1)
                   else (credenciais_invalidas, w1))
             else (respond 401 (error_body ''Erro no sistema''), w1)
         | (Inr credentials, w1) \<Rightarrow>
             if \<not> truthy credentials then (credenciais_invalidas, w1)
             else
               (let isPlainPasswordValid = js_strict_eq password (field credentials ''password'') in
                case simpleEncrypt rt password of
                  Inl e \<Rightarrow> (respond 500 (error_body ''Erro no processo de login''), w1)
                | Inr encryptedInput \<Rightarrow>
                    (let isPasswordValid =
                           js_strict_eq (JStr encryptedInput) (field credentials ''encrypted_password'')
                     in if isPasswordValid \<or> isPlainPasswordValid
                        then (login_success username, w1)
                        else (credenciais_invalidas, w1)))))"

subsection \<open>POST /api/products\<close>

text \<open>The callback of \<^verbatim>\<open>normalizedProducts.map\<close> (lines 576 to 584).\<close>

definition product_row :: "jv \<Rightarrow> jv" where
  "product_row product = JObj
     [(''title'', field product ''title''),
      (''category'', field product ''category''),
      (''price'', field product ''price''),
      (''description'', field product ''description''),
      (''status'', field product ''status''),
      (''sabores'', field product ''sabores''),
      (''display_order'', js_or (field product ''display_order'') (JNum 0))]"

text \<open>
  POST /api/products (lines 553 to 602). The message for the log of line 561 carries
  the length of the products.
\<close>

definition post_products :: "runtime \<Rightarrow> request \<Rightarrow> world \<Rightarrow> response \<times> world" where
  "post_products rt req w =
     (if \<not> authorized req then (nao_autorizado, w)
      else if length_text_throws (field (req_body req) ''products'')
      then (thrown rt ''Erro ao salvar produtos: '' TypeError, w)
      else
        (case normalizeProducts rt (field (req_body req) ''products'') of
           Inl e \<Rightarrow> (thrown rt ''Erro ao salvar produtos: '' e, w)
         | Inr normalizedProducts \<Rightarrow>
             (case store_delete ''products'' (\<lambda>r. filter_neq rt (JNum 0) (field r ''id'')) w of
                (Some e, w1) \<Rightarrow>
                  (respond 500 (error_body (''Erro ao salvar produtos: '' @ err_message e)), w1)
              | (None, w1) \<Rightarrow>
                  (let saved = respond 200 (success_body
                         (js_to_string rt (JNum (of_nat (length normalizedProducts))) @ '' produtos salvos''))
                   in if normalizedProducts \<noteq> []
                      then (case store_insert ''products'' (map product_row normalizedProducts) w1 of
                              (Inl e, w2) \<Rightarrow>
                                (respond 500 (error_body (''Erro ao salvar produtos: '' @ err_message e)), w2)
                            | (Inr stored, w2) \<Rightarrow> (saved, w2))
                      else (saved, w1)))))"

subsection \<open>POST /api/categories/add, /api/categories/delete, /api/categories\<close>

text \<open>
  POST /api/categories/add (lines 605 to 642). The message for the log of line 618
  converts the name and the id of the category to text before the store is called.
\<close>

definition post_categories_add :: "runtime \<Rightarrow> request \<Rightarrow> world \<Rightarrow> response \<times> world" where
  "post_categories_add rt req w =
     (if \<not> authorized req then (nao_autorizado, w)
      else
        (let category = field (req_body req) ''category'' in
         if \<not> truthy category \<or> \<not> truthy (field category ''id'') \<or> \<not> truthy (field category ''name'')
         then (respond 400 (error_body (''Dados da categoria inv'' @ a_acute @ ''lidos'')), w)
         else if to_primitive_throws (field category ''name'') \<or> to_primitive_throws (field category ''id'')
         then (thrown rt ''Erro ao adicionar categoria: '' TypeError, w)
         else
           (case store_upsert rt ''categories''
                   [JObj [(''id'', field category ''id''),
                          (''name'', field category ''name''),
                          (''description'',
                             js_or (field category ''description'')
                               (JStr (''Categoria de '' @ js_to_string rt (field category ''name''))))]] w of
              (Some e, w1) \<Rightarrow>
                (respond 500 (error_body (''Erro ao adicionar categoria: '' @ err_message e)), w1)
            | (None, w1) \<Rightarrow>
                (respond 200 (success_body
                   (''Categoria '' @ [CHR 0x22] @ js_to_string rt (field category ''name'') @ [CHR 0x22]
                    @ '' adicionada'')), w1))))"

text \<open>
  POST /api/categories/delete (lines 645 to 708). The message for the log of line 658
  converts the category id to text before the store is called.
\<close>

definition post_categories_delete :: "runtime \<Rightarrow> request \<Rightarrow> world \<Rightarrow> response \<times> world" where
  "post_categories_delete rt req w =
     (if \<not> authorized req then (nao_autorizado, w)
      else
        (let categoryId = field (req_body req) ''categoryId'' in
         if \<not> truthy categoryId
         then (respond 400 (error_body (''ID da categoria '' @ e_acute @ '' obrigat'' @ o_acute @ ''rio'')), w)
         else if to_primitive_throws categoryId
         then (thrown rt ''Erro ao excluir categoria: '' TypeError, w)
         else
           (case store_select ''products'' (\<lambda>r. filter_eq rt categoryId (field r ''category'')) w of
              (Inl e, w1) \<Rightarrow>
                (respond 500 (error_body (''Erro ao excluir categoria: '' @ err_message e)), w1)
            | (Inr productsInCategory, w1) \<Rightarrow>
                (case (if productsInCategory \<noteq> []
                       then store_update ''products'' (\<lambda>r. filter_eq rt categoryId (field r ''category''))
                              (JObj [(''category'', JStr ''default'')]) w1
                       else (None, w1)) of
                   (Some e, w2) \<Rightarrow>
                     (respond 500 (error_body (''Erro ao excluir categoria: '' @ err_message e)), w2)
                 | (None, w2) \<Rightarrow>
                     (case store_delete ''categories'' (\<lambda>r. filter_eq rt categoryId (field r ''id'')) w2 of
                        (Some e, w3) \<Rightarrow>
                          (respond 500 (error_body (''Erro ao excluir categoria: '' @ err_message e)), w3)
                      | (None, w3) \<Rightarrow>
                          (respond 200 (success_body
                             (''Categoria exclu'' @ i_acute @ ''da com sucesso! ''
                              @ js_to_string rt (JNum (of_nat (length productsInCategory)))
                              @ '' produtos foram movidos para categoria padr'' @ a_tilde @ ''o.'')), w3))))))"

text \<open>The text of the filter of line 732, for ids whose conversion does not throw.\<close>

definition not_in_filter :: "runtime \<Rightarrow> jv list \<Rightarrow> string" where
  "not_in_filter rt categoryIds =
     ''('' @ join_comma (map (\<lambda>i. [CHR 0x27] @ js_to_string rt i @ [CHR 0x27]) categoryIds) @ '')''"

text \<open>
  POST /api/categories (lines 711 to 762). The message for the log of line 719 carries
  the length of the categories, and the filter of line 732 converts every id to text.
\<close>

definition post_categories :: "runtime \<Rightarrow> request \<Rightarrow> world \<Rightarrow> response \<times> world" where
  "post_categories rt req w =
     (if \<not> authorized req then (nao_autorizado, w)
      else if length_text_throws (field (req_body req) ''categories'')
      then (thrown rt ''Erro ao salvar categorias: '' TypeError, w)
      else
        (case normalizeCategories rt (field (req_body req) ''categories'') of
           Inl e \<Rightarrow> (thrown rt ''Erro ao salvar categorias: '' e, w)
         | Inr normalizedCategories \<Rightarrow>
             if normalizedCategories = []
             then (respond 400 (error_body ''Nenhuma categoria fornecida''), w)
             else if list_ex (\<lambda>cat. to_primitive_throws (field cat ''id'')) normalizedCategories
             then (thrown rt ''Erro ao salvar categorias: '' TypeError, w)
             else
               (let categoryIds = map (\<lambda>cat. field cat ''id'') normalizedCategories in
                case store_delete ''categories''
                       (\<lambda>r. \<not> in_list rt (not_in_filter rt categoryIds) (field r ''id'')) w of
                  (deleteError, w1) \<Rightarrow>
                    (case (case deleteError of
                             Some e \<Rightarrow> if js_includes (err_message e) ''No rows found'' then None else Some e
                           | None \<Rightarrow> None) of
                       Some e \<Rightarrow>
                         (respond 500 (error_body (''Erro ao salvar categorias: '' @ err_message e)), w1)
                     | None \<Rightarrow>
                         (case store_upsert rt ''categories''
                                 (map (\<lambda>category. JObj [(''id'', field category ''id''),
                                                        (''name'', field category ''name''),
                                                        (''description'', field category ''description'')])
                                    normalizedCategories) w1 of
                            (Some e, w2) \<Rightarrow>
                              (respond 500 (error_body (''Erro ao salvar categorias: '' @ err_message e)), w2)
                          | (None, w2) \<Rightarrow>
                              (respond 200 (success_body
                                 (js_to_string rt (JNum (of_nat (length normalizedCategories)))
                                  @ '' categorias salvas'')), w2))))))"

subsection \<open>Worlds and requests for the examples\<close>

definition admin_row :: jv where
  "admin_row =
     JObj [(''id'', JNum 1), (''username'', JStr ''admin''), (''password'', JStr ''segredo''),
           (''encrypted_password'', JStr ''=MjMx4WatRWY'')]"

definition example_world :: world where
  "example_world =
     \<lparr> rows = (\<lambda>tbl.
          if tbl = ''products''
          then [JObj [(''id'', JNum 1), (''title'', JStr ''Suco''), (''category'', JStr ''bebida'')],
                JObj [(''id'', JNum 2), (''title'', JStr ''Agua''), (''category'', JStr ''default'')],
                JObj [(''id'', JNum 3), (''title'', JStr ''Cha''), (''category'', JStr ''bebida'')]]
          else if tbl = ''categories''
          then [JObj [(''id'', JStr ''bebida''), (''name'', JStr ''Bebidas'')],
                JObj [(''id'', JStr ''default''), (''name'', JStr ''Geral'')]]
          else if tbl = ''admin_credentials'' then [admin_row]
          else []),
       assigned = 3,
       faults = [],
       clock = ''2024-05-01T20:15:00.000Z'' \<rparr>"

definition admin_request :: "jv \<Rightarrow> request" where
  "admin_request b = \<lparr> authorization = Some ''Bearer authenticated_admin_token'', req_body = b \<rparr>"

definition login_request :: "string \<Rightarrow> string \<Rightarrow> request" where
  "login_request u p =
     \<lparr> authorization = None, req_body = JObj [(''username'', JStr u), (''password'', JStr p)] \<rparr>"

definition connection_error :: store_error where
  "connection_error = \<lparr> err_message = ''connection refused'', err_code = ''08006'' \<rparr>"

definition missing_table_error :: store_error where
  "missing_table_error =
     \<lparr> err_message = ''relation admin_credentials does not exist'', err_code = ''42P01'' \<rparr>"

text \<open>The faults consumed by a handler that took the world \<open>w\<close> to \<open>w'\<close>.\<close>

definition consumed_faults :: "world \<Rightarrow> world \<Rightarrow> store_error option list" where
  "consumed_faults w w' = take (length (faults w) - length (faults w')) (faults w)"

definition delete_category_request :: "string \<Rightarrow> request" where
  "delete_category_request cid = admin_request (JObj [(''categoryId'', JStr cid)])"

definition save_products_request :: request where
  "save_products_request = admin_request (JObj [(''products'', JArr [red_product, sabores_product])])"

definition save_categories_request :: request where
  "save_categories_request = admin_request (JObj [(''categories'', JArr [JStr ''cha''])])"

definition no_rows_error :: store_error where
  "no_rows_error = \<lparr> err_message = ''No rows found'', err_code = ''PGRST116'' \<rparr>"

section \<open>Facts about the primitives\<close>

lemma mapM_Inr_D:
  "mapM f xs = Inr ys \<Longrightarrow> list_all2 (\<lambda>x y. f x = Inr y) xs ys"
  by (induction xs arbitrary: ys) (auto split: sum.splits)

lemma mapM_Inr_I:
  "list_all2 (\<lambda>x y. f x = Inr y) xs ys \<Longrightarrow> mapM f xs = Inr ys"
  by (induction rule: list_all2_induct) simp_all

lemma mapM_Inr_iff:
  "mapM f xs = Inr ys \<longleftrightarrow> list_all2 (\<lambda>x y. f x = Inr y) xs ys"
  using mapM_Inr_D mapM_Inr_I by blast

lemma mapM_nth:
  "mapM f xs = Inr ys \<Longrightarrow> length ys = length xs \<and> (\<forall>i<length xs. f (xs ! i) = Inr (ys ! i))"
  by (simp add: mapM_Inr_iff list_all2_conv_all_nth)

lemma mapM_total:
  "(\<And>x. x \<in> set xs \<Longrightarrow> f x = Inr (g x)) \<Longrightarrow> mapM f xs = Inr (map g xs)"
  by (induction xs) simp_all

lemma mapM_error:
  "x \<in> set xs \<Longrightarrow> f x = Inl TypeError \<Longrightarrow> mapM f xs = Inl TypeError"
proof (induction xs)
  case Nil
  then show ?case by simp
next
  case (Cons y ys)
  then show ?case
    by (cases "f y"; cases "mapM f ys") (auto intro: js_error.exhaust)
qed

lemma field_nullish: "nullish v \<Longrightarrow> field v k = JUndef"
  by (auto simp: nullish_def)

lemma field_spread_with:
  "field (spread_with v k x) k' = (if k' = k then x else field v k')"
  by (cases v) (simp_all add: spread_with_def update_conv')

lemma normalizeProducts_nth:
  "normalizeProducts rt (JArr ps) = Inr out \<Longrightarrow>
   length out = length ps \<and> (\<forall>i<length ps. normalizeProduct rt (ps ! i) = Inr (out ! i))"
  by (simp add: normalizeProducts_def mapM_nth)

lemma normalizeProduct_colors:
  "field p ''colors'' = JArr cs \<Longrightarrow>
   normalizeProduct rt p =
     (case mapM (color_to_sabor rt) cs of
        Inl e \<Rightarrow> Inl e
      | Inr ss \<Rightarrow> Inr (spread_with p ''sabores'' (JArr ss)))"
  by (cases "nullish p") (auto simp: normalizeProduct_def field_nullish)

lemma normalizeProduct_sabores:
  "\<not> isArray (field p ''colors'') \<Longrightarrow> field p ''sabores'' = JArr fs \<Longrightarrow>
   normalizeProduct rt p =
     (case js_sort rt (compare_sabores rt) fs of
        Inl e \<Rightarrow> Inl e
      | Inr ordered \<Rightarrow>
          (case mapM fill_sabor ordered of
             Inl e \<Rightarrow> Inl e
           | Inr gs \<Rightarrow> Inr (spread_with p ''sabores'' (JArr gs))))"
  by (cases "nullish p") (auto simp: normalizeProduct_def field_nullish)

lemma whole_add:
  "of_int \<lfloor>a\<rfloor> = (a::rat) \<Longrightarrow> of_int \<lfloor>b\<rfloor> = b \<Longrightarrow> of_int \<lfloor>a + b\<rfloor> = a + b"
  by (metis floor_of_int of_int_add)

lemma sum_abs_nonneg: "0 \<le> sum_list (map (\<lambda>sz. \<bar>stock_number sz\<bar>) szs)"
  by (induction szs) simp_all

lemma js_plus_whole:
  assumes "exact_integers rt" "of_int \<lfloor>a\<rfloor> = a" "of_int \<lfloor>b\<rfloor> = b" "\<bar>a\<bar> + \<bar>b\<bar> \<le> 9007199254740992"
  shows "js_plus rt (JNum a) (JNum b) = Inr (JNum (a + b))"
proof -
  from assms(2,3) have "of_int \<lfloor>a + b\<rfloor> = a + b" by (rule whole_add)
  moreover from assms(4) have "\<bar>a + b\<bar> \<le> 9007199254740992" by linarith
  ultimately have "safe_integer (a + b)" by (simp add: safe_integer_def)
  with assms(1) have "round_double rt (a + b) = Finite (a + b)"
    by (simp add: exact_integers_def)
  then show ?thesis by (simp add: js_plus_def)
qed

lemma size_ok_stock:
  assumes "size_ok sz"
  shows "\<not> nullish sz" "js_or (field sz ''stock'') (JNum 0) = JNum (stock_number sz)"
    "of_int \<lfloor>stock_number sz\<rfloor> = stock_number sz"
  using assms
  by (cases "field sz ''stock''"; simp add: size_ok_def stock_number_def js_or_def)+

lemma sum_stock_numbers:
  assumes exact: "exact_integers rt"
  shows "list_all size_ok szs \<Longrightarrow> of_int \<lfloor>a\<rfloor> = a \<Longrightarrow>
   \<bar>a\<bar> + sum_list (map (\<lambda>sz. \<bar>stock_number sz\<bar>) szs) \<le> 9007199254740992 \<Longrightarrow>
   sum_stock rt (JNum a) szs = Inr (JNum (a + sum_list (map stock_number szs)))"
proof (induction szs arbitrary: a)
  case Nil
  show ?case by simp
next
  case (Cons sz szs)
  from Cons.prems(1) have ok: "size_ok sz" and rest: "list_all size_ok szs" by simp_all
  note s = size_ok_stock [OF ok]
  let ?s = "stock_number sz"
  from Cons.prems(3) sum_abs_nonneg [of szs]
  have b1: "\<bar>a\<bar> + \<bar>?s\<bar> \<le> 9007199254740992"
    and b2: "\<bar>a + ?s\<bar> + sum_list (map (\<lambda>sz. \<bar>stock_number sz\<bar>) szs) \<le> 9007199254740992"
    by simp_all
  from js_plus_whole [OF exact Cons.prems(2) s(3) b1]
  have step: "js_plus rt (JNum a) (js_or (field sz ''stock'') (JNum 0)) = Inr (JNum (a + ?s))"
    by (simp add: s(2))
  from Cons.prems(2) s(3) have whole: "of_int \<lfloor>a + ?s\<rfloor> = a + ?s" by (rule whole_add)
  from s(1) show ?case
    by (simp add: step Cons.IH [OF rest whole b2] add.assoc)
qed

lemma color_quantity_spec:
  "exact_integers rt \<Longrightarrow> color_ok c \<Longrightarrow> color_quantity rt c = Inr (spec_color_quantity c)"
  by (cases "field c ''sizes''")
     (simp_all add: color_ok_def color_quantity_def spec_color_quantity_def js_or_def
        sum_stock_numbers [where a = 0, simplified])

lemma color_to_sabor_spec:
  "exact_integers rt \<Longrightarrow> color_ok c \<Longrightarrow>
   color_to_sabor rt c = Inr (JObj
     [(''name'', js_or (field c ''name'') (JStr ''Sem nome'')),
      (''image'', js_or (field c ''image'') (JStr ''https://via.placeholder.com/400x300'')),
      (''quantity'', spec_color_quantity c),
      (''description'', js_or (field c ''description'') (JStr []))])"
  by (simp add: color_to_sabor_def color_quantity_spec) (simp add: color_ok_def)

lemma fill_sabor_total:
  "\<not> nullish f \<Longrightarrow>
   fill_sabor f = Inr (JObj
     [(''name'', js_or (field f ''name'') (JStr ''Sem nome'')),
      (''image'', js_or (field f ''image'') (JStr ''https://via.placeholder.com/400x300'')),
      (''quantity'', stock_of f),
      (''description'', js_or (field f ''description'') (JStr []))])"
  by (simp add: fill_sabor_def stock_of_def)


section \<open>The sort of the sabores\<close>

lemma sold_out_not_available: "sold_out x \<Longrightarrow> \<not> available rt x"
  by (simp add: sold_out_def available_def js_gt0_def)

lemma compare_sabores_value:
  assumes "available rt a \<or> sold_out a" "available rt b \<or> sold_out b"
  shows "compare_sabores rt a b =
           Inr (if available rt a \<and> sold_out b then - 1
                else if sold_out a \<and> available rt b then 1 else 0)"
proof -
  from assms have nn: "\<not> nullish a" "\<not> nullish b"
    by (auto simp: available_def sold_out_def)
  from assms(1) have ta: "\<not> to_primitive_throws (stock_of a)"
    by (auto simp: available_def sold_out_def js_gt0_def)
  from assms(2) have tb: "\<not> to_primitive_throws (stock_of b)"
    by (auto simp: available_def sold_out_def js_gt0_def)
  from nn ta tb show ?thesis
    by (simp add: compare_sabores_def Let_def available_def sold_out_def)
qed

lemma compare_sabores_pos:
  "comes_after (compare_sabores rt) x y \<longleftrightarrow> sold_out x \<and> available rt y"
proof
  assume "comes_after (compare_sabores rt) x y"
  then show "sold_out x \<and> available rt y"
    by (auto simp: comes_after_def compare_sabores_def Let_def sold_out_def available_def
        split: if_splits)
next
  assume "sold_out x \<and> available rt y"
  with compare_sabores_value [of rt x y] sold_out_not_available [of x rt]
  show "comes_after (compare_sabores rt) x y"
    by (simp add: comes_after_def)
qed

lemma consistent_sabores:
  assumes "\<forall>f\<in>set fs. available rt f \<or> sold_out f"
  shows "consistent_comparator (compare_sabores rt) fs"
proof -
  have eq: "compares_equal (compare_sabores rt) a b \<longleftrightarrow> (available rt a \<longleftrightarrow> available rt b)"
    and lt: "comes_before (compare_sabores rt) a b \<longleftrightarrow> available rt a \<and> \<not> available rt b"
    and gt: "comes_after (compare_sabores rt) a b \<longleftrightarrow> \<not> available rt a \<and> available rt b"
    and ret: "(case compare_sabores rt a b of Inl e \<Rightarrow> False | Inr n \<Rightarrow> True)"
    if "a \<in> set fs" "b \<in> set fs" for a b
  proof -
    from that assms have ab: "available rt a \<or> sold_out a" "available rt b \<or> sold_out b"
      by blast+
    note v = compare_sabores_value [OF ab]
    from ab sold_out_not_available [of a rt] sold_out_not_available [of b rt]
    show "compares_equal (compare_sabores rt) a b \<longleftrightarrow> (available rt a \<longleftrightarrow> available rt b)"
      by (auto simp: compares_equal_def v)
    from ab sold_out_not_available [of a rt] sold_out_not_available [of b rt]
    show "comes_before (compare_sabores rt) a b \<longleftrightarrow> available rt a \<and> \<not> available rt b"
      by (auto simp: comes_before_def v)
    from ab sold_out_not_available [of a rt] sold_out_not_available [of b rt]
    show "comes_after (compare_sabores rt) a b \<longleftrightarrow> \<not> available rt a \<and> available rt b"
      by (auto simp: comes_after_def v)
    show "(case compare_sabores rt a b of Inl e \<Rightarrow> False | Inr n \<Rightarrow> True)"
      by (simp add: v)
  qed
  show ?thesis
    unfolding consistent_comparator_def list_all_iff
    by (intro ballI conjI impI) (simp_all add: eq lt gt ret)
qed

lemma insert_by_not_sold_out:
  "\<not> sold_out x \<Longrightarrow> insert_by (compare_sabores rt) x ys = x # ys"
  by (cases ys) (simp_all add: compare_sabores_pos)

lemma insert_by_sold_out:
  "sold_out x \<Longrightarrow>
   insert_by (compare_sabores rt) x ys =
     takeWhile (available rt) ys @ x # dropWhile (available rt) ys"
  by (induction ys) (simp_all add: compare_sabores_pos)

lemma stable_sort_Cons: "stable_sort cmp (x # xs) = insert_by cmp x (stable_sort cmp xs)"
  by (simp add: stable_sort_def)

lemma stable_sort_Nil: "stable_sort cmp [] = []"
  by (simp add: stable_sort_def)

lemma mset_insert_by: "mset (insert_by cmp x ys) = add_mset x (mset ys)"
  by (induction ys) simp_all

lemma mset_stable_sort: "mset (stable_sort cmp xs) = mset xs"
  by (induction xs) (simp_all add: stable_sort_Cons stable_sort_Nil mset_insert_by)

lemma filter_split_while:
  "filter Q (takeWhile P ys) @ filter Q (dropWhile P ys) = filter Q ys"
  by (simp flip: filter_append)

lemma successively_split_while:
  "successively R ys \<Longrightarrow> successively R (takeWhile P ys) \<and> successively R (dropWhile P ys)"
  by (metis successively_append_iff takeWhile_dropWhile_id)

lemma filter_available_insert:
  "filter (available rt) (insert_by (compare_sabores rt) x ys) = filter (available rt) (x # ys)"
proof (cases "sold_out x")
  case True
  then show ?thesis
    by (simp add: insert_by_sold_out sold_out_not_available filter_split_while)
next
  case False
  then show ?thesis by (simp add: insert_by_not_sold_out)
qed

lemma filter_sold_out_takeWhile:
  "filter sold_out (takeWhile (available rt) ys) = []"
  by (induction ys) (auto simp: sold_out_not_available)

lemma filter_sold_out_insert:
  "filter sold_out (insert_by (compare_sabores rt) x ys) = filter sold_out (x # ys)"
proof (cases "sold_out x")
  case True
  have "filter sold_out (dropWhile (available rt) ys) = filter sold_out ys"
    using filter_split_while [of sold_out "available rt" ys]
    by (simp add: filter_sold_out_takeWhile)
  with True show ?thesis
    by (simp add: insert_by_sold_out filter_sold_out_takeWhile)
next
  case False
  then show ?thesis by (simp add: insert_by_not_sold_out)
qed

lemma filter_available_stable_sort:
  "filter (available rt) (stable_sort (compare_sabores rt) xs) = filter (available rt) xs"
  by (induction xs) (simp_all add: stable_sort_Cons stable_sort_Nil filter_available_insert)

lemma filter_sold_out_stable_sort:
  "filter sold_out (stable_sort (compare_sabores rt) xs) = filter sold_out xs"
  by (induction xs) (simp_all add: stable_sort_Cons stable_sort_Nil filter_sold_out_insert)

lemma successively_insert:
  assumes "successively (\<lambda>a b. \<not> (sold_out a \<and> available rt b)) ys"
  shows "successively (\<lambda>a b. \<not> (sold_out a \<and> available rt b)) (insert_by (compare_sabores rt) x ys)"
proof (cases "sold_out x")
  case True
  let ?P = "available rt"
  let ?R = "\<lambda>a b. \<not> (sold_out a \<and> available rt b)"
  from assms have 1: "successively ?R (takeWhile ?P ys)" and 2: "successively ?R (dropWhile ?P ys)"
    using successively_split_while [of ?R ys ?P] by simp_all
  have 3: "dropWhile ?P ys \<noteq> [] \<Longrightarrow> \<not> ?P (hd (dropWhile ?P ys))"
    by (rule hd_dropWhile)
  have 4: "takeWhile ?P ys \<noteq> [] \<Longrightarrow> ?P (last (takeWhile ?P ys))"
    by (metis last_in_set set_takeWhileD)
  have "successively ?R (takeWhile ?P ys @ x # dropWhile ?P ys)"
    using 1 2 3 4
    by (auto simp: successively_append_iff successively_Cons sold_out_not_available)
  with True show ?thesis by (simp add: insert_by_sold_out)
next
  case False
  with assms show ?thesis
    by (simp add: insert_by_not_sold_out successively_Cons)
qed

lemma successively_stable_sort:
  "successively (\<lambda>a b. \<not> (sold_out a \<and> available rt b)) (stable_sort (compare_sabores rt) xs)"
proof (induction xs)
  case Nil
  show ?case by (simp add: stable_sort_Nil)
next
  case (Cons x xs)
  then show ?case
    unfolding stable_sort_Cons by (rule successively_insert)
qed

lemma stable_sort_partition:
  assumes "\<forall>x\<in>set xs. available rt x \<or> sold_out x"
  shows "stable_sort (compare_sabores rt) xs = filter (available rt) xs @ filter sold_out xs"
  using assms
proof (induction xs)
  case Nil
  show ?case by (simp add: stable_sort_Nil)
next
  case (Cons x xs)
  let ?P = "available rt"
  from Cons have IH: "stable_sort (compare_sabores rt) xs = filter ?P xs @ filter sold_out xs" by simp
  have tz: "takeWhile ?P (filter sold_out xs) = []"
    by (induction xs) (simp_all add: sold_out_not_available)
  have dz: "dropWhile ?P (filter sold_out xs) = filter sold_out xs"
    by (induction xs) (simp_all add: sold_out_not_available)
  have tw: "takeWhile ?P (filter ?P xs @ filter sold_out xs) = filter ?P xs"
    using takeWhile_append2 [of "filter ?P xs" ?P "filter sold_out xs"] tz by simp
  have dw: "dropWhile ?P (filter ?P xs @ filter sold_out xs) = filter sold_out xs"
    using dropWhile_append2 [of "filter ?P xs" ?P "filter sold_out xs"] dz by simp
  show ?case
  proof (cases "sold_out x")
    case True
    then show ?thesis
      by (simp add: stable_sort_Cons IH insert_by_sold_out tw dw sold_out_not_available)
  next
    case False
    with Cons.prems have "available rt x" by simp
    with False show ?thesis
      by (simp add: stable_sort_Cons IH insert_by_not_sold_out)
  qed
qed

lemma js_sort_sabores:
  assumes "\<forall>f\<in>set fs. available rt f \<or> sold_out f"
  shows "js_sort rt (compare_sabores rt) fs = Inr (filter (available rt) fs @ filter sold_out fs)"
  using consistent_sabores [OF assms] stable_sort_partition [OF assms]
  by (simp add: js_sort_def)

lemma exact_integers_example: "exact_integers example_runtime"
  by (simp add: exact_integers_def example_runtime_def)

lemma red_product_normalized:
  "normalizeProduct example_runtime red_product =
     Inr (JObj [(''colors'', JArr red_colors), (''sabores'', JArr [sabor_entry ''Red'' 5])])"
proof -
  let ?red = "JObj [(''name'', JStr ''Red''),
            (''sizes'', JArr [JObj [(''stock'', JNum 3)], JObj [(''stock'', JNum 2)]])]"
  have ok: "color_ok ?red"
    by (simp add: color_ok_def size_ok_def nullish_def stock_number_def)
  have "color_to_sabor example_runtime ?red = Inr (sabor_entry ''Red'' 5)"
    using color_to_sabor_spec [OF exact_integers_example ok]
    by (simp add: spec_color_quantity_def stock_number_def js_or_def sabor_entry_def)
  then show ?thesis
    by (simp add: normalizeProduct_def red_product_def red_colors_def nullish_def spread_with_def)
qed

lemma sabores_product_normalized:
  "normalizeProduct example_runtime sabores_product =
     Inr (JObj [(''title'', JStr ''Suco''),
                (''sabores'', JArr [sabor_entry ''Sem nome'' 5, sabor_entry ''Uva'' 2,
                                    sabor_entry ''Limao'' 0, sabor_entry ''Caju'' 0])])"
proof -
  have h2: "\<not> isArray (field sabores_product ''colors'')"
    and h3: "field sabores_product ''sabores'' = JArr sabores_list"
    by (simp_all add: sabores_product_def)
  have h4: "\<forall>f\<in>set sabores_list. available example_runtime f \<or> sold_out f"
    by (simp add: sabores_list_def available_def sold_out_def stock_of_def js_or_def js_gt0_def
        nullish_def)
  have "js_sort example_runtime (compare_sabores example_runtime) sabores_list =
      Inr [sabores_list ! 1, sabores_list ! 3, sabores_list ! 0, sabores_list ! 2]"
    unfolding js_sort_sabores [OF h4]
    by (simp add: sabores_list_def available_def sold_out_def stock_of_def js_or_def js_gt0_def
        nullish_def)
  with normalizeProduct_sabores [OF h2 h3, of example_runtime] show ?thesis
    by (simp add: sabores_product_def sabores_list_def fill_sabor_def js_or_def nullish_def
        spread_with_def sabor_entry_def)
qed

lemma example_products_normalized:
  "normalizeProducts example_runtime (JArr [red_product, sabores_product]) =
     Inr [JObj [(''colors'', JArr red_colors), (''sabores'', JArr [sabor_entry ''Red'' 5])],
          JObj [(''title'', JStr ''Suco''),
                (''sabores'', JArr [sabor_entry ''Sem nome'' 5, sabor_entry ''Uva'' 2,
                                    sabor_entry ''Limao'' 0, sabor_entry ''Caju'' 0])]]"
  by (simp add: normalizeProducts_def red_product_normalized sabores_product_normalized)

section \<open>Claims about normalizeProducts\<close>

text \<open>
  C10. A product whose \<open>colors\<close> is an array keeps its \<open>colors\<close> in the output,
  next to the synthesized \<open>sabores\<close>, which has one entry per color in the order of
  the colors; nothing moves the available entries to the front. In the example the
  entry with quantity 0 stays before the entry with quantity 5.
\<close>

theorem colors_branch_keeps_colors_and_input_order:
  "(\<forall>ps i cs out.
      i < length ps \<longrightarrow> field (ps ! i) ''colors'' = JArr cs \<longrightarrow>
      normalizeProducts rt (JArr ps) = Inr out \<longrightarrow>
      field (out ! i) ''colors'' = JArr cs \<and>
      (\<exists>ss. field (out ! i) ''sabores'' = JArr ss \<and> length ss = length cs \<and>
            (\<forall>j<length cs. color_to_sabor rt (cs ! j) = Inr (ss ! j))))
   \<and> normalizeProducts rt (JArr [legacy_product]) = Inr [upgraded_product]
   \<and> (\<exists>ss. field upgraded_product ''sabores'' = JArr ss \<and>
           field (ss ! 0) ''quantity'' = JNum 0 \<and> js_gt0 rt (field (ss ! 1) ''quantity''))"
proof (intro conjI allI impI)
  fix ps i cs out
  assume i: "i < length ps" and cs: "field (ps ! i) ''colors'' = JArr cs"
    and out: "normalizeProducts rt (JArr ps) = Inr out"
  from normalizeProducts_nth [OF out] i have "normalizeProduct rt (ps ! i) = Inr (out ! i)"
    by simp
  with normalizeProduct_colors [OF cs, of rt]
  obtain ss where ss: "mapM (color_to_sabor rt) cs = Inr ss"
    and o: "out ! i = spread_with (ps ! i) ''sabores'' (JArr ss)"
    by (auto split: sum.splits)
  from o cs show "field (out ! i) ''colors'' = JArr cs"
    by (simp add: field_spread_with)
  from o mapM_nth [OF ss]
  show "\<exists>ss. field (out ! i) ''sabores'' = JArr ss \<and> length ss = length cs \<and>
            (\<forall>j<length cs. color_to_sabor rt (cs ! j) = Inr (ss ! j))"
    by (auto simp: field_spread_with)
next
  show "normalizeProducts rt (JArr [legacy_product]) = Inr [upgraded_product]"
    by (simp add: normalizeProducts_def normalizeProduct_def legacy_product_def
        legacy_colors_def upgraded_product_def color_to_sabor_def color_quantity_def
        js_or_def nullish_def spread_with_def sabor_entry_def)
next
  show "\<exists>ss. field upgraded_product ''sabores'' = JArr ss \<and>
           field (ss ! 0) ''quantity'' = JNum 0 \<and> js_gt0 rt (field (ss ! 1) ''quantity'')"
    by (simp add: upgraded_product_def sabor_entry_def js_gt0_def)
qed

theorem colors_branch_keeps_colors_and_input_order_witness:
  "0 < length [legacy_product] \<and>
   field ([legacy_product] ! 0) ''colors'' = JArr legacy_colors \<and>
   normalizeProducts example_runtime (JArr [legacy_product]) = Inr [upgraded_product] \<and>
   field ([upgraded_product] ! 0) ''colors'' = JArr legacy_colors \<and>
   (\<exists>ss. field ([upgraded_product] ! 0) ''sabores'' = JArr ss \<and> length ss = length legacy_colors \<and>
         (\<forall>j<length legacy_colors. color_to_sabor example_runtime (legacy_colors ! j) = Inr (ss ! j)))"
proof -
  have h1: "0 < length [legacy_product]" by simp
  have h2: "field ([legacy_product] ! 0) ''colors'' = JArr legacy_colors"
    by (simp add: legacy_product_def)
  have h3: "normalizeProducts example_runtime (JArr [legacy_product]) = Inr [upgraded_product]"
    using colors_branch_keeps_colors_and_input_order [of example_runtime] by simp
  from colors_branch_keeps_colors_and_input_order [of example_runtime] h1 h2 h3
  have "field ([upgraded_product] ! 0) ''colors'' = JArr legacy_colors \<and>
   (\<exists>ss. field ([upgraded_product] ! 0) ''sabores'' = JArr ss \<and> length ss = length legacy_colors \<and>
         (\<forall>j<length legacy_colors. color_to_sabor example_runtime (legacy_colors ! j) = Inr (ss ! j)))"
    by blast
  with h1 h2 h3 show ?thesis by blast
qed

text \<open>
  C2. On a platform whose doubles count the whole numbers up to \<open>2\<^sup>5\<^sup>3\<close> exactly, as
  IEEE 754 has it, a product whose \<open>colors\<close> is an array of colors of the legacy shape
  (the stocks of the sizes are whole numbers within that range) is mapped to a product
  whose \<open>sabores\<close> has one entry per color; the quantity of an entry is the sum of
  the stock of the sizes of its color (a size without stock counts 0) when the color has
  sizes, and the quantity of the color (0 when it has none) otherwise; the name is the
  name of the color. The callback returns for such a product, and its result is the
  element of every output of normalizeProducts at the position of the product. The color
  Red with the sizes of stock 3 and 2 yields the sabor Red of quantity 5.
\<close>

theorem colors_quantity_is_stock_sum:
  "exact_integers rt \<longrightarrow>
   (\<forall>ps i cs.
      i < length ps \<longrightarrow> field (ps ! i) ''colors'' = JArr cs \<longrightarrow> list_all color_ok cs \<longrightarrow>
      (\<exists>p' ss. normalizeProduct rt (ps ! i) = Inr p' \<and>
         (\<forall>out. normalizeProducts rt (JArr ps) = Inr out \<longrightarrow> out ! i = p') \<and>
         field p' ''sabores'' = JArr ss \<and> length ss = length cs \<and>
         (\<forall>j<length cs.
            field (ss ! j) ''quantity'' = spec_color_quantity (cs ! j) \<and>
            field (ss ! j) ''name'' = js_or (field (cs ! j) ''name'') (JStr ''Sem nome''))))
   \<and> normalizeProducts rt (JArr [red_product]) =
       Inr [JObj [(''colors'', JArr red_colors), (''sabores'', JArr [sabor_entry ''Red'' 5])]]"
proof (intro conjI allI impI)
  fix ps i cs
  assume exact: "exact_integers rt"
  assume i: "i < length ps" and cs: "field (ps ! i) ''colors'' = JArr cs"
    and ok: "list_all color_ok cs"
  let ?entry = "\<lambda>c. JObj
     [(''name'', js_or (field c ''name'') (JStr ''Sem nome'')),
      (''image'', js_or (field c ''image'') (JStr ''https://via.placeholder.com/400x300'')),
      (''quantity'', spec_color_quantity c),
      (''description'', js_or (field c ''description'') (JStr []))]"
  let ?ss = "map ?entry cs"
  let ?p' = "spread_with (ps ! i) ''sabores'' (JArr ?ss)"
  from ok have "mapM (color_to_sabor rt) cs = Inr ?ss"
    by (intro mapM_total color_to_sabor_spec [OF exact]) (simp add: list_all_iff)
  with normalizeProduct_colors [OF cs, of rt]
  have ret: "normalizeProduct rt (ps ! i) = Inr ?p'" by simp
  have link: "\<forall>out. normalizeProducts rt (JArr ps) = Inr out \<longrightarrow> out ! i = ?p'"
    using normalizeProducts_nth i ret by fastforce
  have "field ?p' ''sabores'' = JArr ?ss \<and> length ?ss = length cs \<and>
         (\<forall>j<length cs.
            field (?ss ! j) ''quantity'' = spec_color_quantity (cs ! j) \<and>
            field (?ss ! j) ''name'' = js_or (field (cs ! j) ''name'') (JStr ''Sem nome''))"
    by (simp add: field_spread_with)
  with ret link
  show "\<exists>p' ss. normalizeProduct rt (ps ! i) = Inr p' \<and>
         (\<forall>out. normalizeProducts rt (JArr ps) = Inr out \<longrightarrow> out ! i = p') \<and>
         field p' ''sabores'' = JArr ss \<and> length ss = length cs \<and>
         (\<forall>j<length cs.
            field (ss ! j) ''quantity'' = spec_color_quantity (cs ! j) \<and>
            field (ss ! j) ''name'' = js_or (field (cs ! j) ''name'') (JStr ''Sem nome''))"
    by blast
next
  assume exact: "exact_integers rt"
  let ?red = "JObj [(''name'', JStr ''Red''),
            (''sizes'', JArr [JObj [(''stock'', JNum 3)], JObj [(''stock'', JNum 2)]])]"
  have ok: "color_ok ?red"
    by (simp add: color_ok_def size_ok_def nullish_def stock_number_def)
  have "color_to_sabor rt ?red = Inr (sabor_entry ''Red'' 5)"
    using color_to_sabor_spec [OF exact ok]
    by (simp add: spec_color_quantity_def stock_number_def js_or_def sabor_entry_def)
  then show "normalizeProducts rt (JArr [red_product]) =
       Inr [JObj [(''colors'', JArr red_colors), (''sabores'', JArr [sabor_entry ''Red'' 5])]]"
    by (simp add: normalizeProducts_def normalizeProduct_def red_product_def red_colors_def
        nullish_def spread_with_def)
qed

theorem colors_quantity_is_stock_sum_witness:
  "exact_integers example_runtime \<and>
   0 < length [red_product] \<and> field ([red_product] ! 0) ''colors'' = JArr red_colors \<and>
   list_all color_ok red_colors \<and>
   (\<exists>p' ss. normalizeProduct example_runtime ([red_product] ! 0) = Inr p' \<and>
      (\<forall>out. normalizeProducts example_runtime (JArr [red_product]) = Inr out \<longrightarrow> out ! 0 = p') \<and>
      field p' ''sabores'' = JArr ss \<and> length ss = length red_colors \<and>
      (\<forall>j<length red_colors.
         field (ss ! j) ''quantity'' = spec_color_quantity (red_colors ! j) \<and>
         field (ss ! j) ''name'' = js_or (field (red_colors ! j) ''name'') (JStr ''Sem nome''))) \<and>
   spec_color_quantity (red_colors ! 0) = JNum 5 \<and>
   normalizeProducts example_runtime (JArr [red_product]) =
     Inr [JObj [(''colors'', JArr red_colors), (''sabores'', JArr [sabor_entry ''Red'' 5])]]"
proof -
  have h0: "exact_integers example_runtime"
    by (simp add: exact_integers_def example_runtime_def)
  have h1: "0 < length [red_product]" by simp
  have h2: "field ([red_product] ! 0) ''colors'' = JArr red_colors"
    by (simp add: red_product_def)
  have h3: "list_all color_ok red_colors"
    by (simp add: red_colors_def color_ok_def size_ok_def nullish_def stock_number_def)
  have h4: "spec_color_quantity (red_colors ! 0) = JNum 5"
    by (simp add: red_colors_def spec_color_quantity_def stock_number_def)
  note main = colors_quantity_is_stock_sum [of example_runtime, rule_format, OF h0]
  from main [THEN conjunct1, rule_format, OF h1 h2 h3]
  have r1: "\<exists>p' ss. normalizeProduct example_runtime ([red_product] ! 0) = Inr p' \<and>
      (\<forall>out. normalizeProducts example_runtime (JArr [red_product]) = Inr out \<longrightarrow> out ! 0 = p') \<and>
      field p' ''sabores'' = JArr ss \<and> length ss = length red_colors \<and>
      (\<forall>j<length red_colors.
         field (ss ! j) ''quantity'' = spec_color_quantity (red_colors ! j) \<and>
         field (ss ! j) ''name'' = js_or (field (red_colors ! j) ''name'') (JStr ''Sem nome''))" .
  from main [THEN conjunct2]
  have r2: "normalizeProducts example_runtime (JArr [red_product]) =
     Inr [JObj [(''colors'', JArr red_colors), (''sabores'', JArr [sabor_entry ''Red'' 5])]]" .
  from h0 h1 h2 h3 h4 r1 r2 show ?thesis by blast
qed

text \<open>
  C1, as stated, fails: an element that has a \<open>sabores\<close> array and also a \<open>colors\<close>
  array takes the colors branch, and its \<open>sabores\<close> is rebuilt from the colors in
  their order. The product that the normalization of a legacy product returns is such
  an element; normalizing it again leaves the sold-out entry before the available one.
\<close>

theorem sabores_partition_counterexample:
  "field upgraded_product ''sabores'' = JArr [sabor_entry ''Limao'' 0, sabor_entry ''Uva'' 5] \<and>
   normalizeProducts example_runtime (JArr [upgraded_product]) = Inr [upgraded_product] \<and>
   field ([sabor_entry ''Limao'' 0, sabor_entry ''Uva'' 5] ! 0) ''quantity'' = JNum 0 \<and>
   js_gt0 example_runtime (field ([sabor_entry ''Limao'' 0, sabor_entry ''Uva'' 5] ! 1) ''quantity'')"
  by (simp add: normalizeProducts_def normalizeProduct_def
        legacy_colors_def upgraded_product_def color_to_sabor_def color_quantity_def
        js_or_def nullish_def spread_with_def sabor_entry_def js_gt0_def)

text \<open>
  C1, amended. For an element whose \<open>colors\<close> is not an array and whose \<open>sabores\<close>
  is an array of entries that are each available (a quantity above 0) or sold out (the
  quantity 0, or none), the callback returns a product whose \<open>sabores\<close> is the
  available entries in their input order followed by the sold-out entries in their
  input order, each with its defaults filled: the name (or \<open>Sem nome\<close>), the image
  (or the placeholder URL), the quantity (or 0) and the description (or the empty
  string). No entry of the output with quantity 0 is directly followed by an entry with
  a quantity above 0. The result of the callback is the element of every output of
  normalizeProducts at the position of the element. For an entry whose quantity is
  neither (a negative number, a text that is no positive number) the comparator is not
  consistent, and the order of the result is the engine's.
\<close>

theorem sabores_branch_stable_partition:
  "\<forall>ps i fs.
     i < length ps \<longrightarrow> \<not> isArray (field (ps ! i) ''colors'') \<longrightarrow>
     field (ps ! i) ''sabores'' = JArr fs \<longrightarrow> (\<forall>f\<in>set fs. available rt f \<or> sold_out f) \<longrightarrow>
     (\<exists>p' gs ordered.
        normalizeProduct rt (ps ! i) = Inr p' \<and>
        (\<forall>out. normalizeProducts rt (JArr ps) = Inr out \<longrightarrow> out ! i = p') \<and>
        field p' ''sabores'' = JArr gs \<and>
        ordered = filter (available rt) fs @ filter sold_out fs \<and>
        length gs = length ordered \<and>
        (\<forall>j<length ordered.
           gs ! j = JObj
             [(''name'', js_or (field (ordered ! j) ''name'') (JStr ''Sem nome'')),
              (''image'', js_or (field (ordered ! j) ''image'')
                            (JStr ''https://via.placeholder.com/400x300'')),
              (''quantity'', js_or (field (ordered ! j) ''quantity'') (JNum 0)),
              (''description'', js_or (field (ordered ! j) ''description'') (JStr []))]) \<and>
        (\<forall>j. Suc j < length gs \<longrightarrow>
           \<not> (field (gs ! j) ''quantity'' = JNum 0 \<and> js_gt0 rt (field (gs ! Suc j) ''quantity''))))"
proof (intro allI impI)
  fix ps i fs
  assume i: "i < length ps" and nc: "\<not> isArray (field (ps ! i) ''colors'')"
    and fs: "field (ps ! i) ''sabores'' = JArr fs"
    and cls: "\<forall>f\<in>set fs. available rt f \<or> sold_out f"
  let ?fill = "\<lambda>f. JObj
     [(''name'', js_or (field f ''name'') (JStr ''Sem nome'')),
      (''image'', js_or (field f ''image'') (JStr ''https://via.placeholder.com/400x300'')),
      (''quantity'', stock_of f),
      (''description'', js_or (field f ''description'') (JStr []))]"
  define ordered where "ordered = filter (available rt) fs @ filter sold_out fs"
  let ?gs = "map ?fill ordered"
  let ?p' = "spread_with (ps ! i) ''sabores'' (JArr ?gs)"
  have sub: "set ordered \<subseteq> set fs"
    by (auto simp: ordered_def)
  from cls have "\<forall>f\<in>set fs. \<not> nullish f"
    by (auto simp: available_def sold_out_def)
  with sub have nn: "\<forall>f\<in>set ordered. \<not> nullish f" by blast
  have srt: "js_sort rt (compare_sabores rt) fs = Inr ordered"
    unfolding ordered_def using cls by (rule js_sort_sabores)
  have stable: "stable_sort (compare_sabores rt) fs = ordered"
    unfolding ordered_def using cls by (rule stable_sort_partition)
  from nn have "mapM fill_sabor ordered = Inr ?gs"
    by (intro mapM_total fill_sabor_total) auto
  with normalizeProduct_sabores [OF nc fs, of rt] srt
  have ret: "normalizeProduct rt (ps ! i) = Inr ?p'" by simp
  have link: "\<forall>out. normalizeProducts rt (JArr ps) = Inr out \<longrightarrow> out ! i = ?p'"
    using normalizeProducts_nth i ret by fastforce
  have sab: "field ?p' ''sabores'' = JArr ?gs"
    by (simp add: field_spread_with)
  have fill: "\<forall>j<length ordered.
           ?gs ! j = JObj
             [(''name'', js_or (field (ordered ! j) ''name'') (JStr ''Sem nome'')),
              (''image'', js_or (field (ordered ! j) ''image'')
                            (JStr ''https://via.placeholder.com/400x300'')),
              (''quantity'', js_or (field (ordered ! j) ''quantity'') (JNum 0)),
              (''description'', js_or (field (ordered ! j) ''description'') (JStr []))]"
    by (simp add: stock_of_def)
  have adj: "\<forall>j. Suc j < length ?gs \<longrightarrow>
           \<not> (field (?gs ! j) ''quantity'' = JNum 0 \<and> js_gt0 rt (field (?gs ! Suc j) ''quantity''))"
  proof (intro allI impI)
    fix j assume j: "Suc j < length ?gs"
    then have lt: "Suc j < length ordered" by simp
    then have "ordered ! j \<in> set ordered" "ordered ! Suc j \<in> set ordered"
      by simp_all
    with nn have nj: "\<not> nullish (ordered ! j)" "\<not> nullish (ordered ! Suc j)"
      by blast+
    from successively_stable_sort [of rt fs] stable
    have "successively (\<lambda>a b. \<not> (sold_out a \<and> available rt b)) ordered" by simp
    from successively_nth [OF this lt]
    have "\<not> (sold_out (ordered ! j) \<and> available rt (ordered ! Suc j))" .
    with nj
    have "\<not> (stock_of (ordered ! j) = JNum 0 \<and> js_gt0 rt (stock_of (ordered ! Suc j)))"
      by (simp add: sold_out_def available_def)
    with lt show "\<not> (field (?gs ! j) ''quantity'' = JNum 0 \<and> js_gt0 rt (field (?gs ! Suc j) ''quantity''))"
      by simp
  qed
  from ret link sab fill adj ordered_def
  show "\<exists>p' gs ordered.
        normalizeProduct rt (ps ! i) = Inr p' \<and>
        (\<forall>out. normalizeProducts rt (JArr ps) = Inr out \<longrightarrow> out ! i = p') \<and>
        field p' ''sabores'' = JArr gs \<and>
        ordered = filter (available rt) fs @ filter sold_out fs \<and>
        length gs = length ordered \<and>
        (\<forall>j<length ordered.
           gs ! j = JObj
             [(''name'', js_or (field (ordered ! j) ''name'') (JStr ''Sem nome'')),
              (''image'', js_or (field (ordered ! j) ''image'')
                            (JStr ''https://via.placeholder.com/400x300'')),
              (''quantity'', js_or (field (ordered ! j) ''quantity'') (JNum 0)),
              (''description'', js_or (field (ordered ! j) ''description'') (JStr []))]) \<and>
        (\<forall>j. Suc j < length gs \<longrightarrow>
           \<not> (field (gs ! j) ''quantity'' = JNum 0 \<and> js_gt0 rt (field (gs ! Suc j) ''quantity'')))"
    by (intro exI [of _ ?p'] exI [of _ ?gs] exI [of _ ordered]) (simp only: length_map simp_thms)
qed

theorem sabores_branch_stable_partition_witness:
  "0 < length [sabores_product] \<and> \<not> isArray (field ([sabores_product] ! 0) ''colors'') \<and>
   field ([sabores_product] ! 0) ''sabores'' = JArr sabores_list \<and>
   list_all (\<lambda>f. available example_runtime f \<or> sold_out f) sabores_list \<and>
   filter (available example_runtime) sabores_list @ filter sold_out sabores_list =
     [sabores_list ! 1, sabores_list ! 3, sabores_list ! 0, sabores_list ! 2] \<and>
   (\<exists>p' gs ordered.
        normalizeProduct example_runtime ([sabores_product] ! 0) = Inr p' \<and>
        (\<forall>out. normalizeProducts example_runtime (JArr [sabores_product]) = Inr out \<longrightarrow> out ! 0 = p') \<and>
        field p' ''sabores'' = JArr gs \<and>
        ordered = filter (available example_runtime) sabores_list @ filter sold_out sabores_list \<and>
        length gs = length ordered \<and>
        (\<forall>j<length ordered.
           gs ! j = JObj
             [(''name'', js_or (field (ordered ! j) ''name'') (JStr ''Sem nome'')),
              (''image'', js_or (field (ordered ! j) ''image'')
                            (JStr ''https://via.placeholder.com/400x300'')),
              (''quantity'', js_or (field (ordered ! j) ''quantity'') (JNum 0)),
              (''description'', js_or (field (ordered ! j) ''description'') (JStr []))]) \<and>
        (\<forall>j. Suc j < length gs \<longrightarrow>
           \<not> (field (gs ! j) ''quantity'' = JNum 0 \<and>
              js_gt0 example_runtime (field (gs ! Suc j) ''quantity'')))) \<and>
   normalizeProducts example_runtime (JArr [sabores_product]) =
     Inr [JObj [(''title'', JStr ''Suco''),
                (''sabores'', JArr [sabor_entry ''Sem nome'' 5, sabor_entry ''Uva'' 2,
                                    sabor_entry ''Limao'' 0, sabor_entry ''Caju'' 0])]]"
proof -
  have h1: "0 < length [sabores_product]" by simp
  have h2: "\<not> isArray (field ([sabores_product] ! 0) ''colors'')"
    by (simp add: sabores_product_def)
  have h3: "field ([sabores_product] ! 0) ''sabores'' = JArr sabores_list"
    by (simp add: sabores_product_def)
  have h4: "\<forall>f\<in>set sabores_list. available example_runtime f \<or> sold_out f"
    by (simp add: sabores_list_def available_def sold_out_def stock_of_def js_or_def js_gt0_def
        nullish_def)
  have h5: "filter (available example_runtime) sabores_list @ filter sold_out sabores_list =
     [sabores_list ! 1, sabores_list ! 3, sabores_list ! 0, sabores_list ! 2]"
    by (simp add: sabores_list_def available_def sold_out_def stock_of_def js_or_def js_gt0_def
        nullish_def)
  from sabores_branch_stable_partition [of example_runtime, rule_format, OF h1 h2 h3 h4 [rule_format]]
  have main: "\<exists>p' gs ordered.
        normalizeProduct example_runtime ([sabores_product] ! 0) = Inr p' \<and>
        (\<forall>out. normalizeProducts example_runtime (JArr [sabores_product]) = Inr out \<longrightarrow> out ! 0 = p') \<and>
        field p' ''sabores'' = JArr gs \<and>
        ordered = filter (available example_runtime) sabores_list @ filter sold_out sabores_list \<and>
        length gs = length ordered \<and>
        (\<forall>j<length ordered.
           gs ! j = JObj
             [(''name'', js_or (field (ordered ! j) ''name'') (JStr ''Sem nome'')),
              (''image'', js_or (field (ordered ! j) ''image'')
                            (JStr ''https://via.placeholder.com/400x300'')),
              (''quantity'', js_or (field (ordered ! j) ''quantity'') (JNum 0)),
              (''description'', js_or (field (ordered ! j) ''description'') (JStr []))]) \<and>
        (\<forall>j. Suc j < length gs \<longrightarrow>
           \<not> (field (gs ! j) ''quantity'' = JNum 0 \<and>
              js_gt0 example_runtime (field (gs ! Suc j) ''quantity'')))" .
  have srt: "js_sort example_runtime (compare_sabores example_runtime) sabores_list =
      Inr [sabores_list ! 1, sabores_list ! 3, sabores_list ! 0, sabores_list ! 2]"
    using js_sort_sabores [OF h4] h5 by simp
  have h6: "normalizeProducts example_runtime (JArr [sabores_product]) =
     Inr [JObj [(''title'', JStr ''Suco''),
                (''sabores'', JArr [sabor_entry ''Sem nome'' 5, sabor_entry ''Uva'' 2,
                                    sabor_entry ''Limao'' 0, sabor_entry ''Caju'' 0])]]"
    using normalizeProduct_sabores [OF h2 h3, of example_runtime] srt
    by (simp add: normalizeProducts_def)
       (simp add: sabores_product_def sabores_list_def fill_sabor_def js_or_def nullish_def
          spread_with_def sabor_entry_def)
  from h1 h2 h3 h4 h5 main h6 show ?thesis
    unfolding list_all_iff by blast
qed

section \<open>Claims about normalizeOrders and normalizeCategories\<close>

lemma js_parseFloat_returns:
  "\<not> to_primitive_throws v \<Longrightarrow>
   \<exists>parsed. js_parseFloat rt v = Inr parsed \<and> js_or parsed (JNum 0) = spec_total rt v"
  by (cases v; cases "parse_float rt (js_to_string rt v)")
     (simp_all add: js_parseFloat_def spec_total_def js_or_def)

lemma js_parseFloat_throws:
  "to_primitive_throws v \<Longrightarrow> js_parseFloat rt v = Inl TypeError"
  by (simp add: js_parseFloat_def)

lemma is_number_spec_total: "is_number (spec_total rt v)"
  by (cases v; cases "parse_float rt (js_to_string rt v)") (simp_all add: spec_total_def)

lemma normalizeOrder_total:
  "\<not> nullish order \<Longrightarrow> \<not> to_primitive_throws (field order ''total'') \<Longrightarrow>
   normalizeOrder rt order = Inr (JObj
        [(''id'', field order ''id''),
         (''date'', field order ''date''),
         (''time'', field order ''time''),
         (''customerName'', js_or (field order ''customer_name'') (field order ''customerName'')),
         (''customerPhone'', js_or (field order ''customer_phone'') (field order ''customerPhone'')),
         (''items'', if isArray (field order ''items'') then field order ''items'' else JArr []),
         (''total'', spec_total rt (field order ''total'')),
         (''paymentMethod'', js_or (field order ''payment_method'') (field order ''paymentMethod'')),
         (''status'', js_or (field order ''status'') (JStr ''pending'')),
         (''createdAt'', js_or (field order ''created_at'') (field order ''createdAt''))])"
  using js_parseFloat_returns [of "field order ''total''" rt]
  by (auto simp: normalizeOrder_def)

lemma normalizeOrder_throws:
  "nullish order \<or> to_primitive_throws (field order ''total'') \<Longrightarrow>
   normalizeOrder rt order = Inl TypeError"
  by (auto simp: normalizeOrder_def js_parseFloat_throws)

text \<open>
  C9, as stated, fails for a snake_case field that is present and not truthy: the
  order that carries the empty \<open>customer_name\<close> next to the \<open>customerName\<close> Bia
  comes out with the name Bia, the camelCase field.
\<close>

theorem normalizeOrders_empty_snake_case_counterexample:
  "field renamed_order ''customer_name'' = JStr [] \<and>
   field renamed_order ''customerName'' = JStr ''Bia'' \<and>
   normalizeOrders example_runtime (JArr [renamed_order]) =
     Inr [external_shape (JNum 10) JUndef JUndef (JStr ''Bia'') JUndef (JArr []) (JNum 30) JUndef
            (JStr ''pending'') JUndef]"
  by (simp add: normalizeOrders_def normalizeOrder_def renamed_order_def external_shape_def
      js_parseFloat_def js_or_def nullish_def)

text \<open>
  C9, amended. An array of orders (none of them null, each with a total that can be
  converted to text) is mapped, element by element, to objects with exactly the
  properties of the external shape. For customerName, customerPhone, paymentMethod and
  createdAt the value is the snake_case property of the input when that one is truthy,
  and the camelCase property otherwise. The total is a number: the number that the total
  of the input is, or that its text parses to, and 0 when there is none. The items are
  the items of the input when they are an array and the empty array otherwise; the
  status is the status of the input, and \<open>pending\<close> when it has none. An array with
  an order that is null, or whose total cannot be converted to text, makes the call
  throw; an input that is not an array gives the empty sequence.
\<close>

theorem normalizeOrders_external_shape:
  "(\<forall>os. (\<forall>order\<in>set os. \<not> nullish order \<and> \<not> to_primitive_throws (field order ''total'')) \<longrightarrow>
      (\<exists>out. normalizeOrders rt (JArr os) = Inr out \<and> length out = length os \<and>
         (\<forall>i<length os.
            map fst (own_props (out ! i)) =
              [''id'', ''date'', ''time'', ''customerName'', ''customerPhone'', ''items'',
               ''total'', ''paymentMethod'', ''status'', ''createdAt''] \<and>
            field (out ! i) ''id'' = field (os ! i) ''id'' \<and>
            field (out ! i) ''date'' = field (os ! i) ''date'' \<and>
            field (out ! i) ''time'' = field (os ! i) ''time'' \<and>
            field (out ! i) ''customerName'' =
              (if truthy (field (os ! i) ''customer_name'') then field (os ! i) ''customer_name''
               else field (os ! i) ''customerName'') \<and>
            field (out ! i) ''customerPhone'' =
              (if truthy (field (os ! i) ''customer_phone'') then field (os ! i) ''customer_phone''
               else field (os ! i) ''customerPhone'') \<and>
            field (out ! i) ''paymentMethod'' =
              (if truthy (field (os ! i) ''payment_method'') then field (os ! i) ''payment_method''
               else field (os ! i) ''paymentMethod'') \<and>
            field (out ! i) ''createdAt'' =
              (if truthy (field (os ! i) ''created_at'') then field (os ! i) ''created_at''
               else field (os ! i) ''createdAt'') \<and>
            field (out ! i) ''total'' = spec_total rt (field (os ! i) ''total'') \<and>
            is_number (field (out ! i) ''total'') \<and>
            field (out ! i) ''items'' =
              (if isArray (field (os ! i) ''items'') then field (os ! i) ''items'' else JArr []) \<and>
            field (out ! i) ''status'' =
              (if truthy (field (os ! i) ''status'') then field (os ! i) ''status''
               else JStr ''pending''))))
   \<and> (\<forall>os. (\<exists>order\<in>set os. nullish order \<or> to_primitive_throws (field order ''total'')) \<longrightarrow>
         normalizeOrders rt (JArr os) = Inl TypeError)
   \<and> (\<forall>v. \<not> isArray v \<longrightarrow> normalizeOrders rt v = Inr [])"
proof (intro conjI allI impI)
  fix os
  assume nn: "\<forall>order\<in>set os. \<not> nullish order \<and> \<not> to_primitive_throws (field order ''total'')"
  let ?shape = "\<lambda>order. JObj
        [(''id'', field order ''id''),
         (''date'', field order ''date''),
         (''time'', field order ''time''),
         (''customerName'', js_or (field order ''customer_name'') (field order ''customerName'')),
         (''customerPhone'', js_or (field order ''customer_phone'') (field order ''customerPhone'')),
         (''items'', if isArray (field order ''items'') then field order ''items'' else JArr []),
         (''total'', spec_total rt (field order ''total'')),
         (''paymentMethod'', js_or (field order ''payment_method'') (field order ''paymentMethod'')),
         (''status'', js_or (field order ''status'') (JStr ''pending'')),
         (''createdAt'', js_or (field order ''created_at'') (field order ''createdAt''))]"
  from nn have "mapM (normalizeOrder rt) os = Inr (map ?shape os)"
    by (intro mapM_total normalizeOrder_total) simp_all
  then have ret: "normalizeOrders rt (JArr os) = Inr (map ?shape os)"
    by (simp add: normalizeOrders_def)
  show "\<exists>out. normalizeOrders rt (JArr os) = Inr out \<and> length out = length os \<and>
         (\<forall>i<length os.
            map fst (own_props (out ! i)) =
              [''id'', ''date'', ''time'', ''customerName'', ''customerPhone'', ''items'',
               ''total'', ''paymentMethod'', ''status'', ''createdAt''] \<and>
            field (out ! i) ''id'' = field (os ! i) ''id'' \<and>
            field (out ! i) ''date'' = field (os ! i) ''date'' \<and>
            field (out ! i) ''time'' = field (os ! i) ''time'' \<and>
            field (out ! i) ''customerName'' =
              (if truthy (field (os ! i) ''customer_name'') then field (os ! i) ''customer_name''
               else field (os ! i) ''customerName'') \<and>
            field (out ! i) ''customerPhone'' =
              (if truthy (field (os ! i) ''customer_phone'') then field (os ! i) ''customer_phone''
               else field (os ! i) ''customerPhone'') \<and>
            field (out ! i) ''paymentMethod'' =
              (if truthy (field (os ! i) ''payment_method'') then field (os ! i) ''payment_method''
               else field (os ! i) ''paymentMethod'') \<and>
            field (out ! i) ''createdAt'' =
              (if truthy (field (os ! i) ''created_at'') then field (os ! i) ''created_at''
               else field (os ! i) ''createdAt'') \<and>
            field (out ! i) ''total'' = spec_total rt (field (os ! i) ''total'') \<and>
            is_number (field (out ! i) ''total'') \<and>
            field (out ! i) ''items'' =
              (if isArray (field (os ! i) ''items'') then field (os ! i) ''items'' else JArr []) \<and>
            field (out ! i) ''status'' =
              (if truthy (field (os ! i) ''status'') then field (os ! i) ''status''
               else JStr ''pending''))"
    by (rule exI [of _ "map ?shape os"]) (simp add: ret is_number_spec_total, simp add: js_or_def)
next
  fix os
  assume "\<exists>order\<in>set os. nullish order \<or> to_primitive_throws (field order ''total'')"
  then obtain order where "order \<in> set os" "normalizeOrder rt order = Inl TypeError"
    using normalizeOrder_throws by blast
  then have "mapM (normalizeOrder rt) os = Inl TypeError" by (rule mapM_error)
  then show "normalizeOrders rt (JArr os) = Inl TypeError"
    by (simp add: normalizeOrders_def)
next
  fix v
  assume "\<not> isArray v"
  then show "normalizeOrders rt v = Inr []"
    by (cases v) (simp_all add: normalizeOrders_def)
qed

theorem normalizeOrders_external_shape_witness:
  "list_all (\<lambda>order. \<not> nullish order \<and> \<not> to_primitive_throws (field order ''total''))
     [stored_order, counter_order, phone_order] \<and>
   normalizeOrders example_runtime (JArr [stored_order, counter_order, phone_order]) =
     Inr [external_shape (JNum 7) (JStr ''2024-05-01'') (JStr ''20:15'') (JStr ''Ana'') (JStr ''5511'')
            (JArr []) (JNum 0) (JStr ''pix'') (JStr ''pending'') (JStr ''2024-05-01T20:15:00Z''),
          external_shape (JNum 8) JUndef JUndef (JStr ''Caio'') JUndef (JArr [JStr ''suco''])
            (JNum 12) JUndef (JStr ''paid'') JUndef,
          external_shape (JNum 9) JUndef JUndef (JStr ''Davi'') JUndef (JArr [])
            (JNum 42) JUndef (JStr ''pending'') JUndef] \<and>
   spec_total example_runtime (field stored_order ''total'') = JNum 0 \<and>
   spec_total example_runtime (field counter_order ''total'') = JNum 12 \<and>
   spec_total example_runtime (field phone_order ''total'') = JNum 42 \<and>
   list_ex (\<lambda>order. nullish order \<or> to_primitive_throws (field order ''total''))
     [counter_order, JObj [(''total'', JObj [(''toString'', JNum 1)])]] \<and>
   normalizeOrders example_runtime (JArr [counter_order, JObj [(''total'', JObj [(''toString'', JNum 1)])]])
     = Inl TypeError \<and>
   \<not> isArray (JStr ''orders'') \<and> normalizeOrders example_runtime (JStr ''orders'') = Inr []"
proof -
  let ?os = "[stored_order, counter_order, phone_order]"
  let ?bad = "[counter_order, JObj [(''total'', JObj [(''toString'', JNum 1)])]]"
  have h1: "\<forall>order\<in>set ?os. \<not> nullish order \<and> \<not> to_primitive_throws (field order ''total'')"
    by (simp add: stored_order_def counter_order_def phone_order_def nullish_def)
  have h2: "\<not> isArray (JStr ''orders'')" by simp
  have h3: "\<exists>order\<in>set ?bad. nullish order \<or> to_primitive_throws (field order ''total'')"
    by simp
  note main = normalizeOrders_external_shape [of example_runtime]
  from main h2 have r2: "normalizeOrders example_runtime (JStr ''orders'') = Inr []" by blast
  from main [THEN conjunct2, THEN conjunct1, rule_format, OF h3]
  have r3: "normalizeOrders example_runtime (JArr ?bad) = Inl TypeError" .
  from main [THEN conjunct1, rule_format, OF h1 [rule_format]]
  obtain out where out: "normalizeOrders example_runtime (JArr ?os) = Inr out"
    and len: "length out = length ?os"
    and tot: "\<forall>i<length ?os. field (out ! i) ''total'' = spec_total example_runtime (field (?os ! i) ''total'')"
    by blast
  have t1: "spec_total example_runtime (field stored_order ''total'') = JNum 0"
    and t2: "spec_total example_runtime (field counter_order ''total'') = JNum 12"
    and t3: "spec_total example_runtime (field phone_order ''total'') = JNum 42"
    by (simp_all add: spec_total_def stored_order_def counter_order_def phone_order_def
        example_runtime_def parse_natural_def)
  from out have r1: "normalizeOrders example_runtime (JArr ?os) =
     Inr [external_shape (JNum 7) (JStr ''2024-05-01'') (JStr ''20:15'') (JStr ''Ana'') (JStr ''5511'')
            (JArr []) (JNum 0) (JStr ''pix'') (JStr ''pending'') (JStr ''2024-05-01T20:15:00Z''),
          external_shape (JNum 8) JUndef JUndef (JStr ''Caio'') JUndef (JArr [JStr ''suco''])
            (JNum 12) JUndef (JStr ''paid'') JUndef,
          external_shape (JNum 9) JUndef JUndef (JStr ''Davi'') JUndef (JArr [])
            (JNum 42) JUndef (JStr ''pending'') JUndef]"
    by (simp add: normalizeOrders_def normalizeOrder_def stored_order_def counter_order_def
        phone_order_def external_shape_def nullish_def js_or_def js_parseFloat_def
        example_runtime_def parse_natural_def)
  from h1 r1 t1 t2 t3 h3 r3 h2 r2 show ?thesis
    unfolding list_all_iff list_ex_iff by blast
qed

text \<open>
  C3 fails on the array that holds the empty string. The branch for strings makes a
  category of any string, also of the empty one; the branch for objects drops an object
  whose \<open>id\<close> is empty. So the category made of the empty string is dropped when the
  result is normalized again.
\<close>

theorem normalizeCategories_empty_string_not_idempotent:
  "normalizeCategories example_runtime (JArr [JStr []]) =
     Inr [JObj [(''id'', JStr []), (''name'', JStr []), (''description'', JStr ''Categoria de '')]] \<and>
   normalizeCategories example_runtime
     (JArr [JObj [(''id'', JStr []), (''name'', JStr []), (''description'', JStr ''Categoria de '')]]) =
     Inr []"
  by (simp add: normalizeCategories_def normalizeCategory_def capitalize_def example_runtime_def)

section \<open>Claims about the login\<close>

lemma js_strict_eq_string [simp]: "js_strict_eq (JStr s) x = (JStr s = x)"
  by (auto simp: js_strict_eq_def)

lemma simpleEncrypt_string: "simpleEncrypt rt (JStr p) = Inr (rev (base64 p))"
  by (simp add: simpleEncrypt_def)

lemma store_single_no_row:
  assumes "faults w = [] \<or> hd (faults w) = None"
    and "filter p (rows w ''admin_credentials'') = []"
  shows "\<exists>e w1. store_single ''admin_credentials'' p w = (Inl e, w1) \<and> err_code e = ''PGRST116''"
proof (cases "faults w")
  case Nil
  with assms(2) show ?thesis
    by (simp add: store_single_def next_fault_def)
next
  case (Cons f fs)
  with assms(1) have "f = None" by simp
  with Cons assms(2) show ?thesis
    by (simp add: store_single_def next_fault_def)
qed

text \<open>
  C4. The handler asks the store for the credentials only when the request carries a
  username and a password. When that lookup fails with an error whose message contains
  \<open>does not exist\<close> (the table is absent) or whose code is PGRST116 (no row), the
  login of \<open>admin\<close> with \<open>admin123\<close> succeeds with status 200 and the fixed token, and
  every other pair gets status 401 and no token. A table without a row for the
  username makes the lookup fail with the code PGRST116.
\<close>

theorem login_falls_back_to_default_credentials:
  "(\<forall>req w e w1.
      truthy (field (req_body req) ''username'') \<longrightarrow>
      truthy (field (req_body req) ''password'') \<longrightarrow>
      store_single ''admin_credentials''
        (\<lambda>r. filter_eq rt (field (req_body req) ''username'') (field r ''username'')) w = (Inl e, w1) \<longrightarrow>
      (js_includes (err_message e) ''does not exist'' \<or> err_code e = ''PGRST116'') \<longrightarrow>
      post_auth_login rt req w =
        (if field (req_body req) ''username'' = JStr ''admin'' \<and>
            field (req_body req) ''password'' = JStr ''admin123''
         then login_success (JStr ''admin'') else credenciais_invalidas, w1))
   \<and> (\<forall>w u. (faults w = [] \<or> hd (faults w) = None) \<longrightarrow>
         filter (\<lambda>r. filter_eq rt u (field r ''username'')) (rows w ''admin_credentials'') = [] \<longrightarrow>
         (\<exists>e w1. store_single ''admin_credentials'' (\<lambda>r. filter_eq rt u (field r ''username'')) w = (Inl e, w1)
             \<and> err_code e = ''PGRST116''))
   \<and> http_status (login_success (JStr ''admin'')) = 200
   \<and> field (payload (login_success (JStr ''admin''))) ''token'' = JStr ''authenticated_admin_token''
   \<and> http_status credenciais_invalidas = 401
   \<and> field (payload credenciais_invalidas) ''token'' = JUndef"
proof (intro conjI allI impI)
  fix req :: request and w e w1
  assume "truthy (field (req_body req) ''username'')" "truthy (field (req_body req) ''password'')"
    "store_single ''admin_credentials''
        (\<lambda>r. filter_eq rt (field (req_body req) ''username'') (field r ''username'')) w = (Inl e, w1)"
    "js_includes (err_message e) ''does not exist'' \<or> err_code e = ''PGRST116''"
  then show "post_auth_login rt req w =
        (if field (req_body req) ''username'' = JStr ''admin'' \<and>
            field (req_body req) ''password'' = JStr ''admin123''
         then login_success (JStr ''admin'') else credenciais_invalidas, w1)"
    by (simp add: post_auth_login_def Let_def)
next
  fix w :: world and u
  assume "faults w = [] \<or> hd (faults w) = None"
    "filter (\<lambda>r. filter_eq rt u (field r ''username'')) (rows w ''admin_credentials'') = []"
  then show "\<exists>e w1. store_single ''admin_credentials'' (\<lambda>r. filter_eq rt u (field r ''username'')) w = (Inl e, w1)
             \<and> err_code e = ''PGRST116''"
    by (rule store_single_no_row)
qed (simp_all add: login_success_def credenciais_invalidas_def respond_def error_body_def)

theorem login_falls_back_to_default_credentials_witness:
  "truthy (field (req_body (login_request ''admin'' ''admin123'')) ''username'') \<and>
   truthy (field (req_body (login_request ''admin'' ''admin123'')) ''password'') \<and>
   store_single ''admin_credentials''
     (\<lambda>r. filter_eq example_runtime (field (req_body (login_request ''admin'' ''admin123'')) ''username'')
            (field r ''username''))
     (example_world\<lparr>faults := [Some missing_table_error]\<rparr>) = (Inl missing_table_error, example_world) \<and>
   js_includes (err_message missing_table_error) ''does not exist'' \<and>
   post_auth_login example_runtime (login_request ''admin'' ''admin123'')
     (example_world\<lparr>faults := [Some missing_table_error]\<rparr>) = (login_success (JStr ''admin''), example_world) \<and>
   post_auth_login example_runtime (login_request ''admin'' ''admin124'')
     (example_world\<lparr>faults := [Some missing_table_error]\<rparr>) = (credenciais_invalidas, example_world) \<and>
   (faults example_world = [] \<or> hd (faults example_world) = None) \<and>
   filter (\<lambda>r. filter_eq example_runtime (JStr ''bob'') (field r ''username''))
     (rows example_world ''admin_credentials'') = [] \<and>
   (\<exists>e w1. store_single ''admin_credentials''
       (\<lambda>r. filter_eq example_runtime (JStr ''bob'') (field r ''username'')) example_world = (Inl e, w1)
       \<and> err_code e = ''PGRST116'')"
proof -
  let ?w = "example_world\<lparr>faults := [Some missing_table_error]\<rparr>"
  have w: "example_world\<lparr>faults := []\<rparr> = example_world"
    by (simp add: example_world_def)
  have h1: "truthy (field (req_body (login_request u p)) ''username'') = (u \<noteq> [])"
    and h2: "truthy (field (req_body (login_request u p)) ''password'') = (p \<noteq> [])" for u p
    by (simp_all add: login_request_def)
  have h3: "store_single ''admin_credentials''
     (\<lambda>r. filter_eq example_runtime (field (req_body (login_request ''admin'' p)) ''username'')
            (field r ''username'')) ?w = (Inl missing_table_error, example_world)" for p
    by (simp add: store_single_def next_fault_def w)
  have h4: "js_includes (err_message missing_table_error) ''does not exist''"
    by (simp add: missing_table_error_def)
  have r1: "post_auth_login example_runtime (login_request ''admin'' ''admin123'') ?w =
      (login_success (JStr ''admin''), example_world)"
    using login_falls_back_to_default_credentials [of example_runtime, THEN conjunct1, rule_format,
        of "login_request ''admin'' ''admin123''" ?w missing_table_error example_world]
      h3 [of "''admin123''"] h4
    by (simp add: h1 h2) (simp add: login_request_def)
  have r2: "post_auth_login example_runtime (login_request ''admin'' ''admin124'') ?w =
      (credenciais_invalidas, example_world)"
    using login_falls_back_to_default_credentials [of example_runtime, THEN conjunct1, rule_format,
        of "login_request ''admin'' ''admin124''" ?w missing_table_error example_world]
      h3 [of "''admin124''"] h4
    by (simp add: h1 h2) (simp add: login_request_def)
  have h5: "faults example_world = [] \<or> hd (faults example_world) = None"
    by (simp add: example_world_def)
  have h6: "filter (\<lambda>r. filter_eq example_runtime (JStr ''bob'') (field r ''username''))
     (rows example_world ''admin_credentials'') = []"
    by (simp add: example_world_def admin_row_def filter_eq_def)
  have r3: "\<exists>e w1. store_single ''admin_credentials''
       (\<lambda>r. filter_eq example_runtime (JStr ''bob'') (field r ''username'')) example_world = (Inl e, w1)
       \<and> err_code e = ''PGRST116''"
    using login_falls_back_to_default_credentials [of example_runtime, THEN conjunct2, THEN conjunct1,
        rule_format, OF h5 h6] .
  from h1 [of "''admin''" "''admin123''"] h2 [of "''admin''" "''admin123''"] h3 [of "''admin123''"] h4 r1 r2
    h5 h6 r3
  show ?thesis by simp
qed

text \<open>
  C5. When the lookup returns a credential row for the username, the login of a
  password (a non-empty string) succeeds with status 200 exactly when the password
  equals the \<open>password\<close> of the row, or the transform of the password equals the
  \<open>encrypted_password\<close> of the row; otherwise the status is 401. The transform is
  the base64 encoding of the text, reversed: \<open>admin123\<close> becomes \<open>=MjMx4WatRWY\<close>.
\<close>

theorem login_checks_plain_or_encoded_password:
  "(\<forall>req w credentials w1 u p.
      field (req_body req) ''username'' = u \<longrightarrow> truthy u \<longrightarrow>
      field (req_body req) ''password'' = JStr p \<longrightarrow> p \<noteq> [] \<longrightarrow>
      store_single ''admin_credentials'' (\<lambda>r. filter_eq rt u (field r ''username'')) w
        = (Inr credentials, w1) \<longrightarrow>
      truthy credentials \<longrightarrow>
      post_auth_login rt req w =
        (if JStr p = field credentials ''password'' \<or>
            JStr (rev (base64 p)) = field credentials ''encrypted_password''
         then login_success u else credenciais_invalidas, w1))
   \<and> (\<forall>p. simpleEncrypt rt (JStr p) = Inr (rev (base64 p)))
   \<and> rev (base64 ''admin123'') = ''=MjMx4WatRWY''
   \<and> (\<forall>u. http_status (login_success u) = 200 \<and>
           field (payload (login_success u)) ''token'' = JStr ''authenticated_admin_token'')
   \<and> http_status credenciais_invalidas = 401"
proof (intro conjI allI impI)
  fix req :: request and w credentials w1 u p
  assume "field (req_body req) ''username'' = u" "truthy u"
    "field (req_body req) ''password'' = JStr p" "p \<noteq> []"
    "store_single ''admin_credentials'' (\<lambda>r. filter_eq rt u (field r ''username'')) w
        = (Inr credentials, w1)"
    "truthy credentials"
  then show "post_auth_login rt req w =
        (if JStr p = field credentials ''password'' \<or>
            JStr (rev (base64 p)) = field credentials ''encrypted_password''
         then login_success u else credenciais_invalidas, w1)"
    by (auto simp: post_auth_login_def Let_def simpleEncrypt_string)
next
  show "rev (base64 ''admin123'') = ''=MjMx4WatRWY''"
    by (simp add: base64_digit_def base64_alphabet_def)
qed (simp_all add: simpleEncrypt_string login_success_def credenciais_invalidas_def respond_def
       error_body_def)

theorem login_checks_plain_or_encoded_password_witness:
  "field (req_body (login_request ''admin'' ''admin123'')) ''username'' = JStr ''admin'' \<and>
   truthy (JStr ''admin'') \<and>
   field (req_body (login_request ''admin'' ''admin123'')) ''password'' = JStr ''admin123'' \<and>
   ''admin123'' \<noteq> [] \<and>
   store_single ''admin_credentials'' (\<lambda>r. filter_eq example_runtime (JStr ''admin'') (field r ''username''))
     example_world = (Inr admin_row, example_world) \<and>
   truthy admin_row \<and>
   JStr ''admin123'' \<noteq> field admin_row ''password'' \<and>
   JStr (rev (base64 ''admin123'')) = field admin_row ''encrypted_password'' \<and>
   post_auth_login example_runtime (login_request ''admin'' ''admin123'') example_world =
     (login_success (JStr ''admin''), example_world)"
proof -
  have h1: "field (req_body (login_request ''admin'' ''admin123'')) ''username'' = JStr ''admin''"
    and h3: "field (req_body (login_request ''admin'' ''admin123'')) ''password'' = JStr ''admin123''"
    by (simp_all add: login_request_def)
  have h5: "store_single ''admin_credentials''
      (\<lambda>r. filter_eq example_runtime (JStr ''admin'') (field r ''username'')) example_world
      = (Inr admin_row, example_world)"
    by (simp add: store_single_def next_fault_def example_world_def filter_eq_def admin_row_def
        nullish_def)
  have h6: "truthy admin_row" by (simp add: admin_row_def)
  have h7: "JStr ''admin123'' \<noteq> field admin_row ''password''" by (simp add: admin_row_def)
  have h8: "JStr (rev (base64 ''admin123'')) = field admin_row ''encrypted_password''"
    using login_checks_plain_or_encoded_password [of example_runtime]
    by (simp add: admin_row_def)
  have "post_auth_login example_runtime (login_request ''admin'' ''admin123'') example_world =
     (login_success (JStr ''admin''), example_world)"
    using login_checks_plain_or_encoded_password [of example_runtime, THEN conjunct1, rule_format,
        OF h1 _ h3 _ h5 h6] h8
    by simp
  with h1 h3 h5 h6 h7 h8 show ?thesis by simp
qed

section \<open>Facts about the store\<close>

lemma http_status_respond [simp]: "http_status (respond st b) = st"
  by (simp add: respond_def)

lemma http_status_nao_autorizado [simp]: "http_status nao_autorizado = 401"
  by (simp add: nao_autorizado_def)

lemma next_fault_rows:
  "next_fault w = (f, w1) \<Longrightarrow> rows w1 = rows w \<and> assigned w1 = assigned w \<and> clock w1 = clock w"
  by (auto simp: next_fault_def split: list.splits)

lemma store_select_result:
  assumes "store_select tbl p w = (r, w1)"
  shows "rows w1 = rows w \<and> assigned w1 = assigned w \<and>
         (\<forall>xs. r = Inr xs \<longrightarrow> xs = filter p (rows w tbl))"
proof -
  obtain f w0 where nf: "next_fault w = (f, w0)" by (cases "next_fault w")
  with assms next_fault_rows [OF nf] show ?thesis
    by (cases f) (auto simp: store_select_def)
qed

lemma store_update_result:
  assumes "store_update tbl p changes w = (r, w1)"
  shows "assigned w1 = assigned w \<and>
         (r = None \<longrightarrow> rows w1 = (rows w)(tbl :=
             map (\<lambda>x. if p x then set_props (to_json changes) x else x) (rows w tbl))) \<and>
         (r \<noteq> None \<longrightarrow> rows w1 = rows w)"
proof -
  obtain f w0 where nf: "next_fault w = (f, w0)" by (cases "next_fault w")
  with assms next_fault_rows [OF nf] show ?thesis
    by (cases f) (auto simp: store_update_def)
qed

lemma store_delete_result:
  assumes "store_delete tbl p w = (r, w1)"
  shows "assigned w1 = assigned w \<and>
         (r = None \<longrightarrow> rows w1 = (rows w)(tbl := filter (\<lambda>x. \<not> p x) (rows w tbl))) \<and>
         (r \<noteq> None \<longrightarrow> rows w1 = rows w)"
proof -
  obtain f w0 where nf: "next_fault w = (f, w0)" by (cases "next_fault w")
  with assms next_fault_rows [OF nf] show ?thesis
    by (cases f) (auto simp: store_delete_def)
qed

lemma store_insert_result:
  assumes "store_insert tbl new w = (r, w1)"
  shows "(\<forall>stored. r = Inr stored \<longrightarrow>
            stored = assign_ids (assigned w) (map to_json new) \<and>
            rows w1 = (rows w)(tbl := rows w tbl @ stored)) \<and>
         (\<forall>e. r = Inl e \<longrightarrow> rows w1 = rows w)"
proof -
  obtain f w0 where nf: "next_fault w = (f, w0)" by (cases "next_fault w")
  with assms next_fault_rows [OF nf] show ?thesis
    by (cases f) (auto simp: store_insert_def Let_def)
qed

lemma map_if_no_match:
  "filter p xs = [] \<Longrightarrow> map (\<lambda>x. if p x then f x else x) xs = xs"
  by (induction xs) (auto split: if_splits)

lemma to_json_category:
  "to_json (JObj [(''category'', JStr ''default'')]) = JObj [(''category'', JStr ''default'')]"
  by simp

lemma set_props_category:
  "set_props (JObj [(''category'', v)]) r = spread_with r ''category'' v"
  by (simp add: set_props_def spread_with_def)

section \<open>Claims about the category delete and the bulk save of products\<close>

text \<open>
  C6, as stated, fails for the category \<open>default\<close>: its products are reassigned to
  \<open>default\<close>, the id that is deleted, so after the successful delete the product
  \<open>Agua\<close> still references the deleted category.
\<close>

theorem category_delete_default_counterexample:
  "authorized (delete_category_request ''default'') \<and>
   http_status (fst (post_categories_delete example_runtime (delete_category_request ''default'') example_world)) = 200 \<and>
   rows (snd (post_categories_delete example_runtime (delete_category_request ''default'') example_world))
     ''categories'' = [JObj [(''id'', JStr ''bebida''), (''name'', JStr ''Bebidas'')]] \<and>
   rows (snd (post_categories_delete example_runtime (delete_category_request ''default'') example_world))
     ''products'' =
       [JObj [(''id'', JNum 1), (''title'', JStr ''Suco''), (''category'', JStr ''bebida'')],
        JObj [(''id'', JNum 2), (''title'', JStr ''Agua''), (''category'', JStr ''default'')],
        JObj [(''id'', JNum 3), (''title'', JStr ''Cha''), (''category'', JStr ''bebida'')]] \<and>
   filter_eq example_runtime (JStr ''default'')
     (field (JObj [(''id'', JNum 2), (''title'', JStr ''Agua''), (''category'', JStr ''default'')]) ''category'')"
  by (simp add: post_categories_delete_def delete_category_request_def admin_request_def
      authorized_def checkAuth_def example_world_def store_select_def store_update_def
      store_delete_def next_fault_def filter_eq_def nullish_def set_props_def Let_def)

lemma post_categories_delete_run:
  assumes auth: "authorized req" and cid: "truthy (field (req_body req) ''categoryId'')"
    and run: "post_categories_delete rt req w = (resp, w')"
  shows "(http_status resp = 200 \<longrightarrow>
            rows w' ''products'' =
              map (\<lambda>r. if filter_eq rt (field (req_body req) ''categoryId'') (field r ''category'')
                       then spread_with r ''category'' (JStr ''default'') else r) (rows w ''products'') \<and>
            rows w' ''categories'' =
              filter (\<lambda>r. \<not> filter_eq rt (field (req_body req) ''categoryId'') (field r ''id''))
                (rows w ''categories'')) \<and>
         (rows w' ''categories'' \<noteq> rows w ''categories'' \<longrightarrow>
            rows w' ''products'' =
              map (\<lambda>r. if filter_eq rt (field (req_body req) ''categoryId'') (field r ''category'')
                       then spread_with r ''category'' (JStr ''default'') else r) (rows w ''products''))"
proof -
  let ?cid = "field (req_body req) ''categoryId''"
  let ?matches = "\<lambda>r. filter_eq rt ?cid (field r ''category'')"
  let ?re = "map (\<lambda>r. if ?matches r then spread_with r ''category'' (JStr ''default'') else r)
               (rows w ''products'')"
  let ?fail = "\<lambda>e. respond 500 (error_body (''Erro ao excluir categoria: '' @ err_message e))"
  show ?thesis
  proof (cases "to_primitive_throws ?cid")
    case True
    with auth cid run have "w' = w" "http_status resp = 500"
      by (auto simp: post_categories_delete_def Let_def thrown_def)
    then show ?thesis by simp
  next
  case nt: False
  obtain r1 w1 where s1: "store_select ''products'' ?matches w = (r1, w1)"
    by (cases "store_select ''products'' ?matches w")
  note f1 = store_select_result [OF s1]
  show ?thesis
  proof (cases r1)
    case (Inl e)
    with auth cid nt run s1 have "resp = ?fail e" "w' = w1"
      by (auto simp: post_categories_delete_def Let_def)
    with f1 show ?thesis by simp
  next
    case (Inr ps)
    with f1 have ps: "ps = filter ?matches (rows w ''products'')" by simp
    obtain r2 w2 where s2:
      "(if ps \<noteq> [] then store_update ''products'' ?matches (JObj [(''category'', JStr ''default'')]) w1
        else (None, w1)) = (r2, w2)"
      by (cases "if ps \<noteq> [] then store_update ''products'' ?matches (JObj [(''category'', JStr ''default'')]) w1
        else (None, w1)")
    have f2: "(r2 = None \<longrightarrow> rows w2 = (rows w)(''products'' := ?re)) \<and>
              (r2 \<noteq> None \<longrightarrow> rows w2 = rows w)"
    proof (cases "ps = []")
      case True
      with s2 have "r2 = None" "w2 = w1" by simp_all
      moreover from True ps have "?re = rows w ''products''"
        by (simp add: map_if_no_match)
      ultimately show ?thesis using f1 by (simp add: fun_upd_idem)
    next
      case False
      with s2 have "store_update ''products'' ?matches (JObj [(''category'', JStr ''default'')]) w1 = (r2, w2)"
        by simp
      from store_update_result [OF this] f1 show ?thesis
        unfolding to_json_category set_props_category by simp
    qed
    show ?thesis
    proof (cases r2)
      case (Some e)
      with auth cid nt run s1 Inr s2 have "resp = ?fail e" "w' = w2"
        by (auto simp: post_categories_delete_def Let_def)
      with f2 Some show ?thesis by simp
    next
      case None
      obtain r3 w3 where s3:
        "store_delete ''categories'' (\<lambda>r. filter_eq rt ?cid (field r ''id'')) w2 = (r3, w3)"
        by (cases "store_delete ''categories'' (\<lambda>r. filter_eq rt ?cid (field r ''id'')) w2")
      note f3 = store_delete_result [OF s3]
      show ?thesis
      proof (cases r3)
        case None
        with auth cid nt run s1 Inr s2 \<open>r2 = None\<close> s3 have "w' = w3"
          by (auto simp: post_categories_delete_def Let_def)
        with f3 f2 \<open>r2 = None\<close> None show ?thesis by simp
      next
        case (Some e)
        with auth cid nt run s1 Inr s2 \<open>r2 = None\<close> s3 have "resp = ?fail e" "w' = w3"
          by (auto simp: post_categories_delete_def Let_def)
        with f3 f2 \<open>r2 = None\<close> Some show ?thesis by simp
      qed
    qed
  qed
  qed
qed

text \<open>
  C6, amended. For an authorized delete of a category id, a successful answer (status
  200) leaves the products table with every product of that category reassigned to
  \<open>default\<close> and the other products as they were, and the categories table without
  any row of that id. Unless the id reads \<open>default\<close>, no product references the id
  afterwards. Whatever the store answers, the categories table changes only after the
  products have been reassigned.
\<close>

theorem category_delete_reassigns_products_first:
  "\<forall>req w resp w'.
     authorized req \<longrightarrow> truthy (field (req_body req) ''categoryId'') \<longrightarrow>
     post_categories_delete rt req w = (resp, w') \<longrightarrow>
     (http_status resp = 200 \<longrightarrow>
        rows w' ''products'' =
          map (\<lambda>r. if filter_eq rt (field (req_body req) ''categoryId'') (field r ''category'')
                   then spread_with r ''category'' (JStr ''default'') else r) (rows w ''products'') \<and>
        rows w' ''categories'' =
          filter (\<lambda>r. \<not> filter_eq rt (field (req_body req) ''categoryId'') (field r ''id''))
            (rows w ''categories'') \<and>
        (\<forall>r\<in>set (rows w' ''categories'').
           \<not> filter_eq rt (field (req_body req) ''categoryId'') (field r ''id'')) \<and>
        (js_to_string rt (field (req_body req) ''categoryId'') \<noteq> ''default'' \<longrightarrow>
           (\<forall>r\<in>set (rows w' ''products'').
              \<not> filter_eq rt (field (req_body req) ''categoryId'') (field r ''category''))))
     \<and> (rows w' ''categories'' \<noteq> rows w ''categories'' \<longrightarrow>
          rows w' ''products'' =
            map (\<lambda>r. if filter_eq rt (field (req_body req) ''categoryId'') (field r ''category'')
                     then spread_with r ''category'' (JStr ''default'') else r) (rows w ''products''))"
proof (intro allI impI)
  fix req :: request and w resp w'
  assume auth: "authorized req" and cid: "truthy (field (req_body req) ''categoryId'')"
    and run: "post_categories_delete rt req w = (resp, w')"
  let ?cid = "field (req_body req) ''categoryId''"
  let ?re = "map (\<lambda>r. if filter_eq rt ?cid (field r ''category'')
                   then spread_with r ''category'' (JStr ''default'') else r) (rows w ''products'')"
  note main = post_categories_delete_run [OF auth cid run]
  have none_left: "js_to_string rt ?cid \<noteq> ''default'' \<Longrightarrow>
      \<forall>r\<in>set ?re. \<not> filter_eq rt ?cid (field r ''category'')"
    by (auto simp: field_spread_with filter_eq_def)
  show "(http_status resp = 200 \<longrightarrow>
        rows w' ''products'' = ?re \<and>
        rows w' ''categories'' =
          filter (\<lambda>r. \<not> filter_eq rt ?cid (field r ''id'')) (rows w ''categories'') \<and>
        (\<forall>r\<in>set (rows w' ''categories''). \<not> filter_eq rt ?cid (field r ''id'')) \<and>
        (js_to_string rt ?cid \<noteq> ''default'' \<longrightarrow>
           (\<forall>r\<in>set (rows w' ''products''). \<not> filter_eq rt ?cid (field r ''category''))))
     \<and> (rows w' ''categories'' \<noteq> rows w ''categories'' \<longrightarrow> rows w' ''products'' = ?re)"
  proof (intro conjI impI)
    assume ok: "http_status resp = 200"
    with main show p: "rows w' ''products'' = ?re" by blast
    from ok main show c: "rows w' ''categories'' =
          filter (\<lambda>r. \<not> filter_eq rt ?cid (field r ''id'')) (rows w ''categories'')"
      by blast
    show "\<forall>r\<in>set (rows w' ''categories''). \<not> filter_eq rt ?cid (field r ''id'')"
      unfolding c by simp
    assume "js_to_string rt ?cid \<noteq> ''default''"
    then show "\<forall>r\<in>set (rows w' ''products''). \<not> filter_eq rt ?cid (field r ''category'')"
      unfolding p by (rule none_left)
  next
    assume "rows w' ''categories'' \<noteq> rows w ''categories''"
    with main show "rows w' ''products'' = ?re" by blast
  qed
qed

theorem category_delete_reassigns_products_first_witness:
  "authorized (delete_category_request ''bebida'') \<and>
   truthy (field (req_body (delete_category_request ''bebida'')) ''categoryId'') \<and>
   http_status (fst (post_categories_delete example_runtime (delete_category_request ''bebida'') example_world)) = 200 \<and>
   js_to_string example_runtime (field (req_body (delete_category_request ''bebida'')) ''categoryId'') \<noteq> ''default'' \<and>
   rows (snd (post_categories_delete example_runtime (delete_category_request ''bebida'') example_world))
     ''categories'' \<noteq> rows example_world ''categories'' \<and>
   rows (snd (post_categories_delete example_runtime (delete_category_request ''bebida'') example_world))
     ''categories'' = [JObj [(''id'', JStr ''default''), (''name'', JStr ''Geral'')]] \<and>
   rows (snd (post_categories_delete example_runtime (delete_category_request ''bebida'') example_world))
     ''products'' =
       [JObj [(''id'', JNum 1), (''title'', JStr ''Suco''), (''category'', JStr ''default'')],
        JObj [(''id'', JNum 2), (''title'', JStr ''Agua''), (''category'', JStr ''default'')],
        JObj [(''id'', JNum 3), (''title'', JStr ''Cha''), (''category'', JStr ''default'')]] \<and>
   list_all (\<lambda>r. \<not> filter_eq example_runtime (JStr ''bebida'') (field r ''category''))
     (rows (snd (post_categories_delete example_runtime (delete_category_request ''bebida'') example_world))
        ''products'')"
proof -
  let ?req = "delete_category_request ''bebida''"
  let ?run = "post_categories_delete example_runtime ?req example_world"
  have h1: "authorized ?req"
    by (simp add: delete_category_request_def admin_request_def authorized_def checkAuth_def)
  have h2: "truthy (field (req_body ?req) ''categoryId'')"
    and cid: "field (req_body ?req) ''categoryId'' = JStr ''bebida''"
    by (simp_all add: delete_category_request_def admin_request_def)
  have h3: "?run = (fst ?run, snd ?run)" by simp
  have h4: "http_status (fst ?run) = 200"
    by (simp add: post_categories_delete_def delete_category_request_def admin_request_def
      authorized_def checkAuth_def example_world_def store_select_def store_update_def
      store_delete_def next_fault_def filter_eq_def nullish_def Let_def)
  have h5: "js_to_string example_runtime (field (req_body ?req) ''categoryId'') \<noteq> ''default''"
    by (simp add: cid)
  note main = category_delete_reassigns_products_first [of example_runtime, rule_format, OF h1 h2 h3]
  from main h4 h5
  have r1: "rows (snd ?run) ''products'' =
          map (\<lambda>r. if filter_eq example_runtime (field (req_body ?req) ''categoryId'') (field r ''category'')
                   then spread_with r ''category'' (JStr ''default'') else r) (rows example_world ''products'')"
    and r2: "rows (snd ?run) ''categories'' =
          filter (\<lambda>r. \<not> filter_eq example_runtime (field (req_body ?req) ''categoryId'') (field r ''id''))
            (rows example_world ''categories'')"
    and r3: "\<forall>r\<in>set (rows (snd ?run) ''products'').
              \<not> filter_eq example_runtime (field (req_body ?req) ''categoryId'') (field r ''category'')"
    by blast+
  from r1 have p: "rows (snd ?run) ''products'' =
       [JObj [(''id'', JNum 1), (''title'', JStr ''Suco''), (''category'', JStr ''default'')],
        JObj [(''id'', JNum 2), (''title'', JStr ''Agua''), (''category'', JStr ''default'')],
        JObj [(''id'', JNum 3), (''title'', JStr ''Cha''), (''category'', JStr ''default'')]]"
    by (simp add: cid example_world_def filter_eq_def nullish_def spread_with_def)
  from r2 have c: "rows (snd ?run) ''categories'' = [JObj [(''id'', JStr ''default''), (''name'', JStr ''Geral'')]]"
    by (simp add: cid example_world_def filter_eq_def nullish_def)
  from c have n: "rows (snd ?run) ''categories'' \<noteq> rows example_world ''categories''"
    by (simp add: example_world_def)
  from r3 have l: "list_all (\<lambda>r. \<not> filter_eq example_runtime (JStr ''bebida'') (field r ''category''))
     (rows (snd ?run) ''products'')"
    by (simp add: cid list_all_iff)
  from h1 h2 h4 h5 n c p l show ?thesis by blast
qed

lemma post_products_run:
  assumes auth: "authorized req" and run: "post_products rt req w = (resp, w')"
    and ids: "\<forall>r\<in>set (rows w ''products''). filter_neq rt (JNum 0) (field r ''id'')"
  defines "new_rows \<equiv> \<lambda>np. assign_ids (assigned w) (map (\<lambda>p. to_json (product_row p)) np)"
  shows "(http_status resp = 200 \<longrightarrow>
           (\<exists>np. normalizeProducts rt (field (req_body req) ''products'') = Inr np \<and>
              rows w' ''products'' = new_rows np \<and>
              (\<forall>tbl. tbl \<noteq> ''products'' \<longrightarrow> rows w' tbl = rows w tbl))) \<and>
         (rows w' ''products'' = rows w ''products'' \<or> rows w' ''products'' = [] \<or>
          (\<exists>np. np \<noteq> [] \<and> normalizeProducts rt (field (req_body req) ''products'') = Inr np \<and>
              rows w' ''products'' = new_rows np))"
proof (cases "length_text_throws (field (req_body req) ''products'')")
  case True
  with auth run have "w' = w" "http_status resp = 500"
    by (auto simp: post_products_def thrown_def)
  then show ?thesis by simp
next
  case nt: False
  show ?thesis
proof (cases "normalizeProducts rt (field (req_body req) ''products'')")
  case (Inl e)
  with auth nt run have "w' = w" "http_status resp = 500"
    by (auto simp: post_products_def thrown_def)
  then show ?thesis by simp
next
  case (Inr np)
  let ?del = "\<lambda>r. filter_neq rt (JNum 0) (field r ''id'')"
  obtain r1 w1 where s1: "store_delete ''products'' ?del w = (r1, w1)"
    by (cases "store_delete ''products'' ?del w")
  note f1 = store_delete_result [OF s1]
  from ids have emp: "filter (\<lambda>x. \<not> ?del x) (rows w ''products'') = []"
    by (simp add: filter_empty_conv)
  show ?thesis
  proof (cases r1)
    case (Some e)
    with auth nt run Inr s1 have "w' = w1" "http_status resp = 500"
      by (auto simp: post_products_def)
    with f1 Some show ?thesis by simp
  next
    case None
    with f1 emp have w1: "rows w1 = (rows w)(''products'' := [])" "assigned w1 = assigned w"
      by simp_all
    show ?thesis
    proof (cases "np = []")
      case True
      with auth nt run Inr s1 None have "w' = w1"
        by (auto simp: post_products_def Let_def)
      with w1 True Inr show ?thesis by (simp add: new_rows_def)
    next
      case False
      obtain r2 w2 where s2: "store_insert ''products'' (map product_row np) w1 = (r2, w2)"
        by (cases "store_insert ''products'' (map product_row np) w1")
      note f2 = store_insert_result [OF s2]
      show ?thesis
      proof (cases r2)
        case (Inl e)
        with auth nt run \<open>normalizeProducts rt (field (req_body req) ''products'') = Inr np\<close>
          s1 None False s2
        have "w' = w2" "http_status resp = 500"
          by (auto simp: post_products_def Let_def)
        with f2 Inl w1 show ?thesis by simp
      next
        case (Inr stored)
        with f2 w1 have rows2: "rows w2 = (rows w)(''products'' := new_rows np)"
          by (simp add: comp_def new_rows_def)
        from auth nt run \<open>normalizeProducts rt (field (req_body req) ''products'') = Inr np\<close>
          s1 None False s2 Inr
        have "w' = w2" by (auto simp: post_products_def Let_def)
        with rows2 False \<open>normalizeProducts rt (field (req_body req) ''products'') = Inr np\<close>
        show ?thesis by simp
      qed
    qed
  qed
qed
qed

text \<open>
  C7. For an authorized bulk save on a products table whose rows all carry a
  store-assigned id (none is 0 or null, so the filter \<open>id <> 0\<close> of the delete takes
  them all), a successful answer (status 200) leaves the products table with exactly
  the rows made of the normalized products of the request, each with the id the store
  assigns, and no other table changed. Whatever the store answers, the table is
  afterwards as it was, or empty, or exactly those rows: the delete comes first, and the
  insert is made only for a non-empty normalized set.
\<close>

theorem bulk_product_save_replaces_table:
  "\<forall>req w resp w'.
     authorized req \<longrightarrow> post_products rt req w = (resp, w') \<longrightarrow>
     (\<forall>r\<in>set (rows w ''products''). filter_neq rt (JNum 0) (field r ''id'')) \<longrightarrow>
     (http_status resp = 200 \<longrightarrow>
        (\<exists>np. normalizeProducts rt (field (req_body req) ''products'') = Inr np \<and>
           rows w' ''products'' = assign_ids (assigned w) (map (\<lambda>p. to_json (product_row p)) np) \<and>
           (\<forall>tbl. tbl \<noteq> ''products'' \<longrightarrow> rows w' tbl = rows w tbl)))
     \<and> (rows w' ''products'' = rows w ''products'' \<or> rows w' ''products'' = [] \<or>
          (\<exists>np. np \<noteq> [] \<and> normalizeProducts rt (field (req_body req) ''products'') = Inr np \<and>
             rows w' ''products'' = assign_ids (assigned w) (map (\<lambda>p. to_json (product_row p)) np)))"
proof (intro allI impI)
  fix req :: request and w resp w'
  assume auth: "authorized req" and run: "post_products rt req w = (resp, w')"
    and ids: "\<forall>r\<in>set (rows w ''products''). filter_neq rt (JNum 0) (field r ''id'')"
  from post_products_run [OF auth run ids]
  show "(http_status resp = 200 \<longrightarrow>
        (\<exists>np. normalizeProducts rt (field (req_body req) ''products'') = Inr np \<and>
           rows w' ''products'' = assign_ids (assigned w) (map (\<lambda>p. to_json (product_row p)) np) \<and>
           (\<forall>tbl. tbl \<noteq> ''products'' \<longrightarrow> rows w' tbl = rows w tbl)))
     \<and> (rows w' ''products'' = rows w ''products'' \<or> rows w' ''products'' = [] \<or>
          (\<exists>np. np \<noteq> [] \<and> normalizeProducts rt (field (req_body req) ''products'') = Inr np \<and>
             rows w' ''products'' = assign_ids (assigned w) (map (\<lambda>p. to_json (product_row p)) np)))"
    .
qed

theorem bulk_product_save_replaces_table_witness:
  "authorized save_products_request \<and>
   list_all (\<lambda>r. filter_neq example_runtime (JNum 0) (field r ''id'')) (rows example_world ''products'') \<and>
   http_status (fst (post_products example_runtime save_products_request example_world)) = 200 \<and>
   rows (snd (post_products example_runtime save_products_request example_world)) ''products'' =
     [JObj [(''sabores'', JArr [sabor_entry ''Red'' 5]), (''display_order'', JNum 0), (''id'', JNum 4)],
      JObj [(''title'', JStr ''Suco''),
            (''sabores'', JArr [sabor_entry ''Sem nome'' 5, sabor_entry ''Uva'' 2,
                                sabor_entry ''Limao'' 0, sabor_entry ''Caju'' 0]),
            (''display_order'', JNum 0), (''id'', JNum 5)]] \<and>
   rows (snd (post_products example_runtime save_products_request example_world)) ''categories'' =
     rows example_world ''categories''"
proof -
  let ?run = "post_products example_runtime save_products_request example_world"
  have h1: "authorized save_products_request"
    by (simp add: save_products_request_def admin_request_def authorized_def checkAuth_def)
  have h2: "?run = (fst ?run, snd ?run)" by simp
  have n0: "number_to_string example_runtime 0 = ''0''"
    and n1: "number_to_string example_runtime 1 = ''1''"
    and n2: "number_to_string example_runtime 2 = ''2''"
    and n3: "number_to_string example_runtime 3 = ''3''"
    by (simp_all add: example_runtime_def)
  have h3: "\<forall>r\<in>set (rows example_world ''products''). filter_neq example_runtime (JNum 0) (field r ''id'')"
    by (simp add: example_world_def filter_neq_def nullish_def n0 n1 n2 n3)
  have norm: "normalizeProducts example_runtime (field (req_body save_products_request) ''products'') =
      Inr [JObj [(''colors'', JArr red_colors), (''sabores'', JArr [sabor_entry ''Red'' 5])],
           JObj [(''title'', JStr ''Suco''),
                 (''sabores'', JArr [sabor_entry ''Sem nome'' 5, sabor_entry ''Uva'' 2,
                                     sabor_entry ''Limao'' 0, sabor_entry ''Caju'' 0])]]"
    by (simp add: save_products_request_def admin_request_def example_products_normalized)
  have nt: "\<not> length_text_throws (field (req_body save_products_request) ''products'')"
    by (simp add: save_products_request_def admin_request_def length_text_throws_def)
  have h4: "http_status (fst ?run) = 200"
    by (simp add: post_products_def h1 nt norm store_delete_def store_insert_def next_fault_def
        example_world_def Let_def)
  note main = bulk_product_save_replaces_table [of example_runtime, rule_format, OF h1 h2 h3 [rule_format]]
  from main h4 norm
  have r1: "rows (snd ?run) ''products'' = assign_ids (assigned example_world)
      (map (\<lambda>p. to_json (product_row p))
         [JObj [(''colors'', JArr red_colors), (''sabores'', JArr [sabor_entry ''Red'' 5])],
           JObj [(''title'', JStr ''Suco''),
                 (''sabores'', JArr [sabor_entry ''Sem nome'' 5, sabor_entry ''Uva'' 2,
                                     sabor_entry ''Limao'' 0, sabor_entry ''Caju'' 0])]])"
    and r2: "rows (snd ?run) ''categories'' = rows example_world ''categories''"
    by auto
  from r1 have p: "rows (snd ?run) ''products'' =
     [JObj [(''sabores'', JArr [sabor_entry ''Red'' 5]), (''display_order'', JNum 0), (''id'', JNum 4)],
      JObj [(''title'', JStr ''Suco''),
            (''sabores'', JArr [sabor_entry ''Sem nome'' 5, sabor_entry ''Uva'' 2,
                                sabor_entry ''Limao'' 0, sabor_entry ''Caju'' 0]),
            (''display_order'', JNum 0), (''id'', JNum 5)]]"
    by (simp add: example_world_def product_row_def sabor_entry_def js_or_def)
  from h1 h3 h4 p r2 show ?thesis
    unfolding list_all_iff by blast
qed

section \<open>Store errors in the handlers\<close>

lemma consumed_faults_append:
  "faults w = c @ faults w' \<Longrightarrow> consumed_faults w w' = c"
  by (simp add: consumed_faults_def)

lemma consumed_faults_same [simp]: "consumed_faults w w = []"
  by (simp add: consumed_faults_def)

lemma next_fault_consumed:
  assumes "next_fault w = (f, w1)"
  shows "\<exists>c. faults w = c @ faults w1 \<and> (\<forall>e. Some e \<in> set c \<longrightarrow> f = Some e)"
proof (cases "faults w")
  case Nil
  with assms have "faults w = [] @ faults w1" by (auto simp: next_fault_def)
  then show ?thesis by fastforce
next
  case (Cons x xs)
  with assms have "faults w = [x] @ faults w1" "f = x" by (auto simp: next_fault_def)
  then show ?thesis by fastforce
qed

lemma store_insert_consumed:
  assumes "store_insert tbl new w = (r, w1)"
  shows "\<exists>c. faults w = c @ faults w1 \<and> (\<forall>e. Some e \<in> set c \<longrightarrow> r = Inl e)"
proof -
  obtain f w0 where nf: "next_fault w = (f, w0)" by (cases "next_fault w")
  from next_fault_consumed [OF nf] obtain c where
    c: "faults w = c @ faults w0" "\<forall>e. Some e \<in> set c \<longrightarrow> f = Some e" by blast
  from assms nf have "faults w1 = faults w0" "\<forall>e. f = Some e \<longrightarrow> r = Inl e"
    by (cases f; auto simp: store_insert_def Let_def)+
  with c show ?thesis by fastforce
qed

lemma store_select_consumed:
  assumes "store_select tbl p w = (r, w1)"
  shows "\<exists>c. faults w = c @ faults w1 \<and> (\<forall>e. Some e \<in> set c \<longrightarrow> r = Inl e)"
proof -
  obtain f w0 where nf: "next_fault w = (f, w0)" by (cases "next_fault w")
  from next_fault_consumed [OF nf] obtain c where
    c: "faults w = c @ faults w0" "\<forall>e. Some e \<in> set c \<longrightarrow> f = Some e" by blast
  from assms nf have "faults w1 = faults w0" "\<forall>e. f = Some e \<longrightarrow> r = Inl e"
    by (cases f; auto simp: store_select_def)+
  with c show ?thesis by fastforce
qed

lemma store_update_consumed:
  assumes "store_update tbl p changes w = (r, w1)"
  shows "\<exists>c. faults w = c @ faults w1 \<and> (\<forall>e. Some e \<in> set c \<longrightarrow> r = Some e)"
proof -
  obtain f w0 where nf: "next_fault w = (f, w0)" by (cases "next_fault w")
  from next_fault_consumed [OF nf] obtain c where
    c: "faults w = c @ faults w0" "\<forall>e. Some e \<in> set c \<longrightarrow> f = Some e" by blast
  from assms nf have "faults w1 = faults w0" "\<forall>e. f = Some e \<longrightarrow> r = Some e"
    by (cases f; auto simp: store_update_def)+
  with c show ?thesis by fastforce
qed

lemma store_delete_consumed:
  assumes "store_delete tbl p w = (r, w1)"
  shows "\<exists>c. faults w = c @ faults w1 \<and> (\<forall>e. Some e \<in> set c \<longrightarrow> r = Some e)"
proof -
  obtain f w0 where nf: "next_fault w = (f, w0)" by (cases "next_fault w")
  from next_fault_consumed [OF nf] obtain c where
    c: "faults w = c @ faults w0" "\<forall>e. Some e \<in> set c \<longrightarrow> f = Some e" by blast
  from assms nf have "faults w1 = faults w0" "\<forall>e. f = Some e \<longrightarrow> r = Some e"
    by (cases f; auto simp: store_delete_def)+
  with c show ?thesis by fastforce
qed

lemma store_upsert_consumed:
  assumes "store_upsert rt tbl new w = (r, w1)"
  shows "\<exists>c. faults w = c @ faults w1 \<and> (\<forall>e. Some e \<in> set c \<longrightarrow> r = Some e)"
proof -
  obtain f w0 where nf: "next_fault w = (f, w0)" by (cases "next_fault w")
  from next_fault_consumed [OF nf] obtain c where
    c: "faults w = c @ faults w0" "\<forall>e. Some e \<in> set c \<longrightarrow> f = Some e" by blast
  from assms nf have "faults w1 = faults w0" "\<forall>e. f = Some e \<longrightarrow> r = Some e"
    by (cases f; auto simp: store_upsert_def)+
  with c show ?thesis by fastforce
qed

lemma next_fault_one:
  assumes "next_fault w = (f, w1)"
  shows "\<exists>c. faults w = c @ faults w1 \<and> (c = [] \<or> c = [f])"
proof (cases "faults w")
  case Nil
  with assms have "faults w = [] @ faults w1" by (auto simp: next_fault_def)
  then show ?thesis by blast
next
  case (Cons x xs)
  with assms have "faults w = [f] @ faults w1" by (auto simp: next_fault_def)
  then show ?thesis by blast
qed

lemma store_delete_one:
  assumes "store_delete tbl p w = (r, w1)"
  shows "\<exists>c. faults w = c @ faults w1 \<and> (c = [] \<or> c = [r])"
proof -
  obtain f w0 where nf: "next_fault w = (f, w0)" by (cases "next_fault w")
  from assms nf have "faults w1 = faults w0" "r = f"
    by (cases f; auto simp: store_delete_def)+
  with next_fault_one [OF nf] show ?thesis by simp
qed

lemma store_upsert_one:
  assumes "store_upsert rt tbl new w = (r, w1)"
  shows "\<exists>c. faults w = c @ faults w1 \<and> (c = [] \<or> c = [r])"
proof -
  obtain f w0 where nf: "next_fault w = (f, w0)" by (cases "next_fault w")
  from assms nf have "faults w1 = faults w0" "r = f"
    by (cases f; auto simp: store_upsert_def)+
  with next_fault_one [OF nf] show ?thesis by simp
qed

lemma consumed_two:
  assumes "faults w = c1 @ faults w1" "faults w1 = c2 @ faults w2"
  shows "consumed_faults w w2 = c1 @ c2"
  using assms by (intro consumed_faults_append) simp

lemma post_orders_store_error:
  assumes run: "post_orders rt req w = (resp, w')" and e: "Some e \<in> set (consumed_faults w w')"
  shows "resp = respond 500 (error_body (''Erro ao salvar pedido: '' @ err_message e))"
proof -
  let ?orderData = "field (req_body req) ''orderData''"
  let ?orderToSave = "JObj
               [(''date'', field ?orderData ''date''),
                (''time'', field ?orderData ''time''),
                (''customer_name'', field ?orderData ''customerName''),
                (''customer_phone'', field ?orderData ''customerPhone''),
                (''items'', if isArray (field ?orderData ''items'') then field ?orderData ''items''
                            else JArr []),
                (''total'', js_or (field ?orderData ''total'') (JNum 0)),
                (''payment_method'', field ?orderData ''paymentMethod''),
                (''status'', js_or (field ?orderData ''status'') (JStr ''pending''))]"
  show ?thesis
  proof (cases "\<not> truthy ?orderData \<or> \<not> truthy (field ?orderData ''customerName'')")
    case True
    with run have "w' = w" by (auto simp: post_orders_def Let_def)
    with e show ?thesis by simp
  next
    case False
    obtain r1 w1 where s1: "store_insert ''orders'' [?orderToSave] w = (r1, w1)"
      by (cases "store_insert ''orders'' [?orderToSave] w")
    from store_insert_consumed [OF s1] obtain c where
      c: "faults w = c @ faults w1" "\<forall>e. Some e \<in> set c \<longrightarrow> r1 = Inl e" by blast
    from run False s1 have w': "w' = w1"
      by (auto simp: post_orders_def Let_def split: sum.splits list.splits)
    with c e have "r1 = Inl e" by (simp add: consumed_faults_append)
    with run False s1 show ?thesis
      by (auto simp: post_orders_def Let_def)
  qed
qed

lemma post_orders_update_status_store_error:
  assumes run: "post_orders_update_status rt req w = (resp, w')"
    and e: "Some e \<in> set (consumed_faults w w')"
  shows "resp = respond 500 (error_body (''Erro ao atualizar status do pedido: '' @ err_message e))"
proof -
  let ?orderId = "field (req_body req) ''orderId''"
  let ?st = "field (req_body req) ''status''"
  show ?thesis
  proof (cases "to_primitive_throws ?orderId \<or> to_primitive_throws ?st \<or>
                \<not> truthy ?orderId \<or> \<not> truthy ?st")
    case True
    with run have "w' = w"
      by (auto simp: post_orders_update_status_def Let_def split: if_splits)
    with e show ?thesis by simp
  next
    case False
    obtain r1 w1 where s1: "store_update ''orders'' (\<lambda>r. filter_eq rt ?orderId (field r ''id''))
                (JObj [(''status'', ?st), (''updated_at'', JStr (clock w))]) w = (r1, w1)"
      by (cases "store_update ''orders'' (\<lambda>r. filter_eq rt ?orderId (field r ''id''))
                (JObj [(''status'', ?st), (''updated_at'', JStr (clock w))]) w")
    from store_update_consumed [OF s1] obtain c where
      c: "faults w = c @ faults w1" "\<forall>e. Some e \<in> set c \<longrightarrow> r1 = Some e" by blast
    from run False s1 have w': "w' = w1"
      by (auto simp: post_orders_update_status_def Let_def split: option.splits)
    with c e have "r1 = Some e" by (simp add: consumed_faults_append)
    with run False s1 show ?thesis
      by (auto simp: post_orders_update_status_def Let_def)
  qed
qed

lemma post_categories_add_store_error:
  assumes run: "post_categories_add rt req w = (resp, w')"
    and e: "Some e \<in> set (consumed_faults w w')"
  shows "resp = respond 500 (error_body (''Erro ao adicionar categoria: '' @ err_message e))"
proof -
  let ?category = "field (req_body req) ''category''"
  let ?row = "JObj [(''id'', field ?category ''id''),
                          (''name'', field ?category ''name''),
                          (''description'',
                             js_or (field ?category ''description'')
                               (JStr (''Categoria de '' @ js_to_string rt (field ?category ''name''))))]"
  show ?thesis
  proof (cases "\<not> authorized req \<or> \<not> truthy ?category \<or> \<not> truthy (field ?category ''id'')
                \<or> \<not> truthy (field ?category ''name'')
                \<or> to_primitive_throws (field ?category ''name'')
                \<or> to_primitive_throws (field ?category ''id'')")
    case True
    with run have "w' = w" by (auto simp: post_categories_add_def Let_def split: if_splits)
    with e show ?thesis by simp
  next
    case False
    obtain r1 w1 where s1: "store_upsert rt ''categories'' [?row] w = (r1, w1)"
      by (cases "store_upsert rt ''categories'' [?row] w")
    from store_upsert_consumed [OF s1] obtain c where
      c: "faults w = c @ faults w1" "\<forall>e. Some e \<in> set c \<longrightarrow> r1 = Some e" by blast
    from run False s1 have w': "w' = w1"
      by (auto simp: post_categories_add_def Let_def split: option.splits)
    with c e have "r1 = Some e" by (simp add: consumed_faults_append)
    with run False s1 show ?thesis
      by (auto simp: post_categories_add_def Let_def)
  qed
qed

lemma post_products_store_error:
  assumes run: "post_products rt req w = (resp, w')" and e: "Some e \<in> set (consumed_faults w w')"
  shows "resp = respond 500 (error_body (''Erro ao salvar produtos: '' @ err_message e))"
proof (cases "authorized req \<and> \<not> length_text_throws (field (req_body req) ''products'')")
  case False
  with run have "w' = w" by (auto simp: post_products_def split: if_splits)
  with e show ?thesis by simp
next
  case auth: True
  show ?thesis
  proof (cases "normalizeProducts rt (field (req_body req) ''products'')")
    case (Inl x)
    with run auth have "w' = w" by (simp add: post_products_def)
    with e show ?thesis by simp
  next
    case (Inr np)
    let ?del = "\<lambda>r. filter_neq rt (JNum 0) (field r ''id'')"
    obtain r1 w1 where s1: "store_delete ''products'' ?del w = (r1, w1)"
      by (cases "store_delete ''products'' ?del w")
    from store_delete_consumed [OF s1] obtain c1 where
      c1: "faults w = c1 @ faults w1" "\<forall>e. Some e \<in> set c1 \<longrightarrow> r1 = Some e" by blast
    show ?thesis
    proof (cases r1)
      case (Some x)
      with run auth Inr s1 have "w' = w1"
        "resp = respond 500 (error_body (''Erro ao salvar produtos: '' @ err_message x))"
        by (simp_all add: post_products_def)
      with c1 e Some show ?thesis by (auto simp: consumed_faults_append)
    next
      case None
      with c1 have no1: "\<forall>e. Some e \<notin> set c1" by auto
      show ?thesis
      proof (cases "np = []")
        case True
        with run auth Inr s1 None have "w' = w1" by (simp add: post_products_def Let_def)
        with c1 e no1 show ?thesis by (simp add: consumed_faults_append)
      next
        case False
        obtain r2 w2 where s2: "store_insert ''products'' (map product_row np) w1 = (r2, w2)"
          by (cases "store_insert ''products'' (map product_row np) w1")
        from store_insert_consumed [OF s2] obtain c2 where
          c2: "faults w1 = c2 @ faults w2" "\<forall>e. Some e \<in> set c2 \<longrightarrow> r2 = Inl e" by blast
        from run auth Inr s1 None False s2 have w': "w' = w2"
          by (auto simp: post_products_def Let_def split: sum.splits)
        with e consumed_two [OF c1(1) c2(1)] no1 have "Some e \<in> set c2" by simp
        with c2 have "r2 = Inl e" by simp
        with run auth Inr s1 None False s2 show ?thesis
          by (simp add: post_products_def Let_def)
      qed
    qed
  qed
qed

lemma post_categories_delete_store_error:
  assumes run: "post_categories_delete rt req w = (resp, w')"
    and e: "Some e \<in> set (consumed_faults w w')"
  shows "resp = respond 500 (error_body (''Erro ao excluir categoria: '' @ err_message e))"
proof (cases "authorized req \<and> truthy (field (req_body req) ''categoryId'') \<and>
              \<not> to_primitive_throws (field (req_body req) ''categoryId'')")
  case False
  with run have "w' = w" by (auto simp: post_categories_delete_def Let_def split: if_splits)
  with e show ?thesis by simp
next
  case ok: True
  let ?cid = "field (req_body req) ''categoryId''"
  let ?matches = "\<lambda>r. filter_eq rt ?cid (field r ''category'')"
  let ?fail = "\<lambda>e. respond 500 (error_body (''Erro ao excluir categoria: '' @ err_message e))"
  obtain r1 w1 where s1: "store_select ''products'' ?matches w = (r1, w1)"
    by (cases "store_select ''products'' ?matches w")
  from store_select_consumed [OF s1] obtain c1 where
    c1: "faults w = c1 @ faults w1" "\<forall>e. Some e \<in> set c1 \<longrightarrow> r1 = Inl e" by blast
  show ?thesis
  proof (cases r1)
    case (Inl x)
    with run ok s1 have "w' = w1" "resp = ?fail x"
      by (auto simp: post_categories_delete_def Let_def)
    with c1 e Inl show ?thesis by (auto simp: consumed_faults_append)
  next
    case (Inr ps)
    with c1 have no1: "\<forall>e. Some e \<notin> set c1" by auto
    obtain r2 w2 where s2:
      "(if ps \<noteq> [] then store_update ''products'' ?matches (JObj [(''category'', JStr ''default'')]) w1
        else (None, w1)) = (r2, w2)"
      by (cases "if ps \<noteq> [] then store_update ''products'' ?matches (JObj [(''category'', JStr ''default'')]) w1
        else (None, w1)")
    have "\<exists>c. faults w1 = c @ faults w2 \<and> (\<forall>e. Some e \<in> set c \<longrightarrow> r2 = Some e)"
    proof (cases "ps = []")
      case True
      with s2 have "faults w1 = [] @ faults w2" by simp
      then show ?thesis by fastforce
    next
      case False
      with s2 store_update_consumed show ?thesis by simp
    qed
    then obtain c2 where
      c2: "faults w1 = c2 @ faults w2" "\<forall>e. Some e \<in> set c2 \<longrightarrow> r2 = Some e" by blast
    show ?thesis
    proof (cases r2)
      case (Some x)
      with run ok s1 Inr s2 have "w' = w2" "resp = ?fail x"
        by (auto simp: post_categories_delete_def Let_def)
      with e consumed_two [OF c1(1) c2(1)] no1 c2 Some show ?thesis by auto
    next
      case None
      with c2 have no2: "\<forall>e. Some e \<notin> set c2" by auto
      obtain r3 w3 where s3:
        "store_delete ''categories'' (\<lambda>r. filter_eq rt ?cid (field r ''id'')) w2 = (r3, w3)"
        by (cases "store_delete ''categories'' (\<lambda>r. filter_eq rt ?cid (field r ''id'')) w2")
      from store_delete_consumed [OF s3] obtain c3 where
        c3: "faults w2 = c3 @ faults w3" "\<forall>e. Some e \<in> set c3 \<longrightarrow> r3 = Some e" by blast
      from run ok s1 Inr s2 None s3 have w': "w' = w3"
        by (auto simp: post_categories_delete_def Let_def split: option.splits)
      from c1 c2 c3 have "faults w = (c1 @ c2 @ c3) @ faults w3" by simp
      then have "consumed_faults w w3 = c1 @ c2 @ c3" by (rule consumed_faults_append)
      with e w' no1 no2 have "Some e \<in> set c3" by simp
      with c3 have "r3 = Some e" by simp
      with run ok s1 Inr s2 None s3 show ?thesis
        by (auto simp: post_categories_delete_def Let_def)
    qed
  qed
qed

lemma post_categories_store_error:
  assumes run: "post_categories rt req w = (resp, w')"
  shows "(\<forall>e. Some e \<in> set (consumed_faults w w') \<longrightarrow>
              \<not> js_includes (err_message e) ''No rows found'' \<longrightarrow>
              resp = respond 500 (error_body (''Erro ao salvar categorias: '' @ err_message e))) \<and>
         (\<forall>f e. consumed_faults w w' = [f, Some e] \<longrightarrow>
              resp = respond 500 (error_body (''Erro ao salvar categorias: '' @ err_message e))) \<and>
         (\<forall>e. consumed_faults w w' = [Some e, None] \<longrightarrow>
              js_includes (err_message e) ''No rows found'' \<longrightarrow> http_status resp = 200)"
proof (cases "authorized req \<and> \<not> length_text_throws (field (req_body req) ''categories'')")
  case False
  with run have "w' = w" by (auto simp: post_categories_def split: if_splits)
  then show ?thesis by simp
next
  case auth: True
  show ?thesis
  proof (cases "normalizeCategories rt (field (req_body req) ''categories'')")
    case (Inl x)
    with run auth have "w' = w" by (simp add: post_categories_def)
    then show ?thesis by simp
  next
    case (Inr nc)
    show ?thesis
    proof (cases "nc = [] \<or> list_ex (\<lambda>cat. to_primitive_throws (field cat ''id'')) nc")
      case True
      with run auth Inr have "w' = w" by (auto simp: post_categories_def split: if_splits)
      then show ?thesis by simp
    next
      case False
      let ?ids = "map (\<lambda>cat. field cat ''id'') nc"
      let ?del = "\<lambda>r. \<not> in_list rt (not_in_filter rt ?ids) (field r ''id'')"
      let ?rows = "map (\<lambda>category. JObj [(''id'', field category ''id''),
                                                        (''name'', field category ''name''),
                                                        (''description'', field category ''description'')])
                                    nc"
      let ?fail = "\<lambda>e. respond 500 (error_body (''Erro ao salvar categorias: '' @ err_message e))"
      obtain r1 w1 where s1: "store_delete ''categories'' ?del w = (r1, w1)"
        by (cases "store_delete ''categories'' ?del w")
      from store_delete_one [OF s1] obtain c1 where
        c1: "faults w = c1 @ faults w1" "c1 = [] \<or> c1 = [r1]" by blast
      show ?thesis
      proof (cases "\<exists>x. r1 = Some x \<and> \<not> js_includes (err_message x) ''No rows found''")
        case True
        then obtain x where x: "r1 = Some x" "\<not> js_includes (err_message x) ''No rows found''"
          by blast
        with run auth Inr False s1 have "w' = w1" "resp = ?fail x"
          by (simp_all add: post_categories_def Let_def)
        moreover from c1(1) have "consumed_faults w w1 = c1" by (rule consumed_faults_append)
        ultimately show ?thesis using c1(2) x by auto
      next
        case ignorable: False
        then have thrown: "(case r1 of
                             Some e \<Rightarrow> if js_includes (err_message e) ''No rows found'' then None else Some e
                           | None \<Rightarrow> None) = None"
          by (cases r1) auto
        obtain r2 w2 where s2: "store_upsert rt ''categories'' ?rows w1 = (r2, w2)"
          by (cases "store_upsert rt ''categories'' ?rows w1")
        from store_upsert_one [OF s2] obtain c2 where
          c2: "faults w1 = c2 @ faults w2" "c2 = [] \<or> c2 = [r2]" by blast
        from run auth Inr False s1 thrown s2 have w': "w' = w2"
          by (auto simp: post_categories_def Let_def split: option.splits)
        from run auth Inr False s1 thrown s2
        have resp: "r2 = Some e \<Longrightarrow> resp = ?fail e" "r2 = None \<Longrightarrow> http_status resp = 200" for e
          by (auto simp: post_categories_def Let_def)
        have cons: "consumed_faults w w' = c1 @ c2"
          unfolding w' using c1(1) c2(1) by (rule consumed_two)
        show ?thesis
        proof (intro conjI allI impI)
          fix e
          assume "Some e \<in> set (consumed_faults w w')"
            and "\<not> js_includes (err_message e) ''No rows found''"
          with cons c1(2) c2(2) ignorable have "r2 = Some e" by auto
          then show "resp = ?fail e" by (rule resp(1))
        next
          fix f e
          assume "consumed_faults w w' = [f, Some e]"
          with cons c1(2) c2(2) have "r2 = Some e" by auto
          then show "resp = ?fail e" by (rule resp(1))
        next
          fix e
          assume "consumed_faults w w' = [Some e, None]"
          with cons c1(2) c2(2) have "r2 = None" by auto
          then show "http_status resp = 200" by (rule resp(2))
        qed
      qed
    qed
  qed
qed

lemma get_products_status: "http_status (fst (get_products rt w)) = 200"
  by (simp add: get_products_def split: prod.splits sum.splits)

lemma get_categories_status: "http_status (fst (get_categories rt w)) = 200"
  by (simp add: get_categories_def split: prod.splits sum.splits)

lemma get_orders_status: "http_status (fst (get_orders rt w)) = 200"
  by (simp add: get_orders_def split: prod.splits sum.splits)

lemma get_products_store_error:
  "faults w = Some e # fs \<Longrightarrow> \<not> js_includes (err_message e) ''does not exist'' \<Longrightarrow>
   get_products rt w = (respond 200 (JObj [(''products'', JArr [])]), w\<lparr>faults := fs\<rparr>)"
  by (simp add: get_products_def store_select_ordered_def next_fault_def)

lemma get_categories_store_error:
  "faults w = Some e # fs \<Longrightarrow> \<not> js_includes (err_message e) ''does not exist'' \<Longrightarrow>
   get_categories rt w = (respond 200 (JObj [(''categories'', JArr [])]), w\<lparr>faults := fs\<rparr>)"
  by (simp add: get_categories_def store_select_ordered_def next_fault_def)

lemma get_orders_store_error:
  "faults w = Some e # fs \<Longrightarrow>
   get_orders rt w = (respond 200 (JObj [(''orders'', JArr [])]), w\<lparr>faults := fs\<rparr>)"
  by (simp add: get_orders_def store_select_ordered_def next_fault_def)

lemma post_auth_login_store_error:
  "truthy (field (req_body req) ''username'') \<Longrightarrow> truthy (field (req_body req) ''password'') \<Longrightarrow>
   faults w = Some e # fs \<Longrightarrow> \<not> js_includes (err_message e) ''does not exist'' \<Longrightarrow>
   err_code e \<noteq> ''PGRST116'' \<Longrightarrow>
   post_auth_login rt req w = (respond 401 (error_body ''Erro no sistema''), w\<lparr>faults := fs\<rparr>)"
  by (simp add: post_auth_login_def store_single_def next_fault_def Let_def)

section \<open>The claim about store errors\<close>

text \<open>
  C8, as stated, fails for the read handlers: GET /api/products answers a store error
  that is not of the missing-table class with status 200 and an empty list.
\<close>

theorem store_error_served_as_empty_list_counterexample:
  "\<not> js_includes (err_message connection_error) ''does not exist'' \<and>
   get_products example_runtime (example_world\<lparr>faults := [Some connection_error]\<rparr>) =
     (respond 200 (JObj [(''products'', JArr [])]), example_world)"
  by (simp add: get_products_def store_select_ordered_def next_fault_def connection_error_def
      example_world_def)

text \<open>
  C8, amended. In each of the six handlers that write (POST /api/orders,
  /api/orders/update-status, /api/products, /api/categories/add, /api/categories/delete
  and /api/categories), a store call that fails ends the request with status 500 and
  the message of the error after the fixed prefix of the handler. The one exception is
  in POST /api/categories: a failure of its first call, the delete, whose message
  contains \<open>No rows found\<close> is passed over, and the request goes on to the upsert,
  whose failure ends it as every other. The three handlers that read (GET
  /api/products, /api/categories, /api/orders) answer with status 200 whatever the
  store does, and with an empty list for a store error outside the missing-table class.
  The login answers a store error outside the missing-table and no-row classes with
  status 401.
\<close>

theorem write_handlers_surface_store_errors:
  "(\<forall>req w resp w' e.
      post_orders rt req w = (resp, w') \<longrightarrow> Some e \<in> set (consumed_faults w w') \<longrightarrow>
      resp = respond 500 (error_body (''Erro ao salvar pedido: '' @ err_message e)))
   \<and> (\<forall>req w resp w' e.
      post_orders_update_status rt req w = (resp, w') \<longrightarrow> Some e \<in> set (consumed_faults w w') \<longrightarrow>
      resp = respond 500 (error_body (''Erro ao atualizar status do pedido: '' @ err_message e)))
   \<and> (\<forall>req w resp w' e.
      post_products rt req w = (resp, w') \<longrightarrow> Some e \<in> set (consumed_faults w w') \<longrightarrow>
      resp = respond 500 (error_body (''Erro ao salvar produtos: '' @ err_message e)))
   \<and> (\<forall>req w resp w' e.
      post_categories_add rt req w = (resp, w') \<longrightarrow> Some e \<in> set (consumed_faults w w') \<longrightarrow>
      resp = respond 500 (error_body (''Erro ao adicionar categoria: '' @ err_message e)))
   \<and> (\<forall>req w resp w' e.
      post_categories_delete rt req w = (resp, w') \<longrightarrow> Some e \<in> set (consumed_faults w w') \<longrightarrow>
      resp = respond 500 (error_body (''Erro ao excluir categoria: '' @ err_message e)))
   \<and> (\<forall>req w resp w' e.
      post_categories rt req w = (resp, w') \<longrightarrow> Some e \<in> set (consumed_faults w w') \<longrightarrow>
      \<not> js_includes (err_message e) ''No rows found'' \<longrightarrow>
      resp = respond 500 (error_body (''Erro ao salvar categorias: '' @ err_message e)))
   \<and> (\<forall>req w resp w' f e.
      post_categories rt req w = (resp, w') \<longrightarrow> consumed_faults w w' = [f, Some e] \<longrightarrow>
      resp = respond 500 (error_body (''Erro ao salvar categorias: '' @ err_message e)))
   \<and> (\<forall>req w resp w' e.
      post_categories rt req w = (resp, w') \<longrightarrow> consumed_faults w w' = [Some e, None] \<longrightarrow>
      js_includes (err_message e) ''No rows found'' \<longrightarrow> http_status resp = 200)
   \<and> (\<forall>w. http_status (fst (get_products rt w)) = 200 \<and>
           http_status (fst (get_categories rt w)) = 200 \<and>
           http_status (fst (get_orders rt w)) = 200)
   \<and> (\<forall>w e fs.
      faults w = Some e # fs \<longrightarrow> \<not> js_includes (err_message e) ''does not exist'' \<longrightarrow>
      get_products rt w = (respond 200 (JObj [(''products'', JArr [])]), w\<lparr>faults := fs\<rparr>) \<and>
      get_categories rt w = (respond 200 (JObj [(''categories'', JArr [])]), w\<lparr>faults := fs\<rparr>) \<and>
      get_orders rt w = (respond 200 (JObj [(''orders'', JArr [])]), w\<lparr>faults := fs\<rparr>))
   \<and> (\<forall>req w e fs.
      truthy (field (req_body req) ''username'') \<longrightarrow> truthy (field (req_body req) ''password'') \<longrightarrow>
      faults w = Some e # fs \<longrightarrow> \<not> js_includes (err_message e) ''does not exist'' \<longrightarrow>
      err_code e \<noteq> ''PGRST116'' \<longrightarrow>
      post_auth_login rt req w = (respond 401 (error_body ''Erro no sistema''), w\<lparr>faults := fs\<rparr>))"
proof (intro conjI allI impI)
  fix req w resp w' e
  assume "post_orders rt req w = (resp, w')" "Some e \<in> set (consumed_faults w w')"
  then show "resp = respond 500 (error_body (''Erro ao salvar pedido: '' @ err_message e))"
    by (rule post_orders_store_error)
next
  fix req w resp w' e
  assume "post_orders_update_status rt req w = (resp, w')" "Some e \<in> set (consumed_faults w w')"
  then show "resp = respond 500 (error_body (''Erro ao atualizar status do pedido: '' @ err_message e))"
    by (rule post_orders_update_status_store_error)
next
  fix req w resp w' e
  assume "post_products rt req w = (resp, w')" "Some e \<in> set (consumed_faults w w')"
  then show "resp = respond 500 (error_body (''Erro ao salvar produtos: '' @ err_message e))"
    by (rule post_products_store_error)
next
  fix req w resp w' e
  assume "post_categories_add rt req w = (resp, w')" "Some e \<in> set (consumed_faults w w')"
  then show "resp = respond 500 (error_body (''Erro ao adicionar categoria: '' @ err_message e))"
    by (rule post_categories_add_store_error)
next
  fix req w resp w' e
  assume "post_categories_delete rt req w = (resp, w')" "Some e \<in> set (consumed_faults w w')"
  then show "resp = respond 500 (error_body (''Erro ao excluir categoria: '' @ err_message e))"
    by (rule post_categories_delete_store_error)
next
  fix req w resp w' e
  assume "post_categories rt req w = (resp, w')" "Some e \<in> set (consumed_faults w w')"
    "\<not> js_includes (err_message e) ''No rows found''"
  with post_categories_store_error [of rt req w resp w']
  show "resp = respond 500 (error_body (''Erro ao salvar categorias: '' @ err_message e))"
    by blast
next
  fix req w resp w' f e
  assume "post_categories rt req w = (resp, w')" "consumed_faults w w' = [f, Some e]"
  with post_categories_store_error [of rt req w resp w']
  show "resp = respond 500 (error_body (''Erro ao salvar categorias: '' @ err_message e))"
    by blast
next
  fix req w resp w' e
  assume "post_categories rt req w = (resp, w')" "consumed_faults w w' = [Some e, None]"
    "js_includes (err_message e) ''No rows found''"
  with post_categories_store_error [of rt req w resp w']
  show "http_status resp = 200"
    by blast
next
  fix req :: request and w :: world and e fs
  assume "truthy (field (req_body req) ''username'')" "truthy (field (req_body req) ''password'')"
    "faults w = Some e # fs" "\<not> js_includes (err_message e) ''does not exist''"
    "err_code e \<noteq> ''PGRST116''"
  then show "post_auth_login rt req w = (respond 401 (error_body ''Erro no sistema''), w\<lparr>faults := fs\<rparr>)"
    by (rule post_auth_login_store_error)
qed (simp_all add: get_products_status get_categories_status get_orders_status
       get_products_store_error get_categories_store_error get_orders_store_error)

theorem write_handlers_surface_store_errors_witness:
  "consumed_faults (example_world\<lparr>faults := [Some connection_error]\<rparr>) example_world
     = [Some connection_error] \<and>
   post_products example_runtime save_products_request (example_world\<lparr>faults := [Some connection_error]\<rparr>) =
     (respond 500 (error_body ''Erro ao salvar produtos: connection refused''), example_world) \<and>
   consumed_faults (example_world\<lparr>faults := [None, Some connection_error]\<rparr>) example_world
     = [None, Some connection_error] \<and>
   fst (post_categories example_runtime save_categories_request
          (example_world\<lparr>faults := [None, Some connection_error]\<rparr>)) =
     respond 500 (error_body ''Erro ao salvar categorias: connection refused'') \<and>
   js_includes (err_message no_rows_error) ''No rows found'' \<and>
   http_status (fst (post_categories example_runtime save_categories_request
          (example_world\<lparr>faults := [Some no_rows_error, None]\<rparr>))) = 200"
proof -
  let ?w = "example_world\<lparr>faults := [Some connection_error]\<rparr>"
  let ?run = "post_products example_runtime save_products_request ?w"
  note main = write_handlers_surface_store_errors [of example_runtime]
  have w: "example_world\<lparr>faults := []\<rparr> = example_world"
    by (simp add: example_world_def)
  have c: "consumed_faults ?w example_world = [Some connection_error]"
    by (simp add: consumed_faults_def example_world_def)
  have auth: "authorized save_products_request"
    by (simp add: save_products_request_def admin_request_def authorized_def checkAuth_def)
  have nt: "\<not> length_text_throws (field (req_body save_products_request) ''products'')"
    by (simp add: save_products_request_def admin_request_def length_text_throws_def)
  have norm: "normalizeProducts example_runtime (field (req_body save_products_request) ''products'') =
      Inr [JObj [(''colors'', JArr red_colors), (''sabores'', JArr [sabor_entry ''Red'' 5])],
           JObj [(''title'', JStr ''Suco''),
                 (''sabores'', JArr [sabor_entry ''Sem nome'' 5, sabor_entry ''Uva'' 2,
                                     sabor_entry ''Limao'' 0, sabor_entry ''Caju'' 0])]]"
    by (simp add: save_products_request_def admin_request_def example_products_normalized)
  have s: "snd ?run = example_world"
    by (simp add: post_products_def auth nt norm store_delete_def next_fault_def w)
  then have run: "?run = (fst ?run, example_world)"
    by (metis prod.collapse)
  have e: "Some connection_error \<in> set (consumed_faults ?w example_world)"
    by (simp add: c)
  from main [THEN conjunct2, THEN conjunct2, THEN conjunct1, rule_format, OF run e]
  have r1: "fst ?run = respond 500 (error_body ''Erro ao salvar produtos: connection refused'')"
    by (simp add: connection_error_def)
  let ?w2 = "example_world\<lparr>faults := [None, Some connection_error]\<rparr>"
  let ?run2 = "post_categories example_runtime save_categories_request ?w2"
  let ?w3 = "example_world\<lparr>faults := [Some no_rows_error, None]\<rparr>"
  let ?run3 = "post_categories example_runtime save_categories_request ?w3"
  have auth2: "authorized save_categories_request"
    by (simp add: save_categories_request_def admin_request_def authorized_def checkAuth_def)
  have nt2: "\<not> length_text_throws (field (req_body save_categories_request) ''categories'')"
    by (simp add: save_categories_request_def admin_request_def length_text_throws_def)
  have norm2: "normalizeCategories example_runtime (field (req_body save_categories_request) ''categories'') =
      Inr [JObj [(''id'', JStr ''cha''), (''name'', JStr ''Cha''), (''description'', JStr ''Categoria de cha'')]]"
    by (simp add: save_categories_request_def admin_request_def normalizeCategories_def
        normalizeCategory_def capitalize_def utf8_width_def example_runtime_def ascii_upper_def)
  have f2: "faults (snd ?run2) = []"
    by (simp add: post_categories_def auth2 nt2 norm2 store_delete_def store_upsert_def
        next_fault_def Let_def)
  have f3: "faults (snd ?run3) = []"
    by (simp add: post_categories_def auth2 nt2 norm2 store_delete_def store_upsert_def
        next_fault_def Let_def no_rows_error_def)
  have c2: "consumed_faults ?w2 example_world = [None, Some connection_error]"
    by (simp add: consumed_faults_def example_world_def)
  from f2 have c2': "consumed_faults ?w2 (snd ?run2) = [None, Some connection_error]"
    by (simp add: consumed_faults_def)
  from f3 have c3': "consumed_faults ?w3 (snd ?run3) = [Some no_rows_error, None]"
    by (simp add: consumed_faults_def)
  have h3: "js_includes (err_message no_rows_error) ''No rows found''"
    by (simp add: no_rows_error_def)
  have run2: "?run2 = (fst ?run2, snd ?run2)" and run3: "?run3 = (fst ?run3, snd ?run3)"
    by simp_all
  from main [THEN conjunct2, THEN conjunct2, THEN conjunct2, THEN conjunct2, THEN conjunct2,
      THEN conjunct2, THEN conjunct1, rule_format, OF run2 c2']
  have r2: "fst ?run2 = respond 500 (error_body ''Erro ao salvar categorias: connection refused'')"
    by (simp add: connection_error_def)
  from main [THEN conjunct2, THEN conjunct2, THEN conjunct2, THEN conjunct2, THEN conjunct2,
      THEN conjunct2, THEN conjunct2, THEN conjunct1, rule_format, OF run3 c3' h3]
  have r3: "http_status (fst ?run3) = 200" .
  from run r1 c c2 r2 h3 r3 show ?thesis by simp
qed

section \<open>Idempotence of the normalization functions\<close>

text \<open>
  Applying normalizeOrders to its own result returns that result. So does
  normalizeProducts, for the products whose \<open>sabores\<close>, when the sort reaches them,
  hold entries that are available or sold out. For normalizeCategories this holds for
  the arrays that do not hold the empty string (with an upper case that keeps a string
  that is not empty from becoming empty).
\<close>

lemma js_or_idem: "js_or (js_or a b) b = js_or a b"
  by (simp add: js_or_def)

lemma mapM_fixed:
  "(\<And>y. y \<in> set ys \<Longrightarrow> f y = Inr y) \<Longrightarrow> mapM f ys = Inr ys"
  using mapM_total [of ys f "\<lambda>y. y"] by simp

lemma mapM_results:
  "mapM f xs = Inr ys \<Longrightarrow> y \<in> set ys \<Longrightarrow> \<exists>x\<in>set xs. f x = Inr y"
  by (induction xs arbitrary: ys) (auto split: sum.splits)

lemma spec_total_number:
  "is_number t \<Longrightarrow> spec_total rt t = t \<and> \<not> to_primitive_throws t"
  by (cases t) (simp_all add: spec_total_def)

lemma normalizeOrder_fixed:
  assumes "normalizeOrder rt order = Inr r"
  shows "normalizeOrder rt r = Inr r"
proof -
  from assms have nn: "\<not> nullish order"
    and nt: "\<not> to_primitive_throws (field order ''total'')"
    using normalizeOrder_throws [of order rt] by auto
  define t where "t = spec_total rt (field order ''total'')"
  have t: "spec_total rt t = t" "\<not> to_primitive_throws t"
    using spec_total_number [OF is_number_spec_total, of rt rt "field order ''total''"]
    by (simp_all add: t_def)
  from assms nn nt have r: "r = JObj
        [(''id'', field order ''id''),
         (''date'', field order ''date''),
         (''time'', field order ''time''),
         (''customerName'', js_or (field order ''customer_name'') (field order ''customerName'')),
         (''customerPhone'', js_or (field order ''customer_phone'') (field order ''customerPhone'')),
         (''items'', if isArray (field order ''items'') then field order ''items'' else JArr []),
         (''total'', t),
         (''paymentMethod'', js_or (field order ''payment_method'') (field order ''paymentMethod'')),
         (''status'', js_or (field order ''status'') (JStr ''pending'')),
         (''createdAt'', js_or (field order ''created_at'') (field order ''createdAt''))]"
    by (simp add: normalizeOrder_total t_def)
  have "\<not> nullish r" "field r ''total'' = t"
    by (simp_all add: r nullish_def)
  from normalizeOrder_total [OF this(1), of rt] this(2) t
  have "normalizeOrder rt r = Inr (JObj
        [(''id'', field r ''id''),
         (''date'', field r ''date''),
         (''time'', field r ''time''),
         (''customerName'', js_or (field r ''customer_name'') (field r ''customerName'')),
         (''customerPhone'', js_or (field r ''customer_phone'') (field r ''customerPhone'')),
         (''items'', if isArray (field r ''items'') then field r ''items'' else JArr []),
         (''total'', t),
         (''paymentMethod'', js_or (field r ''payment_method'') (field r ''paymentMethod'')),
         (''status'', js_or (field r ''status'') (JStr ''pending'')),
         (''createdAt'', js_or (field r ''created_at'') (field r ''createdAt''))])"
    by simp
  then show ?thesis
    unfolding r by (simp add: js_or_idem) (simp add: js_or_def)
qed

lemma normalizeOrders_idempotent:
  assumes "normalizeOrders rt v = Inr out"
  shows "normalizeOrders rt (JArr out) = Inr out"
proof (cases "isArray v")
  case False
  with assms have "out = []" by (cases v) (simp_all add: normalizeOrders_def)
  then show ?thesis by (simp add: normalizeOrders_def)
next
  case True
  then obtain os where v: "v = JArr os" by (cases v) simp_all
  with assms have m: "mapM (normalizeOrder rt) os = Inr out" by (simp add: normalizeOrders_def)
  have "mapM (normalizeOrder rt) out = Inr out"
  proof (rule mapM_fixed)
    fix y assume "y \<in> set out"
    with mapM_results [OF m] obtain x where "normalizeOrder rt x = Inr y" by blast
    then show "normalizeOrder rt y = Inr y" by (rule normalizeOrder_fixed)
  qed
  then show ?thesis by (simp add: normalizeOrders_def)
qed

lemma spread_with_twice: "spread_with (spread_with p k x) k x = spread_with p k x"
  by (simp add: spread_with_def)

lemma stable_sort_fixed:
  "successively (\<lambda>a b. \<not> (sold_out a \<and> available rt b)) xs \<Longrightarrow>
   stable_sort (compare_sabores rt) xs = xs"
proof (induction xs)
  case Nil
  show ?case by (simp add: stable_sort_Nil)
next
  case (Cons x xs)
  from Cons.prems have "successively (\<lambda>a b. \<not> (sold_out a \<and> available rt b)) xs"
    by (cases xs) simp_all
  then have IH: "stable_sort (compare_sabores rt) xs = xs"
    by (rule Cons.IH)
  show ?case
  proof (cases "sold_out x")
    case False
    then show ?thesis by (simp add: stable_sort_Cons IH insert_by_not_sold_out)
  next
    case True
    with Cons.prems have "xs = [] \<or> \<not> available rt (hd xs)"
      by (auto simp: successively_Cons)
    then have "takeWhile (available rt) xs = []" "dropWhile (available rt) xs = xs"
      by (cases xs; auto)+
    with True show ?thesis by (simp add: stable_sort_Cons IH insert_by_sold_out)
  qed
qed

lemma normalizeProduct_fixed:
  assumes run: "normalizeProduct rt p = Inr p'"
    and cls: "\<And>fs f. \<not> isArray (field p ''colors'') \<Longrightarrow> field p ''sabores'' = JArr fs \<Longrightarrow>
                f \<in> set fs \<Longrightarrow> available rt f \<or> sold_out f"
  shows "normalizeProduct rt p' = Inr p'"
proof (cases "isArray (field p ''colors'')")
  case True
  then obtain cs where cs: "field p ''colors'' = JArr cs" by (cases "field p ''colors''") simp_all
  with run normalizeProduct_colors [OF cs, of rt]
  obtain ss where ss: "mapM (color_to_sabor rt) cs = Inr ss"
    and p': "p' = spread_with p ''sabores'' (JArr ss)"
    by (auto split: sum.splits)
  from p' cs have "field p' ''colors'' = JArr cs" by (simp add: field_spread_with)
  from normalizeProduct_colors [OF this, of rt] ss p' show ?thesis
    by (simp add: spread_with_twice)
next
  case nc: False
  show ?thesis
  proof (cases "isArray (field p ''sabores'')")
    case False
    with nc run have "p' = p"
      by (auto simp: normalizeProduct_def split: if_splits)
    with run show ?thesis by simp
  next
    case True
    then obtain fs where fs: "field p ''sabores'' = JArr fs"
      by (cases "field p ''sabores''") simp_all
    from cls [OF nc fs] have all: "\<forall>f\<in>set fs. available rt f \<or> sold_out f" by blast
    define ordered where "ordered = stable_sort (compare_sabores rt) fs"
    let ?fill = "\<lambda>f. JObj
       [(''name'', js_or (field f ''name'') (JStr ''Sem nome'')),
        (''image'', js_or (field f ''image'') (JStr ''https://via.placeholder.com/400x300'')),
        (''quantity'', stock_of f),
        (''description'', js_or (field f ''description'') (JStr []))]"
    have srt: "js_sort rt (compare_sabores rt) fs = Inr ordered"
      using consistent_sabores [OF all] by (simp add: js_sort_def ordered_def)
    have mem: "set ordered = set fs"
      unfolding ordered_def
      using mset_stable_sort [of "compare_sabores rt" fs] by (rule mset_eq_setD)
    with all have ocls: "\<forall>f\<in>set ordered. available rt f \<or> sold_out f" by simp
    then have nn: "\<forall>f\<in>set ordered. \<not> nullish f"
      by (auto simp: available_def sold_out_def)
    then have "mapM fill_sabor ordered = Inr (map ?fill ordered)"
      by (intro mapM_total fill_sabor_total) simp
    with run normalizeProduct_sabores [OF nc fs, of rt] srt
    have p': "p' = spread_with p ''sabores'' (JArr (map ?fill ordered))"
      by simp
    define gs where "gs = map ?fill ordered"
    have keep: "available rt (?fill f) = available rt f" "sold_out (?fill f) = sold_out f"
      if "\<not> nullish f" for f
      using that by (simp_all add: available_def sold_out_def stock_of_def js_or_idem nullish_def)
    have gcls: "\<forall>g\<in>set gs. available rt g \<or> sold_out g"
      unfolding gs_def using ocls nn keep by auto
    have "successively (\<lambda>a b. \<not> (sold_out a \<and> available rt b)) ordered"
      unfolding ordered_def by (rule successively_stable_sort)
    then have "successively (\<lambda>a b. \<not> (sold_out (?fill a) \<and> available rt (?fill b))) ordered"
      using nn keep by (auto elim!: successively_mono)
    then have "successively (\<lambda>a b. \<not> (sold_out a \<and> available rt b)) gs"
      unfolding gs_def successively_map .
    then have "stable_sort (compare_sabores rt) gs = gs" by (rule stable_sort_fixed)
    with consistent_sabores [OF gcls]
    have sorted: "js_sort rt (compare_sabores rt) gs = Inr gs"
      by (simp add: js_sort_def)
    have fixed: "mapM fill_sabor gs = Inr gs"
    proof (rule mapM_fixed)
      fix y assume "y \<in> set gs"
      then obtain f where "y = ?fill f" unfolding gs_def by auto
      then show "fill_sabor y = Inr y"
        by (simp add: fill_sabor_def nullish_def js_or_idem stock_of_def)
    qed
    from p' nc fs have "\<not> isArray (field p' ''colors'')" "field p' ''sabores'' = JArr gs"
      by (simp_all add: field_spread_with gs_def)
    from normalizeProduct_sabores [OF this, of rt] sorted fixed p' show ?thesis
      by (simp add: spread_with_twice gs_def)
  qed
qed

lemma normalizeProducts_idempotent:
  assumes run: "normalizeProducts rt (JArr ps) = Inr out"
    and cls: "\<And>p fs f. p \<in> set ps \<Longrightarrow> \<not> isArray (field p ''colors'') \<Longrightarrow>
                field p ''sabores'' = JArr fs \<Longrightarrow> f \<in> set fs \<Longrightarrow> available rt f \<or> sold_out f"
  shows "normalizeProducts rt (JArr out) = Inr out"
proof -
  from run have m: "mapM (normalizeProduct rt) ps = Inr out" by (simp add: normalizeProducts_def)
  have "mapM (normalizeProduct rt) out = Inr out"
  proof (rule mapM_fixed)
    fix y assume "y \<in> set out"
    with mapM_results [OF m] obtain x where x: "x \<in> set ps" "normalizeProduct rt x = Inr y"
      by blast
    from x(2) cls [OF x(1)] show "normalizeProduct rt y = Inr y"
      by (rule normalizeProduct_fixed)
  qed
  then show ?thesis by (simp add: normalizeProducts_def)
qed

lemma utf8_width_pos: "0 < utf8_width c"
  by (simp add: utf8_width_def Let_def)

lemma capitalize_nonempty:
  "(\<And>t. t \<noteq> [] \<Longrightarrow> to_upper_case rt t \<noteq> []) \<Longrightarrow> s \<noteq> [] \<Longrightarrow> capitalize rt s \<noteq> []"
  using utf8_width_pos by (cases s) (auto simp: capitalize_def)

lemma normalizeCategory_fixed:
  assumes run: "normalizeCategory rt cat = Inr r" and r: "r \<noteq> JNull"
    and ne: "cat \<noteq> JStr []" and up: "\<And>t. t \<noteq> [] \<Longrightarrow> to_upper_case rt t \<noteq> []"
  shows "normalizeCategory rt r = Inr r"
proof (cases cat)
  case (JStr s)
  with ne have s: "s \<noteq> []" by simp
  from run JStr have "r = JObj [(''id'', JStr s), (''name'', JStr (capitalize rt s)),
                              (''description'', JStr (''Categoria de '' @ s))]"
    by (simp add: normalizeCategory_def)
  with s capitalize_nonempty [OF up s] show ?thesis
    by (simp add: normalizeCategory_def category_name_def category_description_def)
next
  case (JObj kvs)
  with run r have id: "truthy (field cat ''id'')"
    by (auto simp: normalizeCategory_def split: if_splits)
  with run JObj obtain n d where n: "category_name rt cat = Inr n"
    and d: "category_description rt cat = Inr d"
    and r': "r = JObj [(''id'', field cat ''id''), (''name'', n), (''description'', d)]"
    by (auto simp: normalizeCategory_def split: sum.splits)
  have tn: "truthy n"
  proof (cases "truthy (field cat ''name'')")
    case True
    with n show ?thesis by (simp add: category_name_def)
  next
    case False
    with n obtain s where "field cat ''id'' = JStr s" "n = JStr (capitalize rt s)"
      by (cases "field cat ''id''") (auto simp: category_name_def)
    with id capitalize_nonempty [OF up, of s] show ?thesis by simp
  qed
  from d have td: "truthy d"
    by (auto simp: category_description_def split: if_splits)
  from id tn td show ?thesis
    unfolding r' by (simp add: normalizeCategory_def category_name_def category_description_def)
next
  case (JArr xs)
  with run r show ?thesis by (simp add: normalizeCategory_def)
qed (use run r in \<open>simp_all add: normalizeCategory_def\<close>)

lemma normalizeCategories_idempotent:
  assumes run: "normalizeCategories rt (JArr cs) = Inr out"
    and ne: "JStr [] \<notin> set cs" and up: "\<And>t. t \<noteq> [] \<Longrightarrow> to_upper_case rt t \<noteq> []"
  shows "normalizeCategories rt (JArr out) = Inr out"
proof -
  from run obtain xs where m: "mapM (normalizeCategory rt) cs = Inr xs"
    and out: "out = filter (\<lambda>cat. cat \<noteq> JNull) xs"
    by (auto simp: normalizeCategories_def split: sum.splits)
  have "mapM (normalizeCategory rt) out = Inr out"
  proof (rule mapM_fixed)
    fix y assume "y \<in> set out"
    with out have y: "y \<in> set xs" "y \<noteq> JNull" by simp_all
    with mapM_results [OF m] obtain x where x: "x \<in> set cs" "normalizeCategory rt x = Inr y"
      by blast
    with ne have "x \<noteq> JStr []" by auto
    with x y show "normalizeCategory rt y = Inr y"
      using up by (intro normalizeCategory_fixed [of rt x]) simp_all
  qed
  moreover from out have "filter (\<lambda>cat. cat \<noteq> JNull) out = out" by simp
  ultimately show ?thesis by (simp add: normalizeCategories_def)
qed

end
